(* ===== verification/Omni_Prelude.thy ===== *)
theory Omni_Prelude
  imports Main "HOL-Library.Char_ord" "HOL-Library.List_Lexorder"
begin

text \<open>
  Shared vocabulary of the development.

  \<^item> Go's \<^verbatim>\<open>error\<close> result is an \<open>option\<close>: \<open>None\<close> is \<^verbatim>\<open>nil\<close> and
    \<open>Some e\<close> a returned error; a function that returns a value or an error is a sum, with
    \<open>Inl\<close> for the error. \<open>or_else\<close> is the idiom
    \<^verbatim>\<open>if err := f(); err != nil { return err }; return g()\<close>, \<open>first_err\<close> the same
    idiom inside a \<^verbatim>\<open>for range\<close> loop and \<open>bind_res\<close> the idiom for a returned value.
  \<^item> A Go string is its bytes, so it is a \<open>string\<close> of HOL (a list of 8-bit characters) and
    \<open><\<close> on it (\<open>List_Lexorder\<close> over \<open>Char_ord\<close>) is Go's bytewise order. The parts
    of the packages \<^verbatim>\<open>strings\<close>, \<^verbatim>\<open>unicode/utf8\<close> and \<^verbatim>\<open>strconv\<close>
    the sources use are defined here.
  \<^item> \<open>int64\<close> is the wrap-around of Go's 64-bit signed integers.
\<close>

named_theorems err_simps \<open>rules that decide when a chain of error checks passes\<close>
named_theorems text_simps \<open>rules that evaluate string predicates\<close>

section \<open>Error results\<close>

fun or_else :: "'e option \<Rightarrow> 'e option \<Rightarrow> 'e option" where
  "or_else None e = e"
| "or_else (Some x) e = Some x"

fun first_err :: "('a \<Rightarrow> 'e option) \<Rightarrow> 'a list \<Rightarrow> 'e option" where
  "first_err f [] = None"
| "first_err f (x # xs) = or_else (f x) (first_err f xs)"

definition fail_if :: "bool \<Rightarrow> 'e \<Rightarrow> 'e option" where
  "fail_if b e = (if b then Some e else None)"

fun bind_res :: "'e + 'a \<Rightarrow> ('a \<Rightarrow> 'e + 'b) \<Rightarrow> 'e + 'b" where
  "bind_res (Inl e) f = Inl e"
| "bind_res (Inr x) f = f x"

definition check_res :: "'e option \<Rightarrow> ('e + 'a) \<Rightarrow> 'e + 'a" where
  "check_res e r = (case e of Some x \<Rightarrow> Inl x | None \<Rightarrow> r)"

lemma or_else_None [err_simps, simp]: "or_else a b = None \<longleftrightarrow> a = None \<and> b = None"
  by (cases a) auto

lemma or_else_Some: "or_else a b = Some e \<longleftrightarrow> a = Some e \<or> a = None \<and> b = Some e"
  by (cases a) auto

lemma or_else_assoc [simp]: "or_else (or_else a b) c = or_else a (or_else b c)"
  by (cases a) auto

lemma or_else_None_right [simp]: "or_else a None = a"
  by (cases a) auto

lemma first_err_None [err_simps, simp]: "first_err f xs = None \<longleftrightarrow> (\<forall>x\<in>set xs. f x = None)"
  by (induction xs) auto

lemma first_err_append [simp]: "first_err f (xs @ ys) = or_else (first_err f xs) (first_err f ys)"
  by (induction xs) auto

lemma first_err_SomeD: "first_err f xs = Some e \<Longrightarrow> \<exists>x\<in>set xs. f x = Some e"
  by (induction xs) (auto simp: or_else_Some)

lemma fail_if_None [err_simps, simp]: "fail_if b e = None \<longleftrightarrow> \<not> b"
  by (simp add: fail_if_def)

lemma fail_if_Some [simp]: "fail_if b e = Some x \<longleftrightarrow> b \<and> x = e"
  by (auto simp: fail_if_def)

lemma fail_if_simps [simp]: "fail_if True e = Some e" "fail_if False e = None"
  by (simp_all add: fail_if_def)

lemma bind_res_Inr [simp]: "bind_res r f = Inr y \<longleftrightarrow> (\<exists>x. r = Inr x \<and> f x = Inr y)"
  by (cases r) auto

lemma bind_res_Inl: "bind_res r f = Inl e \<longleftrightarrow> r = Inl e \<or> (\<exists>x. r = Inr x \<and> f x = Inl e)"
  by (cases r) auto

lemma check_res_Inr [simp]: "check_res e r = Inr y \<longleftrightarrow> e = None \<and> r = Inr y"
  by (auto simp: check_res_def split: option.splits)

lemma check_res_simps [simp]: "check_res None r = r" "check_res (Some x) r = Inl x"
  by (simp_all add: check_res_def)

section \<open>Go strings\<close>

definition ascii_space :: "char \<Rightarrow> bool" where
  "ascii_space c \<longleftrightarrow> c \<in> {CHR 0x09, CHR 0x0A, CHR 0x0B, CHR 0x0C, CHR 0x0D, CHR 0x20}"

text \<open>
  The three-byte encodings of the remaining code points with \<^verbatim>\<open>unicode.IsSpace\<close>:
  U+1680, U+2000 to U+200A, U+2028, U+2029, U+202F, U+205F and U+3000.
\<close>

definition space3 :: "char \<Rightarrow> char \<Rightarrow> char \<Rightarrow> bool" where
  "space3 a b c \<longleftrightarrow>
     a = CHR 0xE1 \<and> b = CHR 0x9A \<and> c = CHR 0x80
   \<or> a = CHR 0xE2 \<and> b = CHR 0x80 \<and>
       (CHR 0x80 \<le> c \<and> c \<le> CHR 0x8A \<or> c \<in> {CHR 0xA8, CHR 0xA9, CHR 0xAF})
   \<or> a = CHR 0xE2 \<and> b = CHR 0x81 \<and> c = CHR 0x9F
   \<or> a = CHR 0xE3 \<and> b = CHR 0x80 \<and> c = CHR 0x80"

text \<open>U+0085 and U+00A0.\<close>

definition space2 :: "char \<Rightarrow> char \<Rightarrow> bool" where
  "space2 a b \<longleftrightarrow> a = CHR 0xC2 \<and> b \<in> {CHR 0x85, CHR 0xA0}"

fun trim_left :: "string \<Rightarrow> string" where
  "trim_left [] = []"
| "trim_left [a] = (if ascii_space a then [] else [a])"
| "trim_left [a, b] =
     (if ascii_space a then trim_left [b] else if space2 a b then [] else [a, b])"
| "trim_left (a # b # c # cs) =
     (if ascii_space a then trim_left (b # c # cs)
      else if space2 a b then trim_left (c # cs)
      else if space3 a b c then trim_left cs else a # b # c # cs)"

text \<open>The same from the end, on the reversed string.\<close>

fun trim_rev :: "string \<Rightarrow> string" where
  "trim_rev [] = []"
| "trim_rev [a] = (if ascii_space a then [] else [a])"
| "trim_rev [b, a] =
     (if ascii_space b then trim_rev [a] else if space2 a b then [] else [b, a])"
| "trim_rev (c # b # a # cs) =
     (if ascii_space c then trim_rev (b # a # cs)
      else if space2 b c then trim_rev (a # cs)
      else if space3 a b c then trim_rev cs else c # b # a # cs)"

definition TrimSpace :: "string \<Rightarrow> string" where
  "TrimSpace s = rev (trim_rev (rev (trim_left s)))"

definition blank :: "string \<Rightarrow> bool" where
  "blank s \<longleftrightarrow> TrimSpace s = []"

definition ContainsAny :: "string \<Rightarrow> string \<Rightarrow> bool" where
  "ContainsAny s chars \<longleftrightarrow> (\<exists>c\<in>set s. c \<in> set chars)"

definition ContainsNUL :: "string \<Rightarrow> bool" where
  "ContainsNUL s \<longleftrightarrow> CHR 0x00 \<in> set s"

lemma trim_left_not_longer: "length (trim_left s) \<le> length s"
  by (induction s rule: trim_left.induct) auto

lemma trim_rev_not_longer: "length (trim_rev s) \<le> length s"
  by (induction s rule: trim_rev.induct) auto

lemma TrimSpace_not_longer: "length (TrimSpace s) \<le> length s"
  using trim_left_not_longer [of s] trim_rev_not_longer [of "rev (trim_left s)"]
  by (simp add: TrimSpace_def)

lemma TrimSpace_Nil [simp]: "TrimSpace [] = []"
  by (simp add: TrimSpace_def)

lemma blank_Nil [simp]: "blank []"
  by (simp add: blank_def)

lemma not_blank_nonempty: "\<not> blank s \<Longrightarrow> s \<noteq> []"
  by auto

text \<open>Trimming drops no byte that is ASCII and not a space.\<close>

definition plain :: "char \<Rightarrow> bool" where
  "plain c \<longleftrightarrow> \<not> ascii_space c \<and> (of_char c :: nat) < 0x80"

lemma space_not_plain: "space2 a b \<Longrightarrow> \<not> plain a \<and> \<not> plain b" "space3 a b c \<Longrightarrow> \<not> plain a \<and> \<not> plain b \<and> \<not> plain c"
  by (auto simp: space2_def space3_def plain_def less_eq_char_def)

lemma trim_left_plain: "plain c \<Longrightarrow> c \<in> set s \<Longrightarrow> c \<in> set (trim_left s)"
  by (induction s rule: trim_left.induct) (auto simp: plain_def dest: space_not_plain [unfolded plain_def])

lemma trim_rev_plain: "plain c \<Longrightarrow> c \<in> set s \<Longrightarrow> c \<in> set (trim_rev s)"
  by (induction s rule: trim_rev.induct) (auto simp: plain_def dest: space_not_plain [unfolded plain_def])

lemma not_blank_plain: "c \<in> set s \<Longrightarrow> plain c \<Longrightarrow> \<not> blank s"
  using trim_left_plain [of c s] trim_rev_plain [of c "rev (trim_left s)"] by (auto simp: blank_def TrimSpace_def)

lemmas text_eval [text_simps] =
  blank_def TrimSpace_def ascii_space_def space2_def space3_def ContainsAny_def ContainsNUL_def

subsection \<open>UTF-8\<close>

abbreviation byte :: "char \<Rightarrow> nat" where
  "byte c \<equiv> of_char c"

definition cont_byte :: "char \<Rightarrow> bool" where
  "cont_byte c \<longleftrightarrow> 0x80 \<le> byte c \<and> byte c \<le> 0xBF"

text \<open>
  The well-formed encodings of 2, 3 and 4 bytes: the range of the first byte and the narrowed range of
  the second one, as in the acceptance table of \<^verbatim>\<open>unicode/utf8\<close>.
\<close>

definition utf8_2 :: "char \<Rightarrow> char \<Rightarrow> bool" where
  "utf8_2 a b \<longleftrightarrow> 0xC2 \<le> byte a \<and> byte a \<le> 0xDF \<and> cont_byte b"

definition utf8_3 :: "char \<Rightarrow> char \<Rightarrow> char \<Rightarrow> bool" where
  "utf8_3 a b c \<longleftrightarrow> 0xE0 \<le> byte a \<and> byte a \<le> 0xEF \<and> cont_byte b \<and> cont_byte c \<and>
     (byte a = 0xE0 \<longrightarrow> 0xA0 \<le> byte b) \<and> (byte a = 0xED \<longrightarrow> byte b \<le> 0x9F)"

definition utf8_4 :: "char \<Rightarrow> char \<Rightarrow> char \<Rightarrow> char \<Rightarrow> bool" where
  "utf8_4 a b c d \<longleftrightarrow> 0xF0 \<le> byte a \<and> byte a \<le> 0xF4 \<and> cont_byte b \<and> cont_byte c \<and> cont_byte d \<and>
     (byte a = 0xF0 \<longrightarrow> 0x90 \<le> byte b) \<and> (byte a = 0xF4 \<longrightarrow> byte b \<le> 0x8F)"

definition rune_len :: "string \<Rightarrow> nat" where
  \<comment> \<open>length of the well-formed encoding at the head of a nonempty string, 0 when there is none\<close>
  "rune_len s = (case s of
      a # cs \<Rightarrow> if byte a < 0x80 then 1
        else (case cs of
            b # ds \<Rightarrow> if utf8_2 a b then 2
              else (case ds of
                  c # es \<Rightarrow> if utf8_3 a b c then 3
                    else (case es of d # _ \<Rightarrow> if utf8_4 a b c d then 4 else 0 | [] \<Rightarrow> 0)
                | [] \<Rightarrow> 0)
          | [] \<Rightarrow> 0)
    | [] \<Rightarrow> 0)"

function ValidString :: "string \<Rightarrow> bool" where
  "ValidString s =
     (if s = [] then True
      else if rune_len s = 0 then False else ValidString (drop (rune_len s) s))"
  by pat_completeness auto
termination
  by (relation "measure length") (auto intro!: diff_less)

text \<open>
  \<^verbatim>\<open>encoding/json\<close> replaces every byte that starts no well-formed encoding by U+FFFD when it
  writes a string, so a value that went through \<^verbatim>\<open>json.Marshal\<close> and
  \<^verbatim>\<open>json.Unmarshal\<close> has its strings coerced; valid strings are kept.
\<close>

function coerce_utf8 :: "string \<Rightarrow> string" where
  "coerce_utf8 s =
     (if s = [] then []
      else if rune_len s = 0 then [CHR 0xEF, CHR 0xBF, CHR 0xBD] @ coerce_utf8 (tl s)
      else take (rune_len s) s @ coerce_utf8 (drop (rune_len s) s))"
  by pat_completeness auto
termination
  by (relation "measure length") (auto intro!: diff_less)

declare ValidString.simps [simp del] coerce_utf8.simps [simp del]

lemma ValidString_Nil [simp]: "ValidString []"
  by (simp add: ValidString.simps [of "[]"])

lemma ValidString_Cons_ascii [simp]: "byte a < 0x80 \<Longrightarrow> ValidString (a # s) = ValidString s"
  by (subst ValidString.simps) (simp add: rune_len_def)

lemma coerce_utf8_valid [simp]: "ValidString s \<Longrightarrow> coerce_utf8 s = s"
proof (induction s rule: ValidString.induct)
  case (1 s)
  have "s = [] \<or> rune_len s \<noteq> 0 \<and> ValidString (drop (rune_len s) s)"
    using "1.prems" by (simp add: ValidString.simps [of s] split: if_splits)
  then show ?case
    using "1.IH" by (auto simp: coerce_utf8.simps [of s])
qed

section \<open>Lists\<close>

fun first_with :: "('a \<Rightarrow> bool) \<Rightarrow> 'a list \<Rightarrow> 'a option" where
  \<comment> \<open>\<^verbatim>\<open>for _, x := range xs { if p(x) { return x } }\<close>\<close>
  "first_with p [] = None"
| "first_with p (x # xs) = (if p x then Some x else first_with p xs)"

lemma first_with_None [simp]: "first_with p xs = None \<longleftrightarrow> (\<forall>x\<in>set xs. \<not> p x)"
  by (induction xs) auto

lemma first_with_Some: "first_with p xs = Some x \<Longrightarrow> x \<in> set xs \<and> p x"
  by (induction xs) (auto split: if_splits)

lemma first_with_filter: "first_with p xs = (case filter p xs of [] \<Rightarrow> None | x # _ \<Rightarrow> Some x)"
  by (induction xs) auto

lemma first_with_append: "first_with p xs = Some x \<Longrightarrow> first_with p (xs @ ys) = Some x"
  by (induction xs) (auto split: if_splits)

lemma first_with_key_distinct:
  "distinct (map f xs) \<Longrightarrow> x \<in> set xs \<Longrightarrow> first_with (\<lambda>y. f y = f x) xs = Some x"
  by (induction xs) (auto simp: rev_image_eqI)

section \<open>Integers of 64 bits\<close>

definition int64 :: "int \<Rightarrow> int" where
  "int64 x = (x + 2 ^ 63) mod 2 ^ 64 - 2 ^ 63"

definition is_int64 :: "int \<Rightarrow> bool" where
  "is_int64 x \<longleftrightarrow> - (2 ^ 63) \<le> x \<and> x < 2 ^ 63"

lemma int64_id [simp]: "is_int64 x \<Longrightarrow> int64 x = x"
  by (simp add: int64_def is_int64_def)

lemma is_int64_int64 [simp]: "is_int64 (int64 x)"
  by (simp add: int64_def is_int64_def)

lemma int64_succ:
  assumes "is_int64 x"
  shows "int64 (x + 1) = (if x = 2 ^ 63 - 1 then - (2 ^ 63) else x + 1)"
  using assms by (auto simp: int64_def is_int64_def)

section \<open>Decimal numbers\<close>

definition digit_char :: "nat \<Rightarrow> char" where
  "digit_char n = char_of (48 + n)"

definition is_digit :: "char \<Rightarrow> bool" where
  "is_digit c \<longleftrightarrow> 48 \<le> byte c \<and> byte c \<le> 57"

definition digit_val :: "char \<Rightarrow> nat" where
  "digit_val c = byte c - 48"

fun decimal :: "nat \<Rightarrow> string" where
  "decimal n = (if n < 10 then [digit_char n] else decimal (n div 10) @ [digit_char (n mod 10)])"

declare decimal.simps [simp del]

definition decimal_val :: "string \<Rightarrow> nat" where
  "decimal_val s = foldl (\<lambda>a c. a * 10 + digit_val c) 0 s"

definition Itoa :: "int \<Rightarrow> string" where
  "Itoa i = (if i < 0 then CHR ''-'' # decimal (nat (- i)) else decimal (nat i))"

text \<open>\<^verbatim>\<open>strconv.Atoi\<close>: an optional sign, at least one digit, a value of 64 bits.\<close>

definition Atoi :: "string \<Rightarrow> int option" where
  "Atoi s =
     (let (neg, ds) = (case s of
            c # cs \<Rightarrow> if c = CHR ''-'' then (True, cs) else if c = CHR ''+'' then (False, cs) else (False, s)
          | [] \<Rightarrow> (False, []));
          v = (if neg then - int (decimal_val ds) else int (decimal_val ds))
      in if ds \<noteq> [] \<and> list_all is_digit ds \<and> is_int64 v then Some v else None)"

lemma byte_digit_char: "n < 10 \<Longrightarrow> byte (digit_char n) = 48 + n"
  by (simp add: digit_char_def)

lemma is_digit_digit_char: "n < 10 \<Longrightarrow> is_digit (digit_char n)"
  by (simp add: is_digit_def byte_digit_char)

lemma digit_val_digit_char: "n < 10 \<Longrightarrow> digit_val (digit_char n) = n"
  by (simp add: digit_val_def byte_digit_char)

lemma decimal_nonempty [simp]: "decimal n \<noteq> []"
  by (subst decimal.simps) simp

lemma decimal_digits: "list_all is_digit (decimal n)"
proof (induction n rule: decimal.induct)
  case (1 n)
  then show ?case by (simp add: decimal.simps [of n] is_digit_digit_char)
qed

lemma decimal_val_decimal [simp]: "decimal_val (decimal n) = n"
proof (induction n rule: decimal.induct)
  case (1 n)
  then show ?case
    by (simp add: decimal.simps [of n] decimal_val_def digit_val_digit_char)
qed

lemma decimal_inject [simp]: "decimal m = decimal n \<longleftrightarrow> m = n"
  using decimal_val_decimal by metis

lemma not_digit_sign: "\<not> is_digit CHR ''-''" "\<not> is_digit CHR ''+''"
  by (simp_all add: is_digit_def)

lemma decimal_hd_digit: "is_digit (hd (decimal n))"
  using decimal_digits [of n] decimal_nonempty [of n] by (cases "decimal n") auto

lemma decimal_Cons: "decimal n = c # cs \<Longrightarrow> c \<noteq> CHR ''-'' \<and> c \<noteq> CHR ''+''"
  using decimal_hd_digit [of n] not_digit_sign by auto

lemma Atoi_Itoa [simp]:
  assumes "is_int64 i"
  shows "Atoi (Itoa i) = Some i"
proof (cases "i < 0")
  case True
  with assms show ?thesis by (simp add: Atoi_def Itoa_def decimal_digits)
next
  case False
  obtain c cs where d: "decimal (nat i) = c # cs"
    by (cases "decimal (nat i)") auto
  have "list_all is_digit (c # cs)" "decimal_val (c # cs) = nat i"
    using decimal_digits [of "nat i"] decimal_val_decimal [of "nat i"] by (simp_all only: d)
  moreover have "c \<noteq> CHR ''-'' \<and> c \<noteq> CHR ''+''"
    using d by (rule decimal_Cons)
  ultimately show ?thesis
    using False assms by (simp add: Atoi_def Itoa_def d)
qed

lemma Itoa_inject: "is_int64 i \<Longrightarrow> is_int64 j \<Longrightarrow> Itoa i = Itoa j \<Longrightarrow> i = j"
  using Atoi_Itoa by (metis option.inject)

end
