(* ===== verification/Ledger.thy ===== *)
theory Ledger
  imports Omni_Prelude
begin

text \<open>
  The engineering ledger (\<^verbatim>\<open>internal/model/coding_ledger.go\<close>,
  \<^verbatim>\<open>coding_ledger_item.go\<close>): its data, the validators of items, tasks, ledgers and
  mutations, and the rendering of a task's instructions.

  A Go string type with named constants is a datatype with these constants and one constructor for
  every other text (the empty string has its own constructor where the code compares with it). A nil
  and an empty slice are one value here, the empty list; the only place of the modelled code that could
  tell them apart is \<^verbatim>\<open>reflect.DeepEqual\<close> in the duplicate check of a mutation.
  Error values keep the branch that produced them, not the formatted text.
\<close>

section \<open>Data\<close>

type_synonym LedgerItemID = string

datatype LedgerDisposition =
    LedgerDispositionActive
  | LedgerDispositionTombstoned
  | LedgerDispositionOther string

datatype LedgerReviewState =
    LedgerReviewNone
  | LedgerReviewProposed
  | LedgerReviewAgreed
  | LedgerReviewNeedsDiscussion
  | LedgerReviewOther string

record LedgerProvenance =
  prov_Kind :: string
  prov_Reference :: string
  prov_Revision :: int

record LedgerItem =
  item_ID :: LedgerItemID
  item_Provenance :: LedgerProvenance
  item_Rationale :: string
  item_Rank :: int
  item_Disposition :: LedgerDisposition
  item_ReviewState :: LedgerReviewState

record TaskContext =
  ctx_Text :: string
  ctx_Provenance :: LedgerProvenance

datatype TaskFileAction =
    TaskFileInspect
  | TaskFileChange
  | TaskFileCreate
  | TaskFileDelete
  | TaskFileActionOther string

record TaskFileResponsibility =
  resp_Path :: string
  resp_Action :: TaskFileAction
  resp_Responsibility :: string

record TaskAcceptance =
  acc_ID :: string
  acc_Text :: string
  acc_Verification :: "string list"

record LedgerTask =
  task_Item :: LedgerItem
  task_Goal :: string
  task_Objective :: string
  task_OwnerContext :: "TaskContext list"
  task_Constraints :: "string list"
  task_FileResponsibilities :: "TaskFileResponsibility list"
  task_Acceptance :: "TaskAcceptance list"
  task_ReadFiles :: "string list"
  task_WriteFiles :: "string list"
  task_DeleteFiles :: "string list"

record EngineeringLedger =
  led_ID :: string
  led_Revision :: int
  led_Tasks :: "LedgerTask list"

abbreviation task_ID :: "LedgerTask \<Rightarrow> LedgerItemID" where
  "task_ID t \<equiv> item_ID (task_Item t)"

abbreviation task_Rank :: "LedgerTask \<Rightarrow> int" where
  "task_Rank t \<equiv> item_Rank (task_Item t)"

abbreviation task_Disposition :: "LedgerTask \<Rightarrow> LedgerDisposition" where
  "task_Disposition t \<equiv> item_Disposition (task_Item t)"

abbreviation task_ReviewState :: "LedgerTask \<Rightarrow> LedgerReviewState" where
  "task_ReviewState t \<equiv> item_ReviewState (task_Item t)"

abbreviation task_active :: "LedgerTask \<Rightarrow> bool" where
  "task_active t \<equiv> task_Disposition t = LedgerDispositionActive"

datatype OwnerTurnDispositionKind =
    OwnerTurnRepresented
  | OwnerTurnOutOfScope
  | OwnerTurnOther string

record OwnerStatementDisposition =
  stmt_Kind :: OwnerTurnDispositionKind
  stmt_ItemIDs :: "LedgerItemID list"
  stmt_Reason :: string

record OwnerTurnDisposition =
  turn_Statements :: "OwnerStatementDisposition list"

datatype LedgerMutationKind =
    LedgerMutationAdd
  | LedgerMutationAmend
  | LedgerMutationRemove
  | LedgerMutationRestore
  | LedgerMutationReview
  | LedgerMutationReorder
  | LedgerMutationOther string

record LedgerMutationItem =
  mi_Task :: "LedgerTask option"

record LedgerMutationOperation =
  op_Kind :: LedgerMutationKind
  op_TargetID :: LedgerItemID
  op_Item :: "LedgerMutationItem option"
  op_ReviewState :: LedgerReviewState
  op_Rank :: "int option"
  op_Rationale :: string

record LedgerMutation =
  mut_OperationID :: string
  mut_BaseRevision :: int
  mut_OwnerTurnID :: string
  mut_OwnerTurnDisposition :: OwnerTurnDisposition
  mut_Operations :: "LedgerMutationOperation list"

datatype ledger_error =
    ItemIdentity
  | ItemProvenance LedgerItemID
  | ItemRank LedgerItemID
  | ItemReviewState LedgerItemID
  | ItemTombstonedReview LedgerItemID
  | ItemDisposition LedgerItemID
  | TaskFileInvalid LedgerItemID string string
  | TaskFileRepeated LedgerItemID string string
  | TaskFileReference
  | TaskPayloadRequired
  | TaskInstructions LedgerItemID
  | LedgerIdentity
  | LedgerDuplicateTask LedgerItemID
  | ItemReferencesRequired
  | ItemReferenceBlank
  | RepresentedForeignFields
  | OutOfScopeReason
  | OutOfScopeForeignFields
  | StatementKind
  | MutationIdentity
  | MutationDispositions
  | MutationOperations
  | MutationOutOfScopeOperations
  | MutationDuplicate
  | OperationItemRequired LedgerMutationKind
  | OperationForeignFields LedgerMutationKind
  | OperationTargetRequired
  | OperationPayload LedgerMutationKind ledger_error
  | AddNotProposed LedgerItemID
  | AmendIdentity LedgerItemID LedgerItemID
  | OperationOnlyTarget LedgerMutationKind
  | ReviewOperationFields
  | ReorderOperationFields
  | OperationUnknown LedgerMutationKind

section \<open>Rendering of instructions\<close>

definition action_text :: "TaskFileAction \<Rightarrow> string" where
  "action_text a = (case a of
      TaskFileInspect \<Rightarrow> ''inspect''
    | TaskFileChange \<Rightarrow> ''change''
    | TaskFileCreate \<Rightarrow> ''create''
    | TaskFileDelete \<Rightarrow> ''delete''
    | TaskFileActionOther s \<Rightarrow> s)"

abbreviation newline :: string where
  "newline \<equiv> [CHR 0x0A]"

definition context_text :: "TaskContext \<Rightarrow> string" where
  "context_text c = newline @ newline @ ''Owner context ('' @ prov_Kind (ctx_Provenance c) @ '' '' @
     prov_Reference (ctx_Provenance c) @ '' revision '' @ Itoa (prov_Revision (ctx_Provenance c)) @
     ''):'' @ newline @ ctx_Text c"

definition file_lines :: "string \<Rightarrow> string list \<Rightarrow> string" where
  "file_lines name files = concat (map (\<lambda>f. newline @ name @ '': '' @ f) files)"

definition responsibility_text :: "TaskFileResponsibility \<Rightarrow> string" where
  "responsibility_text r =
     newline @ action_text (resp_Action r) @ '' '' @ resp_Path r @ '': '' @ resp_Responsibility r"

definition acceptance_text :: "TaskAcceptance \<Rightarrow> string" where
  "acceptance_text a =
     newline @ newline @ ''Acceptance '' @ acc_ID a @ '': '' @ acc_Text a @
     concat (map (\<lambda>check. newline @ ''Verify '' @ acc_ID a @ '': '' @ check) (acc_Verification a))"

definition Instructions :: "LedgerTask \<Rightarrow> string" where
  "Instructions t =
     task_Goal t @
     (if task_Objective t \<noteq> [] then newline @ newline @ ''Objective: '' @ task_Objective t else []) @
     concat (map context_text (task_OwnerContext t)) @
     concat (map (\<lambda>c. newline @ ''Constraint: '' @ c) (task_Constraints t)) @
     file_lines ''Inspect'' (task_ReadFiles t) @
     file_lines ''Change/create'' (task_WriteFiles t) @
     file_lines ''Delete'' (task_DeleteFiles t) @
     concat (map responsibility_text (task_FileResponsibilities t)) @
     concat (map acceptance_text (task_Acceptance t))"

section \<open>Validators\<close>

definition ValidateTaskFileReference :: "string \<Rightarrow> ledger_error option" where
  "ValidateTaskFileReference v =
     fail_if (blank v \<or> \<not> ValidString v \<or> ContainsAny v [CHR 0x00, CHR 0x0D, CHR 0x0A]) TaskFileReference"

fun validateFileGroup :: "LedgerItemID \<Rightarrow> string \<Rightarrow> string list \<Rightarrow> string list \<Rightarrow> ledger_error option" where
  \<comment> \<open>the inner loop of \<^verbatim>\<open>validateLedgerTaskFiles\<close>; \<open>seen\<close> is its map\<close>
  "validateFileGroup tid name seen [] = None"
| "validateFileGroup tid name seen (f # fs) =
     (if ValidateTaskFileReference f \<noteq> None then Some (TaskFileInvalid tid name f)
      else if f \<in> set seen then Some (TaskFileRepeated tid name f)
      else validateFileGroup tid name (f # seen) fs)"

definition validateLedgerTaskFiles :: "LedgerTask \<Rightarrow> ledger_error option" where
  "validateLedgerTaskFiles t =
     first_err (\<lambda>(name, files). validateFileGroup (task_ID t) name [] files)
       [(''read'', task_ReadFiles t), (''write'', task_WriteFiles t), (''delete'', task_DeleteFiles t)]"

definition LedgerItem_Validate :: "LedgerItem \<Rightarrow> ledger_error option" where
  "LedgerItem_Validate i =
     or_else (fail_if (blank (item_ID i)) ItemIdentity)
    (or_else (fail_if (blank (prov_Kind (item_Provenance i)) \<or> blank (prov_Reference (item_Provenance i)) \<or>
                       prov_Revision (item_Provenance i) < 0) (ItemProvenance (item_ID i)))
    (or_else (fail_if (item_Rank i < 0) (ItemRank (item_ID i)))
     (case item_Disposition i of
        LedgerDispositionActive \<Rightarrow>
          fail_if (item_ReviewState i \<notin> {LedgerReviewProposed, LedgerReviewAgreed, LedgerReviewNeedsDiscussion})
            (ItemReviewState (item_ID i))
      | LedgerDispositionTombstoned \<Rightarrow>
          fail_if (item_ReviewState i \<noteq> LedgerReviewNone) (ItemTombstonedReview (item_ID i))
      | LedgerDispositionOther _ \<Rightarrow> Some (ItemDisposition (item_ID i)))))"

definition LedgerMutationItem_validate :: "LedgerMutationItem \<Rightarrow> ledger_error + LedgerItemID" where
  "LedgerMutationItem_validate item =
     (case mi_Task item of
        None \<Rightarrow> Inl TaskPayloadRequired
      | Some t \<Rightarrow>
          check_res (LedgerItem_Validate (task_Item t))
         (check_res (fail_if (blank (task_Goal t)) (TaskInstructions (task_ID t)))
         (check_res (validateLedgerTaskFiles t)
          (Inr (task_ID t)))))"

definition task_Validate :: "LedgerTask \<Rightarrow> ledger_error option" where
  \<comment> \<open>\<^verbatim>\<open>if _, err := (LedgerMutationItem{Task: &task}).validate(); err != nil\<close>\<close>
  "task_Validate t =
     (case LedgerMutationItem_validate \<lparr>mi_Task = Some t\<rparr> of Inl e \<Rightarrow> Some e | Inr _ \<Rightarrow> None)"

fun validateTasks :: "LedgerItemID list \<Rightarrow> LedgerTask list \<Rightarrow> ledger_error option" where
  \<comment> \<open>the loop of \<^verbatim>\<open>EngineeringLedger.Validate\<close>\<close>
  "validateTasks seen [] = None"
| "validateTasks seen (t # ts) =
     (if task_ID t \<in> set seen then Some (LedgerDuplicateTask (task_ID t))
      else or_else (task_Validate t) (validateTasks (task_ID t # seen) ts))"

definition EngineeringLedger_Validate :: "EngineeringLedger \<Rightarrow> ledger_error option" where
  "EngineeringLedger_Validate l =
     or_else (fail_if (blank (led_ID l) \<or> led_Revision l < 0) LedgerIdentity)
       (validateTasks [] (led_Tasks l))"

definition ValidateDraft :: "EngineeringLedger \<Rightarrow> ledger_error option" where
  "ValidateDraft l = EngineeringLedger_Validate l"

definition RepresentedOwnerTurn :: "LedgerItemID list \<Rightarrow> OwnerTurnDisposition" where
  "RepresentedOwnerTurn ids =
     \<lparr>turn_Statements = [\<lparr>stmt_Kind = OwnerTurnRepresented, stmt_ItemIDs = ids, stmt_Reason = []\<rparr>]\<rparr>"

definition OutOfScopeOwnerTurn :: "string \<Rightarrow> OwnerTurnDisposition" where
  "OutOfScopeOwnerTurn reason =
     \<lparr>turn_Statements = [\<lparr>stmt_Kind = OwnerTurnOutOfScope, stmt_ItemIDs = [], stmt_Reason = reason\<rparr>]\<rparr>"

definition validateLedgerItemIDs :: "LedgerItemID list \<Rightarrow> ledger_error option" where
  "validateLedgerItemIDs ids =
     or_else (fail_if (ids = []) ItemReferencesRequired)
       (first_err (\<lambda>i. fail_if (blank i) ItemReferenceBlank) ids)"

definition OwnerStatementDisposition_Validate :: "OwnerStatementDisposition \<Rightarrow> ledger_error option" where
  "OwnerStatementDisposition_Validate d =
     (case stmt_Kind d of
        OwnerTurnRepresented \<Rightarrow>
          or_else (validateLedgerItemIDs (stmt_ItemIDs d))
            (fail_if (stmt_Reason d \<noteq> []) RepresentedForeignFields)
      | OwnerTurnOutOfScope \<Rightarrow>
          or_else (fail_if (blank (stmt_Reason d)) OutOfScopeReason)
            (fail_if (stmt_ItemIDs d \<noteq> []) OutOfScopeForeignFields)
      | OwnerTurnOther _ \<Rightarrow> Some StatementKind)"

definition LedgerMutationItem_count :: "LedgerMutationItem \<Rightarrow> nat" where
  "LedgerMutationItem_count item = (case mi_Task item of Some _ \<Rightarrow> 1 | None \<Rightarrow> 0)"

definition LedgerMutationItem_Base :: "LedgerMutationItem \<Rightarrow> LedgerItem option" where
  "LedgerMutationItem_Base item = map_option task_Item (mi_Task item)"

definition LedgerItem_zero :: LedgerItem where
  "LedgerItem_zero =
     \<lparr>item_ID = [], item_Provenance = \<lparr>prov_Kind = [], prov_Reference = [], prov_Revision = 0\<rparr>,
      item_Rationale = [], item_Rank = 0, item_Disposition = LedgerDispositionOther [],
      item_ReviewState = LedgerReviewNone\<rparr>"

definition LedgerMutationItem_ledgerItem :: "LedgerMutationItem \<Rightarrow> LedgerItem" where
  "LedgerMutationItem_ledgerItem item =
     (case LedgerMutationItem_Base item of Some base \<Rightarrow> base | None \<Rightarrow> LedgerItem_zero)"

definition validatePayload :: "LedgerMutationOperation \<Rightarrow> LedgerMutationItem \<Rightarrow> ledger_error option" where
  \<comment> \<open>the payload checks of an add or amend operation\<close>
  "validatePayload op item =
     (case LedgerMutationItem_validate item of
        Inl e \<Rightarrow> Some (OperationPayload (op_Kind op) e)
      | Inr payloadID \<Rightarrow>
          or_else
            (fail_if (op_Kind op = LedgerMutationAdd \<and>
                (item_Disposition (LedgerMutationItem_ledgerItem item) \<noteq> LedgerDispositionActive \<or>
                 item_ReviewState (LedgerMutationItem_ledgerItem item) \<noteq> LedgerReviewProposed))
              (AddNotProposed payloadID))
            (fail_if (op_Kind op = LedgerMutationAmend \<and> payloadID \<noteq> op_TargetID op)
              (AmendIdentity payloadID (op_TargetID op))))"

definition validateOperation :: "LedgerMutationOperation \<Rightarrow> ledger_error option" where
  \<comment> \<open>the \<^verbatim>\<open>switch operation.Kind\<close> of \<^verbatim>\<open>LedgerMutation.Validate\<close>\<close>
  "validateOperation op =
     (let targetValid = (\<not> blank (op_TargetID op)) in
      case op_Kind op of
        LedgerMutationOther _ \<Rightarrow> Some (OperationUnknown (op_Kind op))
      | LedgerMutationReorder \<Rightarrow>
          fail_if (\<not> targetValid \<or> op_Item op \<noteq> None \<or> op_ReviewState op \<noteq> LedgerReviewNone \<or>
                   (case op_Rank op of None \<Rightarrow> True | Some r \<Rightarrow> r < 0)) ReorderOperationFields
      | LedgerMutationReview \<Rightarrow>
          fail_if (\<not> targetValid \<or> op_Item op \<noteq> None \<or> op_Rank op \<noteq> None \<or>
                   op_ReviewState op \<notin> {LedgerReviewProposed, LedgerReviewAgreed, LedgerReviewNeedsDiscussion})
            ReviewOperationFields
      | LedgerMutationRemove \<Rightarrow>
          fail_if (\<not> targetValid \<or> op_Item op \<noteq> None \<or> op_ReviewState op \<noteq> LedgerReviewNone \<or> op_Rank op \<noteq> None)
            (OperationOnlyTarget (op_Kind op))
      | LedgerMutationRestore \<Rightarrow>
          fail_if (\<not> targetValid \<or> op_Item op \<noteq> None \<or> op_ReviewState op \<noteq> LedgerReviewNone \<or> op_Rank op \<noteq> None)
            (OperationOnlyTarget (op_Kind op))
      | _ \<Rightarrow>
          (case op_Item op of
             None \<Rightarrow> Some (OperationItemRequired (op_Kind op))
           | Some item \<Rightarrow>
               or_else (fail_if (LedgerMutationItem_count item \<noteq> 1) (OperationItemRequired (op_Kind op)))
              (or_else (fail_if (op_ReviewState op \<noteq> LedgerReviewNone \<or> op_Rank op \<noteq> None)
                         (OperationForeignFields (op_Kind op)))
              (or_else (fail_if (op_Kind op = LedgerMutationAdd \<and> op_TargetID op \<noteq> [])
                         (OperationForeignFields (op_Kind op)))
              (or_else (fail_if (op_Kind op = LedgerMutationAmend \<and> \<not> targetValid) OperationTargetRequired)
                (validatePayload op item))))))"

fun validateOperations :: "LedgerMutationOperation list \<Rightarrow> LedgerMutationOperation list \<Rightarrow> ledger_error option" where
  \<comment> \<open>the loop over the operations; \<open>seen\<close> is \<^verbatim>\<open>seenOperations\<close>\<close>
  "validateOperations seen [] = None"
| "validateOperations seen (op # ops) =
     (if op \<in> set seen then Some MutationDuplicate
      else or_else (validateOperation op) (validateOperations (seen @ [op]) ops))"

definition LedgerMutation_Validate :: "LedgerMutation \<Rightarrow> ledger_error option" where
  "LedgerMutation_Validate m =
     (let statements = turn_Statements (mut_OwnerTurnDisposition m) in
      or_else (fail_if (blank (mut_OperationID m) \<or> mut_BaseRevision m < 0 \<or> blank (mut_OwnerTurnID m)) MutationIdentity)
     (or_else (fail_if (statements = []) MutationDispositions)
     (or_else (fail_if (mut_Operations m = [] \<and> (\<exists>s\<in>set statements. stmt_Kind s \<noteq> OwnerTurnOutOfScope))
                MutationOperations)
     (or_else (first_err (\<lambda>s. or_else (OwnerStatementDisposition_Validate s)
                  (fail_if (stmt_Kind s = OwnerTurnOutOfScope \<and> length statements = 1 \<and> mut_Operations m \<noteq> [])
                    MutationOutOfScopeOperations)) statements)
       (validateOperations [] (mut_Operations m))))))"

section \<open>What the validators accept\<close>

text \<open>The declarative well-formedness that the validators decide.\<close>

definition file_ok :: "string \<Rightarrow> bool" where
  "file_ok f \<longleftrightarrow> \<not> blank f \<and> ValidString f \<and> set f \<inter> {CHR 0x00, CHR 0x0D, CHR 0x0A} = {}"

definition files_ok :: "string list \<Rightarrow> bool" where
  "files_ok fs \<longleftrightarrow> distinct fs \<and> (\<forall>f\<in>set fs. file_ok f)"

definition review_set :: "LedgerReviewState set" where
  "review_set = {LedgerReviewProposed, LedgerReviewAgreed, LedgerReviewNeedsDiscussion}"

definition item_ok :: "LedgerItem \<Rightarrow> bool" where
  "item_ok i \<longleftrightarrow>
     \<not> blank (item_ID i) \<and> \<not> blank (prov_Kind (item_Provenance i)) \<and>
     \<not> blank (prov_Reference (item_Provenance i)) \<and> 0 \<le> prov_Revision (item_Provenance i) \<and>
     0 \<le> item_Rank i \<and>
     (item_Disposition i = LedgerDispositionActive \<and> item_ReviewState i \<in> review_set \<or>
      item_Disposition i = LedgerDispositionTombstoned \<and> item_ReviewState i = LedgerReviewNone)"

definition task_ok :: "LedgerTask \<Rightarrow> bool" where
  "task_ok t \<longleftrightarrow> item_ok (task_Item t) \<and> \<not> blank (task_Goal t) \<and>
     files_ok (task_ReadFiles t) \<and> files_ok (task_WriteFiles t) \<and> files_ok (task_DeleteFiles t)"

definition ledger_ok :: "EngineeringLedger \<Rightarrow> bool" where
  "ledger_ok l \<longleftrightarrow> \<not> blank (led_ID l) \<and> 0 \<le> led_Revision l \<and>
     distinct (map task_ID (led_Tasks l)) \<and> (\<forall>t\<in>set (led_Tasks l). task_ok t)"

definition statement_ok :: "OwnerStatementDisposition \<Rightarrow> bool" where
  "statement_ok d \<longleftrightarrow>
     stmt_Kind d = OwnerTurnRepresented \<and> stmt_ItemIDs d \<noteq> [] \<and>
       (\<forall>i\<in>set (stmt_ItemIDs d). \<not> blank i) \<and> stmt_Reason d = [] \<or>
     stmt_Kind d = OwnerTurnOutOfScope \<and> \<not> blank (stmt_Reason d) \<and> stmt_ItemIDs d = []"

definition operation_ok :: "LedgerMutationOperation \<Rightarrow> bool" where
  "operation_ok op \<longleftrightarrow> (case op_Kind op of
      LedgerMutationAdd \<Rightarrow> op_TargetID op = [] \<and> op_ReviewState op = LedgerReviewNone \<and> op_Rank op = None \<and>
        (\<exists>t. op_Item op = Some \<lparr>mi_Task = Some t\<rparr> \<and> task_ok t \<and> task_active t \<and>
             task_ReviewState t = LedgerReviewProposed)
    | LedgerMutationAmend \<Rightarrow> \<not> blank (op_TargetID op) \<and> op_ReviewState op = LedgerReviewNone \<and> op_Rank op = None \<and>
        (\<exists>t. op_Item op = Some \<lparr>mi_Task = Some t\<rparr> \<and> task_ok t \<and> task_ID t = op_TargetID op)
    | LedgerMutationRemove \<Rightarrow> \<not> blank (op_TargetID op) \<and> op_Item op = None \<and>
        op_ReviewState op = LedgerReviewNone \<and> op_Rank op = None
    | LedgerMutationRestore \<Rightarrow> \<not> blank (op_TargetID op) \<and> op_Item op = None \<and>
        op_ReviewState op = LedgerReviewNone \<and> op_Rank op = None
    | LedgerMutationReview \<Rightarrow> \<not> blank (op_TargetID op) \<and> op_Item op = None \<and> op_Rank op = None \<and>
        op_ReviewState op \<in> review_set
    | LedgerMutationReorder \<Rightarrow> \<not> blank (op_TargetID op) \<and> op_Item op = None \<and>
        op_ReviewState op = LedgerReviewNone \<and> (\<exists>r\<ge>0. op_Rank op = Some r)
    | LedgerMutationOther _ \<Rightarrow> False)"

definition mutation_ok :: "LedgerMutation \<Rightarrow> bool" where
  "mutation_ok m \<longleftrightarrow>
     (let statements = turn_Statements (mut_OwnerTurnDisposition m) in
      \<not> blank (mut_OperationID m) \<and> 0 \<le> mut_BaseRevision m \<and> \<not> blank (mut_OwnerTurnID m) \<and>
      statements \<noteq> [] \<and> (\<forall>d\<in>set statements. statement_ok d) \<and>
      (mut_Operations m = [] \<longrightarrow> (\<forall>d\<in>set statements. stmt_Kind d = OwnerTurnOutOfScope)) \<and>
      (mut_Operations m \<noteq> [] \<longrightarrow> \<not> (\<exists>d. statements = [d] \<and> stmt_Kind d = OwnerTurnOutOfScope)) \<and>
      distinct (mut_Operations m) \<and> (\<forall>op\<in>set (mut_Operations m). operation_ok op))"

lemma ValidateTaskFileReference_None [err_simps, simp]:
  "ValidateTaskFileReference f = None \<longleftrightarrow> file_ok f"
  by (auto simp: ValidateTaskFileReference_def file_ok_def ContainsAny_def)

lemma validateFileGroup_None:
  "validateFileGroup tid name seen fs = None \<longleftrightarrow>
     distinct fs \<and> set fs \<inter> set seen = {} \<and> (\<forall>f\<in>set fs. file_ok f)"
  by (induction fs arbitrary: seen) (auto simp del: not_None_eq)

lemma validateLedgerTaskFiles_None [err_simps]:
  "validateLedgerTaskFiles t = None \<longleftrightarrow>
     files_ok (task_ReadFiles t) \<and> files_ok (task_WriteFiles t) \<and> files_ok (task_DeleteFiles t)"
  by (simp add: validateLedgerTaskFiles_def validateFileGroup_None files_ok_def)

lemma LedgerItem_Validate_None [err_simps]: "LedgerItem_Validate i = None \<longleftrightarrow> item_ok i"
  by (auto simp: LedgerItem_Validate_def item_ok_def review_set_def split: LedgerDisposition.splits)

lemma LedgerMutationItem_validate_Inr:
  "LedgerMutationItem_validate item = Inr pid \<longleftrightarrow> (\<exists>t. mi_Task item = Some t \<and> task_ok t \<and> pid = task_ID t)"
  by (auto simp: LedgerMutationItem_validate_def task_ok_def err_simps split: option.splits)

lemma task_Validate_None [err_simps, simp]: "task_Validate t = None \<longleftrightarrow> task_ok t"
  by (auto simp: task_Validate_def LedgerMutationItem_validate_Inr split: sum.splits)
     (metis LedgerMutationItem.select_convs(1) LedgerMutationItem_validate_Inr sum.distinct(1))

lemma validateTasks_None:
  "validateTasks seen ts = None \<longleftrightarrow>
     distinct (map task_ID ts) \<and> task_ID ` set ts \<inter> set seen = {} \<and> (\<forall>t\<in>set ts. task_ok t)"
  by (induction ts arbitrary: seen) auto

lemma EngineeringLedger_Validate_None [err_simps]: "EngineeringLedger_Validate l = None \<longleftrightarrow> ledger_ok l"
  by (auto simp: EngineeringLedger_Validate_def ledger_ok_def validateTasks_None)

lemma ValidateDraft_None [err_simps]: "ValidateDraft l = None \<longleftrightarrow> ledger_ok l"
  by (simp add: ValidateDraft_def EngineeringLedger_Validate_None)

lemma OwnerStatementDisposition_Validate_None [err_simps]:
  "OwnerStatementDisposition_Validate d = None \<longleftrightarrow> statement_ok d"
  by (auto simp: OwnerStatementDisposition_Validate_def statement_ok_def validateLedgerItemIDs_def
      split: OwnerTurnDispositionKind.splits)

lemma validatePayload_None:
  assumes "op_Item op = Some item" "op_Kind op = LedgerMutationAdd \<or> op_Kind op = LedgerMutationAmend"
  shows "validatePayload op item = None \<longleftrightarrow>
    (\<exists>t. item = \<lparr>mi_Task = Some t\<rparr> \<and> task_ok t \<and>
      (op_Kind op = LedgerMutationAdd \<longrightarrow> task_active t \<and> task_ReviewState t = LedgerReviewProposed) \<and>
      (op_Kind op = LedgerMutationAmend \<longrightarrow> task_ID t = op_TargetID op))"
proof (cases "LedgerMutationItem_validate item")
  case (Inl e)
  then have "\<nexists>t. mi_Task item = Some t \<and> task_ok t"
    using LedgerMutationItem_validate_Inr [of item] by fastforce
  with Inl show ?thesis by (auto simp: validatePayload_def)
next
  case (Inr pid)
  then obtain t where t: "mi_Task item = Some t" "task_ok t" "pid = task_ID t"
    by (auto simp: LedgerMutationItem_validate_Inr)
  then have item: "item = \<lparr>mi_Task = Some t\<rparr>" by (cases item) simp
  with Inr t assms show ?thesis
    by (auto simp: validatePayload_def LedgerMutationItem_ledgerItem_def LedgerMutationItem_Base_def)
qed

lemma LedgerMutationItem_count_1 [simp]:
  "LedgerMutationItem_count item = Suc 0 \<longleftrightarrow> (\<exists>t. item = \<lparr>mi_Task = Some t\<rparr>)"
  by (cases item) (auto simp: LedgerMutationItem_count_def split: option.splits)

lemma validateOperation_None [err_simps]: "validateOperation op = None \<longleftrightarrow> operation_ok op"
proof (cases "op_Kind op")
  case LedgerMutationAdd
  then show ?thesis
    by (auto simp: validateOperation_def operation_ok_def Let_def validatePayload_None split: option.splits)
next
  case LedgerMutationAmend
  then show ?thesis
    by (auto simp: validateOperation_def operation_ok_def Let_def validatePayload_None split: option.splits)
qed (auto simp: validateOperation_def operation_ok_def Let_def review_set_def split: option.splits)

lemma validateOperations_None:
  "validateOperations seen ops = None \<longleftrightarrow>
     distinct ops \<and> set ops \<inter> set seen = {} \<and> (\<forall>op\<in>set ops. operation_ok op)"
  by (induction ops arbitrary: seen) (auto simp: validateOperation_None)

lemma LedgerMutation_Validate_None [err_simps]: "LedgerMutation_Validate m = None \<longleftrightarrow> mutation_ok m"
  by (cases "turn_Statements (mut_OwnerTurnDisposition m)" rule: remdups_adj.cases)
     (auto simp: LedgerMutation_Validate_def mutation_ok_def Let_def validateOperations_None
      OwnerStatementDisposition_Validate_None)

end
