(* ===== verification/Revisioned_Store.thy ===== *)
theory Revisioned_Store
  imports Omni_Prelude
begin

text \<open>
  The contract of a store under optimistic concurrency, as the ledger of a coding job is one: a mutation
  names the revision it was made against, is refused when that is not the store's revision, and raises the
  revision by one when it is applied. The lemmas are what a client that submits mutations may rely on.
\<close>

primrec apply_all :: "('s \<Rightarrow> 'm \<Rightarrow> 'e + 's) \<Rightarrow> 's \<Rightarrow> 'm list \<Rightarrow> 'e + 's" where
  "apply_all f s [] = Inr s"
| "apply_all f s (m # ms) = bind_res (f s m) (\<lambda>s'. apply_all f s' ms)"

locale revisioned_store =
  fixes step :: "'s \<Rightarrow> 'm \<Rightarrow> 'e + 's"
    and rev_of :: "'s \<Rightarrow> int"
    and base_of :: "'m \<Rightarrow> int"
    and valid :: "'s \<Rightarrow> bool"
  assumes step_base: "step s m = Inr s' \<Longrightarrow> base_of m = rev_of s"
    and step_rev: "valid s \<Longrightarrow> step s m = Inr s' \<Longrightarrow> rev_of s' = rev_of s + 1"
    and step_valid: "valid s \<Longrightarrow> step s m = Inr s' \<Longrightarrow> valid s'"
begin

lemma stale_rejected: "base_of m \<noteq> rev_of s \<Longrightarrow> \<exists>e. step s m = Inl e"
  using step_base [of s m] by (cases "step s m") auto

lemma no_lost_update:
  assumes "valid s" "step s m = Inr s'" "base_of m' = base_of m"
  shows "\<exists>e. step s' m' = Inl e"
  using assms step_base [of s m s'] step_rev [of s m s'] by (intro stale_rejected) simp

lemma run_revisions:
  "valid s \<Longrightarrow> apply_all step s ms = Inr s' \<Longrightarrow>
   valid s' \<and> rev_of s' = rev_of s + int (length ms) \<and>
   (\<forall>k<length ms. base_of (ms ! k) = rev_of s + int k)"
proof (induction ms arbitrary: s)
  case (Cons m ms)
  then obtain s1 where s1: "step s m = Inr s1" "apply_all step s1 ms = Inr s'"
    by auto
  note facts = step_base [OF s1(1)] step_rev [OF Cons.prems(1) s1(1)] step_valid [OF Cons.prems(1) s1(1)]
  show ?case
    using Cons.IH [OF facts(3) s1(2)] facts by (auto simp: less_Suc_eq_0_disj)
qed simp

lemma run_once:
  assumes "valid s" "apply_all step s ms = Inr s'"
  shows "distinct (map base_of ms)"
  using run_revisions [OF assms] by (auto simp: distinct_conv_nth)

end

end
