(* ===== verification/Planning_Apply.thy ===== *)
theory Planning_Apply
  imports Ledger Revisioned_Store
begin

text \<open>
  Application of a ledger mutation (\<^verbatim>\<open>ApplyPlanningMutation\<close> and the operations under it in
  \<^verbatim>\<open>internal/codingagent/planning_mutation.go\<close>, \<^verbatim>\<open>ValidateLedgerMutation\<close> in
  \<^verbatim>\<open>ledger_contracts.go\<close>).

  The functions that take \<^verbatim>\<open>*EngineeringLedger\<close> and change it return the changed ledger;
  the pointers of \<^verbatim>\<open>planningItemPointers\<close> become an update of the first task with the
  identity. The deep copy of the ledger by \<^verbatim>\<open>json.Marshal\<close> and
  \<^verbatim>\<open>json.Unmarshal\<close> is \<open>json_copy_ledger\<close>: it keeps every field and coerces the strings to
  valid UTF-8.
\<close>

datatype planning_error =
    LedgerError ledger_error
  | StaleRevision int int
  | MutationResult ledger_error
  | AmendInactive LedgerItemID
  | AmendMissing LedgerItemID
  | RemoveInactive LedgerItemID
  | RestoreNotRemoved LedgerItemID
  | ReviewRemoved LedgerItemID
  | UnsupportedMutation LedgerMutationKind
  | MissingTask LedgerItemID
  | NilRank

section \<open>The deep copy\<close>

definition json_copy_provenance :: "LedgerProvenance \<Rightarrow> LedgerProvenance" where
  "json_copy_provenance p =
     p\<lparr>prov_Kind := coerce_utf8 (prov_Kind p), prov_Reference := coerce_utf8 (prov_Reference p)\<rparr>"

definition json_copy_item :: "LedgerItem \<Rightarrow> LedgerItem" where
  "json_copy_item i =
     i\<lparr>item_ID := coerce_utf8 (item_ID i),
       item_Provenance := json_copy_provenance (item_Provenance i),
       item_Rationale := coerce_utf8 (item_Rationale i),
       item_Disposition := (case item_Disposition i of
           LedgerDispositionOther s \<Rightarrow> LedgerDispositionOther (coerce_utf8 s) | d \<Rightarrow> d),
       item_ReviewState := (case item_ReviewState i of
           LedgerReviewOther s \<Rightarrow> LedgerReviewOther (coerce_utf8 s) | r \<Rightarrow> r)\<rparr>"

definition json_copy_context :: "TaskContext \<Rightarrow> TaskContext" where
  "json_copy_context c =
     c\<lparr>ctx_Text := coerce_utf8 (ctx_Text c), ctx_Provenance := json_copy_provenance (ctx_Provenance c)\<rparr>"

definition json_copy_responsibility :: "TaskFileResponsibility \<Rightarrow> TaskFileResponsibility" where
  "json_copy_responsibility r =
     r\<lparr>resp_Path := coerce_utf8 (resp_Path r),
       resp_Action := (case resp_Action r of
           TaskFileActionOther s \<Rightarrow> TaskFileActionOther (coerce_utf8 s) | a \<Rightarrow> a),
       resp_Responsibility := coerce_utf8 (resp_Responsibility r)\<rparr>"

definition json_copy_acceptance :: "TaskAcceptance \<Rightarrow> TaskAcceptance" where
  "json_copy_acceptance a =
     a\<lparr>acc_ID := coerce_utf8 (acc_ID a), acc_Text := coerce_utf8 (acc_Text a),
       acc_Verification := map coerce_utf8 (acc_Verification a)\<rparr>"

definition json_copy_task :: "LedgerTask \<Rightarrow> LedgerTask" where
  "json_copy_task t =
     \<lparr>task_Item = json_copy_item (task_Item t),
      task_Goal = coerce_utf8 (task_Goal t),
      task_Objective = coerce_utf8 (task_Objective t),
      task_OwnerContext = map json_copy_context (task_OwnerContext t),
      task_Constraints = map coerce_utf8 (task_Constraints t),
      task_FileResponsibilities = map json_copy_responsibility (task_FileResponsibilities t),
      task_Acceptance = map json_copy_acceptance (task_Acceptance t),
      task_ReadFiles = map coerce_utf8 (task_ReadFiles t),
      task_WriteFiles = map coerce_utf8 (task_WriteFiles t),
      task_DeleteFiles = map coerce_utf8 (task_DeleteFiles t)\<rparr>"

definition json_copy_ledger :: "EngineeringLedger \<Rightarrow> EngineeringLedger" where
  "json_copy_ledger l =
     \<lparr>led_ID = coerce_utf8 (led_ID l), led_Revision = led_Revision l,
      led_Tasks = map json_copy_task (led_Tasks l)\<rparr>"

section \<open>Operations\<close>

fun update_first :: "LedgerItemID \<Rightarrow> (LedgerItem \<Rightarrow> planning_error + LedgerItem) \<Rightarrow> LedgerTask list \<Rightarrow>
    planning_error + LedgerTask list" where
  \<comment> \<open>the loop of \<^verbatim>\<open>updatePlanningItem\<close>\<close>
  "update_first i upd [] = Inl (MissingTask i)"
| "update_first i upd (t # ts) =
     (if task_ID t = i
      then bind_res (upd (task_Item t)) (\<lambda>item. Inr (t\<lparr>task_Item := item\<rparr> # ts))
      else bind_res (update_first i upd ts) (\<lambda>ts'. Inr (t # ts')))"

definition updatePlanningItem ::
    "EngineeringLedger \<Rightarrow> LedgerItemID \<Rightarrow> (LedgerItem \<Rightarrow> planning_error + LedgerItem) \<Rightarrow>
      planning_error + EngineeringLedger" where
  "updatePlanningItem l i upd =
     bind_res (update_first i upd (led_Tasks l)) (\<lambda>ts. Inr (l\<lparr>led_Tasks := ts\<rparr>))"

definition propose_if_active :: "LedgerItem \<Rightarrow> LedgerItem" where
  "propose_if_active item =
     (if item_Disposition item = LedgerDispositionActive
      then item\<lparr>item_ReviewState := LedgerReviewProposed\<rparr> else item)"

definition resetPlanningAgreements :: "EngineeringLedger \<Rightarrow> LedgerItemID \<Rightarrow> EngineeringLedger" where
  "resetPlanningAgreements l i =
     (case updatePlanningItem l i (\<lambda>item. Inr (propose_if_active item)) of Inl _ \<Rightarrow> l | Inr l' \<Rightarrow> l')"

definition planningMutationItemID :: "LedgerMutationItem option \<Rightarrow> LedgerItemID" where
  "planningMutationItemID item =
     (case item of Some it \<Rightarrow> (case mi_Task it of Some t \<Rightarrow> task_ID t | None \<Rightarrow> []) | None \<Rightarrow> [])"

definition appendPlanningItem :: "EngineeringLedger \<Rightarrow> LedgerMutationItem option \<Rightarrow> EngineeringLedger" where
  "appendPlanningItem l item =
     (case item of
        Some it \<Rightarrow> (case mi_Task it of Some t \<Rightarrow> l\<lparr>led_Tasks := led_Tasks l @ [t]\<rparr> | None \<Rightarrow> l)
      | None \<Rightarrow> l)"

fun replace_first :: "LedgerItemID \<Rightarrow> LedgerTask \<Rightarrow> LedgerTask list \<Rightarrow> LedgerTask list option" where
  "replace_first i t [] = None"
| "replace_first i t (u # us) = (if task_ID u = i then Some (t # us) else map_option ((#) u) (replace_first i t us))"

definition replacePlanningItem ::
    "EngineeringLedger \<Rightarrow> LedgerItemID \<Rightarrow> LedgerMutationItem option \<Rightarrow> EngineeringLedger option" where
  \<comment> \<open>\<open>None\<close> is the result \<^verbatim>\<open>false\<close>\<close>
  "replacePlanningItem l i item =
     (case item of
        Some it \<Rightarrow> (case mi_Task it of
            Some t \<Rightarrow> map_option (\<lambda>ts. l\<lparr>led_Tasks := ts\<rparr>) (replace_first i t (led_Tasks l))
          | None \<Rightarrow> None)
      | None \<Rightarrow> None)"

definition removePlanningItem :: "LedgerItem \<Rightarrow> planning_error + LedgerItem" where
  "removePlanningItem item =
     (if item_Disposition item \<noteq> LedgerDispositionActive then Inl (RemoveInactive (item_ID item))
      else Inr (item\<lparr>item_Disposition := LedgerDispositionTombstoned, item_ReviewState := LedgerReviewNone\<rparr>))"

definition restorePlanningItem :: "LedgerItem \<Rightarrow> planning_error + LedgerItem" where
  "restorePlanningItem item =
     (if item_Disposition item = LedgerDispositionActive then Inr item
      else if item_Disposition item \<noteq> LedgerDispositionTombstoned then Inl (RestoreNotRemoved (item_ID item))
      else Inr (item\<lparr>item_Disposition := LedgerDispositionActive, item_ReviewState := LedgerReviewProposed\<rparr>))"

definition wasRemoved :: "EngineeringLedger \<Rightarrow> LedgerItemID \<Rightarrow> bool" where
  "wasRemoved l i =
     (case first_with (\<lambda>t. task_ID t = i) (led_Tasks l) of
        Some t \<Rightarrow> \<not> task_active t | None \<Rightarrow> False)"

definition applyPlanningOperation ::
    "EngineeringLedger \<Rightarrow> LedgerMutationOperation \<Rightarrow> planning_error + EngineeringLedger" where
  "applyPlanningOperation l op =
     (case op_Kind op of
        LedgerMutationAdd \<Rightarrow>
          Inr (resetPlanningAgreements (appendPlanningItem l (op_Item op)) (planningMutationItemID (op_Item op)))
      | LedgerMutationAmend \<Rightarrow>
          bind_res
            (updatePlanningItem l (op_TargetID op) (\<lambda>item.
               if item_Disposition item \<noteq> LedgerDispositionActive then Inl (AmendInactive (op_TargetID op)) else Inr item))
            (\<lambda>l1.
              (case replacePlanningItem (resetPlanningAgreements l1 (op_TargetID op)) (op_TargetID op) (op_Item op) of
                 None \<Rightarrow> Inl (AmendMissing (op_TargetID op))
               | Some l2 \<Rightarrow>
                   updatePlanningItem (resetPlanningAgreements l2 (op_TargetID op)) (op_TargetID op)
                     (\<lambda>item. Inr (propose_if_active item))))
      | LedgerMutationRemove \<Rightarrow>
          updatePlanningItem (resetPlanningAgreements l (op_TargetID op)) (op_TargetID op) removePlanningItem
      | LedgerMutationRestore \<Rightarrow>
          bind_res (updatePlanningItem l (op_TargetID op) restorePlanningItem)
            (\<lambda>l1. Inr (if wasRemoved l (op_TargetID op) then resetPlanningAgreements l1 (op_TargetID op) else l1))
      | LedgerMutationReview \<Rightarrow>
          updatePlanningItem l (op_TargetID op) (\<lambda>item.
            if item_Disposition item \<noteq> LedgerDispositionActive then Inl (ReviewRemoved (item_ID item))
            else Inr (item\<lparr>item_ReviewState := op_ReviewState op\<rparr>))
      | LedgerMutationReorder \<Rightarrow>
          updatePlanningItem l (op_TargetID op) (\<lambda>item.
            case op_Rank op of None \<Rightarrow> Inl NilRank | Some r \<Rightarrow> Inr (item\<lparr>item_Rank := r\<rparr>))
      | LedgerMutationOther _ \<Rightarrow> Inl (UnsupportedMutation (op_Kind op)))"

fun applyPlanningOperations ::
    "EngineeringLedger \<Rightarrow> LedgerMutationOperation list \<Rightarrow> planning_error + EngineeringLedger" where
  "applyPlanningOperations l [] = Inr l"
| "applyPlanningOperations l (op # ops) =
     bind_res (applyPlanningOperation l op) (\<lambda>l'. applyPlanningOperations l' ops)"

definition ValidateLedgerMutation :: "int \<Rightarrow> LedgerMutation \<Rightarrow> planning_error option" where
  "ValidateLedgerMutation currentRevision m =
     (if mut_BaseRevision m \<noteq> currentRevision then Some (StaleRevision (mut_BaseRevision m) currentRevision)
      else map_option LedgerError (LedgerMutation_Validate m))"

definition ApplyPlanningMutation :: "EngineeringLedger \<Rightarrow> LedgerMutation \<Rightarrow> planning_error + EngineeringLedger" where
  "ApplyPlanningMutation current m =
     check_res (map_option LedgerError (ValidateDraft current))
    (check_res (ValidateLedgerMutation (led_Revision current) m)
    (bind_res (applyPlanningOperations (json_copy_ledger current) (mut_Operations m)) (\<lambda>next.
      let next' = next\<lparr>led_Revision := int64 (led_Revision current + 1)\<rparr> in
      check_res (map_option MutationResult (ValidateDraft next')) (Inr next'))))"

section \<open>Operations at the task they name\<close>

text \<open>
  Every operation works on the first task with its target identity. A ledger that holds such a task is
  \<open>put_task l pre t post\<close> with no such task in \<open>pre\<close>; on this form each helper is one
  equation.
\<close>

definition put_task :: "EngineeringLedger \<Rightarrow> LedgerTask list \<Rightarrow> LedgerTask \<Rightarrow> LedgerTask list \<Rightarrow> EngineeringLedger" where
  "put_task l pre t post = l\<lparr>led_Tasks := pre @ t # post\<rparr>"

definition no_task :: "LedgerItemID \<Rightarrow> LedgerTask list \<Rightarrow> bool" where
  "no_task i ts \<longleftrightarrow> (\<forall>u\<in>set ts. task_ID u \<noteq> i)"

abbreviation on_item :: "(LedgerItem \<Rightarrow> LedgerItem) \<Rightarrow> LedgerTask \<Rightarrow> LedgerTask" where
  "on_item f t \<equiv> t\<lparr>task_Item := f (task_Item t)\<rparr>"

lemma put_task_cases:
  obtains (missing) "no_task i (led_Tasks l)"
    | (found) pre t post where "l = put_task l pre t post" "task_ID t = i" "no_task i pre"
proof (cases "\<exists>t\<in>set (led_Tasks l). task_ID t = i")
  case True
  then obtain pre t post where "led_Tasks l = pre @ t # post" "task_ID t = i" "\<forall>u\<in>set pre. task_ID u \<noteq> i"
    using split_list_first_prop [of "led_Tasks l" "\<lambda>t. task_ID t = i"] by blast
  moreover from this have "l = put_task l pre t post" by (simp add: put_task_def)
  ultimately show ?thesis using found by (simp add: no_task_def)
next
  case False
  then show ?thesis using missing by (simp add: no_task_def)
qed

lemma put_task_fields [simp]:
  "led_ID (put_task l pre t post) = led_ID l" "led_Revision (put_task l pre t post) = led_Revision l"
  "led_Tasks (put_task l pre t post) = pre @ t # post"
  "put_task (put_task l pre t post) pre' u post' = put_task l pre' u post'"
  by (simp_all add: put_task_def)

lemma propose_if_active_simps [simp]:
  "item_ID (propose_if_active item) = item_ID item"
  "item_Disposition (propose_if_active item) = item_Disposition item"
  "item_Rank (propose_if_active item) = item_Rank item"
  "propose_if_active (propose_if_active item) = propose_if_active item"
  by (simp_all add: propose_if_active_def)

lemma update_first_missing: "no_task i ts \<Longrightarrow> update_first i upd ts = Inl (MissingTask i)"
  by (induction ts) (auto simp: no_task_def)

lemma update_first_found:
  "no_task i pre \<Longrightarrow> task_ID t = i \<Longrightarrow>
   update_first i upd (pre @ t # post) =
     bind_res (upd (task_Item t)) (\<lambda>item. Inr (pre @ t\<lparr>task_Item := item\<rparr> # post))"
  by (induction pre) (cases "upd (task_Item t)"; auto simp: no_task_def)+

lemma replace_first_found:
  "no_task i pre \<Longrightarrow> task_ID t = i \<Longrightarrow> replace_first i u (pre @ t # post) = Some (pre @ u # post)"
  by (induction pre) (auto simp: no_task_def)

lemma first_with_found:
  "no_task i pre \<Longrightarrow> task_ID t = i \<Longrightarrow> first_with (\<lambda>t. task_ID t = i) (pre @ t # post) = Some t"
  by (induction pre) (auto simp: no_task_def)

lemma updatePlanningItem_found:
  "no_task i pre \<Longrightarrow> task_ID t = i \<Longrightarrow> updatePlanningItem (put_task l pre t post) i upd =
     (case upd (task_Item t) of
        Inl e \<Rightarrow> Inl e | Inr item \<Rightarrow> Inr (put_task l pre (t\<lparr>task_Item := item\<rparr>) post))"
  by (cases "upd (task_Item t)") (auto simp: updatePlanningItem_def update_first_found put_task_def)

lemma updatePlanningItem_missing:
  "no_task i (led_Tasks l) \<Longrightarrow> updatePlanningItem l i upd = Inl (MissingTask i)"
  by (simp add: updatePlanningItem_def update_first_missing)

lemma reset_found:
  "no_task i pre \<Longrightarrow> task_ID t = i \<Longrightarrow> resetPlanningAgreements (put_task l pre t post) i =
     put_task l pre (t\<lparr>task_Item := propose_if_active (task_Item t)\<rparr>) post"
  by (simp add: resetPlanningAgreements_def updatePlanningItem_found)

lemma reset_missing: "no_task i (led_Tasks l) \<Longrightarrow> resetPlanningAgreements l i = l"
  by (simp add: resetPlanningAgreements_def updatePlanningItem_missing)

lemma replace_found:
  "no_task i pre \<Longrightarrow> task_ID t = i \<Longrightarrow>
   replacePlanningItem (put_task l pre t post) i (Some \<lparr>mi_Task = Some u\<rparr>) = Some (put_task l pre u post)"
  by (simp add: replacePlanningItem_def replace_first_found put_task_def)

lemma wasRemoved_found:
  "no_task i pre \<Longrightarrow> task_ID t = i \<Longrightarrow> wasRemoved (put_task l pre t post) i \<longleftrightarrow> \<not> task_active t"
  by (simp add: wasRemoved_def first_with_found)

lemmas found_simps = updatePlanningItem_found reset_found replace_found wasRemoved_found

lemma apply_missing:
  assumes "op_Kind op \<noteq> LedgerMutationAdd" "no_task (op_TargetID op) (led_Tasks l)"
  shows "\<exists>e. applyPlanningOperation l op = Inl e"
  using assms
  by (cases "op_Kind op") (simp_all add: applyPlanningOperation_def updatePlanningItem_missing reset_missing)

lemma apply_amend:
  assumes "op_Kind op = LedgerMutationAmend" "op_Item op = Some \<lparr>mi_Task = Some u\<rparr>"
    "task_ID u = op_TargetID op" "task_ID t = op_TargetID op" "no_task (op_TargetID op) pre"
  shows "applyPlanningOperation (put_task l pre t post) op =
    (if task_active t then Inr (put_task l pre (u\<lparr>task_Item := propose_if_active (task_Item u)\<rparr>) post)
     else Inl (AmendInactive (op_TargetID op)))"
  using assms by (simp add: applyPlanningOperation_def found_simps)

lemma apply_remove:
  assumes "op_Kind op = LedgerMutationRemove" "task_ID t = op_TargetID op" "no_task (op_TargetID op) pre"
  shows "applyPlanningOperation (put_task l pre t post) op =
    (if task_active t
     then Inr (put_task l pre (t\<lparr>task_Item := (task_Item t)\<lparr>item_Disposition := LedgerDispositionTombstoned,
       item_ReviewState := LedgerReviewNone\<rparr>\<rparr>) post)
     else Inl (RemoveInactive (op_TargetID op)))"
  using assms
  by (simp add: applyPlanningOperation_def found_simps removePlanningItem_def propose_if_active_def)

lemma apply_restore:
  assumes "op_Kind op = LedgerMutationRestore" "task_ID t = op_TargetID op" "no_task (op_TargetID op) pre"
  shows "applyPlanningOperation (put_task l pre t post) op =
    (case task_Disposition t of
       LedgerDispositionActive \<Rightarrow> Inr (put_task l pre t post)
     | LedgerDispositionTombstoned \<Rightarrow>
         Inr (put_task l pre (t\<lparr>task_Item := (task_Item t)\<lparr>item_Disposition := LedgerDispositionActive,
           item_ReviewState := LedgerReviewProposed\<rparr>\<rparr>) post)
     | LedgerDispositionOther _ \<Rightarrow> Inl (RestoreNotRemoved (op_TargetID op)))"
  using assms
  by (cases "task_Disposition t")
     (simp_all add: applyPlanningOperation_def found_simps restorePlanningItem_def propose_if_active_def)

lemma apply_review:
  assumes "op_Kind op = LedgerMutationReview" "task_ID t = op_TargetID op" "no_task (op_TargetID op) pre"
  shows "applyPlanningOperation (put_task l pre t post) op =
    (if task_active t
     then Inr (put_task l pre (t\<lparr>task_Item := (task_Item t)\<lparr>item_ReviewState := op_ReviewState op\<rparr>\<rparr>) post)
     else Inl (ReviewRemoved (op_TargetID op)))"
  using assms by (simp add: applyPlanningOperation_def found_simps)

lemma apply_reorder:
  assumes "op_Kind op = LedgerMutationReorder" "op_Rank op = Some r"
    "task_ID t = op_TargetID op" "no_task (op_TargetID op) pre"
  shows "applyPlanningOperation (put_task l pre t post) op =
    Inr (put_task l pre (t\<lparr>task_Item := (task_Item t)\<lparr>item_Rank := r\<rparr>\<rparr>) post)"
  using assms by (simp add: applyPlanningOperation_def found_simps)

lemma apply_add:
  assumes "op_Kind op = LedgerMutationAdd" "operation_ok op" "op_Item op = Some \<lparr>mi_Task = Some t\<rparr>"
  shows "\<exists>ts. applyPlanningOperation l op = Inr (l\<lparr>led_Tasks := ts\<rparr>) \<and>
    map task_ID ts = map task_ID (led_Tasks l) @ [task_ID t] \<and>
    (no_task (task_ID t) (led_Tasks l) \<longrightarrow> ts = led_Tasks l @ [t])"
proof -
  have t: "propose_if_active (task_Item t) = task_Item t"
    using assms by (auto simp: operation_ok_def propose_if_active_def)
  have eq: "applyPlanningOperation l op = Inr (resetPlanningAgreements (put_task l (led_Tasks l) t []) (task_ID t))"
    using assms
    by (simp add: applyPlanningOperation_def appendPlanningItem_def planningMutationItemID_def put_task_def)
  show ?thesis
  proof (cases rule: put_task_cases [of "task_ID t" l])
    case missing
    then have "applyPlanningOperation l op = Inr (put_task l (led_Tasks l) t [])"
      by (simp add: eq found_simps t)
    then show ?thesis
      by (intro exI [of _ "led_Tasks l @ [t]"]) (simp add: put_task_def)
  next
    case (found pre u post)
    have "put_task l (led_Tasks l) t [] = put_task l pre u (post @ [t])"
      by (subst (2) found(1)) (simp add: put_task_def)
    then have "applyPlanningOperation l op = Inr (put_task l pre (on_item propose_if_active u) (post @ [t]))"
      using found(2,3) by (simp add: eq found_simps)
    then have "applyPlanningOperation l op = Inr (l\<lparr>led_Tasks := pre @ on_item propose_if_active u # post @ [t]\<rparr>)"
      by (simp add: put_task_def)
    moreover have "map task_ID (led_Tasks l) = map task_ID (pre @ u # post)"
      by (subst found(1)) simp
    moreover have "\<not> no_task (task_ID t) (led_Tasks l)"
      using found(2) by (subst found(1)) (auto simp: no_task_def)
    ultimately show ?thesis
      by (intro exI [of _ "pre @ on_item propose_if_active u # post @ [t]"]) simp
  qed
qed

lemmas apply_at = apply_amend apply_remove apply_restore apply_review apply_reorder

section \<open>The abstract ledger\<close>

text \<open>
  What the ledger promises, as a map from identities to tasks: additions bind a new identity, amendments
  replace an active task and withdraw its agreement, removal leaves a tombstone, restoration revives it as
  proposed, review and reorder change one field. \<open>None\<close> is a refused operation.
\<close>

type_synonym ledger_map = "LedgerItemID \<rightharpoonup> LedgerTask"

definition ledger_map :: "EngineeringLedger \<Rightarrow> ledger_map" where
  "ledger_map l = map_of (map (\<lambda>t. (task_ID t, t)) (led_Tasks l))"

definition tombstone :: "LedgerItem \<Rightarrow> LedgerItem" where
  "tombstone item = item\<lparr>item_Disposition := LedgerDispositionTombstoned, item_ReviewState := LedgerReviewNone\<rparr>"

definition revive :: "LedgerItem \<Rightarrow> LedgerItem" where
  "revive item = item\<lparr>item_Disposition := LedgerDispositionActive, item_ReviewState := LedgerReviewProposed\<rparr>"

definition op_Payload :: "LedgerMutationOperation \<Rightarrow> LedgerTask option" where
  "op_Payload op = Option.bind (op_Item op) mi_Task"

definition spec_operation :: "LedgerMutationOperation \<Rightarrow> ledger_map \<Rightarrow> ledger_map option" where
  "spec_operation op m =
     (case op_Kind op of
        LedgerMutationAdd \<Rightarrow>
          (case op_Payload op of
             Some t \<Rightarrow> if m (task_ID t) = None then Some (m(task_ID t \<mapsto> t)) else None
           | None \<Rightarrow> None)
      | kind \<Rightarrow>
          (case m (op_TargetID op) of
             None \<Rightarrow> None
           | Some t \<Rightarrow>
               (case kind of
                  LedgerMutationAmend \<Rightarrow>
                    (case op_Payload op of
                       Some u \<Rightarrow> if task_active t then Some (m(op_TargetID op \<mapsto> on_item propose_if_active u)) else None
                     | None \<Rightarrow> None)
                | LedgerMutationRemove \<Rightarrow>
                    if task_active t then Some (m(op_TargetID op \<mapsto> on_item tombstone t)) else None
                | LedgerMutationRestore \<Rightarrow>
                    if task_active t then Some m else Some (m(op_TargetID op \<mapsto> on_item revive t))
                | LedgerMutationReview \<Rightarrow>
                    if task_active t
                    then Some (m(op_TargetID op \<mapsto> on_item (item_ReviewState_update (\<lambda>_. op_ReviewState op)) t))
                    else None
                | LedgerMutationReorder \<Rightarrow>
                    (case op_Rank op of
                       Some r \<Rightarrow> Some (m(op_TargetID op \<mapsto> on_item (item_Rank_update (\<lambda>_. r)) t))
                     | None \<Rightarrow> None)
                | _ \<Rightarrow> None)))"

fun spec_operations :: "LedgerMutationOperation list \<Rightarrow> ledger_map \<Rightarrow> ledger_map option" where
  "spec_operations [] m = Some m"
| "spec_operations (op # ops) m = Option.bind (spec_operation op m) (spec_operations ops)"

definition added_ids :: "LedgerMutationOperation \<Rightarrow> LedgerItemID list" where
  "added_ids op =
     (case op_Payload op of
        Some t \<Rightarrow> if op_Kind op = LedgerMutationAdd then [task_ID t] else [] | None \<Rightarrow> [])"

definition tasks_ok :: "LedgerTask list \<Rightarrow> bool" where
  "tasks_ok ts \<longleftrightarrow> distinct (map task_ID ts) \<and> (\<forall>t\<in>set ts. task_ok t)"

abbreviation ledger_ids :: "EngineeringLedger \<Rightarrow> LedgerItemID list" where
  "ledger_ids l \<equiv> map task_ID (led_Tasks l)"

lemma ledger_ok_iff: "ledger_ok l \<longleftrightarrow> \<not> blank (led_ID l) \<and> 0 \<le> led_Revision l \<and> tasks_ok (led_Tasks l)"
  by (auto simp: ledger_ok_def tasks_ok_def)

lemma map_of_tasks_put:
  "no_task i pre \<Longrightarrow> task_ID t = i \<Longrightarrow> task_ID u = i \<Longrightarrow>
   map_of (map (\<lambda>t. (task_ID t, t)) (pre @ u # post)) = (map_of (map (\<lambda>t. (task_ID t, t)) (pre @ t # post)))(i \<mapsto> u)"
  by (induction pre) (auto simp: no_task_def fun_upd_twist)

lemma ledger_map_put:
  "no_task i pre \<Longrightarrow> task_ID t = i \<Longrightarrow> task_ID u = i \<Longrightarrow>
   ledger_map (put_task l pre u post) = (ledger_map (put_task l pre t post))(i \<mapsto> u)"
  by (simp add: ledger_map_def map_of_tasks_put [of i pre t u post] del: map_append)

lemma ledger_map_found: "no_task i pre \<Longrightarrow> task_ID t = i \<Longrightarrow> ledger_map (put_task l pre t post) i = Some t"
  by (induction pre) (auto simp: ledger_map_def no_task_def)

lemma ledger_map_missing: "ledger_map l i = None \<longleftrightarrow> no_task i (led_Tasks l)"
  by (auto simp: ledger_map_def no_task_def map_of_eq_None_iff image_image)

lemma ledger_map_append:
  "no_task (task_ID t) (led_Tasks l) \<Longrightarrow>
   ledger_map (l\<lparr>led_Tasks := led_Tasks l @ [t]\<rparr>) = (ledger_map l)(task_ID t \<mapsto> t)"
  using ledger_map_missing [of l "task_ID t"]
  by (auto simp: ledger_map_def map_add_def fun_eq_iff split: option.splits)

lemma item_ok_changes:
  "item_ok i \<Longrightarrow> item_ok (propose_if_active i)"
  "item_ok i \<Longrightarrow> item_ok (tombstone i)"
  "item_ok i \<Longrightarrow> item_ok (revive i)"
  "item_ok i \<Longrightarrow> 0 \<le> r \<Longrightarrow> item_ok (i\<lparr>item_Rank := r\<rparr>)"
  "item_ok i \<Longrightarrow> item_Disposition i = LedgerDispositionActive \<Longrightarrow> s \<in> review_set \<Longrightarrow> item_ok (i\<lparr>item_ReviewState := s\<rparr>)"
  by (auto simp: item_ok_def propose_if_active_def tombstone_def revive_def review_set_def)

lemma tasks_ok_put:
  "tasks_ok (pre @ t # post) \<Longrightarrow> task_ok u \<Longrightarrow> task_ID u = task_ID t \<Longrightarrow> tasks_ok (pre @ u # post)"
  by (auto simp: tasks_ok_def)

lemma task_ok_on_item: "task_ok t \<Longrightarrow> item_ok (f (task_Item t)) \<Longrightarrow> task_ok (on_item f t)"
  by (simp add: task_ok_def)

lemma item_ID_changes [simp]: "item_ID (tombstone i) = item_ID i" "item_ID (revive i) = item_ID i"
  by (simp_all add: tombstone_def revive_def)

subsection \<open>One operation\<close>

lemma op_Payload_ok:
  "operation_ok op \<Longrightarrow> op_Kind op = LedgerMutationAdd \<Longrightarrow>
   \<exists>t. op_Item op = Some \<lparr>mi_Task = Some t\<rparr> \<and> op_Payload op = Some t \<and> task_ok t"
  "operation_ok op \<Longrightarrow> op_Kind op = LedgerMutationAmend \<Longrightarrow>
   \<exists>t. op_Item op = Some \<lparr>mi_Task = Some t\<rparr> \<and> op_Payload op = Some t \<and> task_ok t \<and> task_ID t = op_TargetID op"
  by (auto simp: operation_ok_def op_Payload_def)

definition steps_to :: "EngineeringLedger \<Rightarrow> LedgerMutationOperation \<Rightarrow> ledger_map \<Rightarrow> EngineeringLedger \<Rightarrow> bool" where
  "steps_to l op m l' \<longleftrightarrow> applyPlanningOperation l op = Inr l' \<and> ledger_map l' = m \<and>
     ledger_ids l' = ledger_ids l @ added_ids op \<and> tasks_ok (led_Tasks l') \<and>
     led_ID l' = led_ID l \<and> led_Revision l' = led_Revision l"

lemma added_ids_not_add [simp]: "op_Kind op \<noteq> LedgerMutationAdd \<Longrightarrow> added_ids op = []"
  by (simp add: added_ids_def split: option.splits)

lemma steps_to_put:
  assumes "applyPlanningOperation (put_task l pre t post) op = Inr (put_task l pre u post)"
    "op_Kind op \<noteq> LedgerMutationAdd" "task_ID t = i" "task_ID u = i" "no_task i pre"
    "tasks_ok (pre @ t # post)" "task_ok u"
  shows "steps_to (put_task l pre t post) op ((ledger_map (put_task l pre t post))(i \<mapsto> u)) (put_task l pre u post)"
  using assms ledger_map_put [of i pre t u l post] tasks_ok_put [of pre t post u]
  by (simp add: steps_to_def)

lemma spec_operation_missing:
  "op_Kind op \<noteq> LedgerMutationAdd \<Longrightarrow> m (op_TargetID op) = None \<Longrightarrow> spec_operation op m = None"
  by (simp add: spec_operation_def split: LedgerMutationKind.splits)

lemma operation_refines_found:
  assumes ok: "tasks_ok (pre @ t # post)" "operation_ok op" "op_Kind op \<noteq> LedgerMutationAdd"
    and at: "task_ID t = op_TargetID op" "no_task (op_TargetID op) pre"
  shows "case spec_operation op (ledger_map (put_task l pre t post)) of
      Some m \<Rightarrow> \<exists>l'. steps_to (put_task l pre t post) op m l'
    | None \<Rightarrow> \<exists>e. applyPlanningOperation (put_task l pre t post) op = Inl e"
proof -
  have t: "task_ok t" using ok by (simp add: tasks_ok_def)
  then have disp: "task_Disposition t = LedgerDispositionActive \<or> task_Disposition t = LedgerDispositionTombstoned"
    by (auto simp: task_ok_def item_ok_def)
  note look = ledger_map_found [OF at(2,1), of l post]
  note put = steps_to_put [OF _ ok(3) at(1) _ at(2) ok(1)]
  show ?thesis
  proof (cases "op_Kind op")
    case LedgerMutationAmend
    obtain u where u: "op_Item op = Some \<lparr>mi_Task = Some u\<rparr>" "op_Payload op = Some u" "task_ok u"
      "task_ID u = op_TargetID op"
      using op_Payload_ok(2) [OF ok(2) LedgerMutationAmend] by blast
    have "task_ok (on_item propose_if_active u)"
      using u(3) by (simp add: task_ok_on_item task_ok_def item_ok_changes)
    then show ?thesis
      using put [of l "on_item propose_if_active u"] u
      by (auto simp: spec_operation_def LedgerMutationAmend look apply_amend [OF LedgerMutationAmend u(1,4) at])
  next
    case LedgerMutationRemove
    have "task_ok (on_item tombstone t)"
      using t by (simp add: task_ok_on_item task_ok_def item_ok_changes)
    then show ?thesis
      using put [of l "on_item tombstone t"] at(1)
      by (auto simp: spec_operation_def LedgerMutationRemove look apply_remove [OF LedgerMutationRemove at]
          tombstone_def)
  next
    case LedgerMutationRestore
    have "task_ok (on_item revive t)"
      using t by (simp add: task_ok_on_item task_ok_def item_ok_changes)
    then show ?thesis
      using put [of l "on_item revive t"] put [of l t] at(1) disp t look
      by (auto simp: spec_operation_def LedgerMutationRestore apply_restore [OF LedgerMutationRestore at]
          revive_def fun_upd_idem)
  next
    case LedgerMutationReview
    have "op_ReviewState op \<in> review_set" using ok(2) LedgerMutationReview by (simp add: operation_ok_def)
    then have "task_active t \<Longrightarrow> task_ok (on_item (item_ReviewState_update (\<lambda>_. op_ReviewState op)) t)"
      using t by (simp add: task_ok_on_item task_ok_def item_ok_changes)
    then show ?thesis
      using put [of l "on_item (item_ReviewState_update (\<lambda>_. op_ReviewState op)) t"] at(1)
      by (auto simp: spec_operation_def LedgerMutationReview look apply_review [OF LedgerMutationReview at])
  next
    case LedgerMutationReorder
    obtain r where r: "op_Rank op = Some r" "0 \<le> r"
      using ok(2) LedgerMutationReorder by (auto simp: operation_ok_def)
    have "task_ok (on_item (item_Rank_update (\<lambda>_. r)) t)"
      using t r by (simp add: task_ok_on_item task_ok_def item_ok_changes)
    then show ?thesis
      using put [of l "on_item (item_Rank_update (\<lambda>_. r)) t"] at(1)
      by (auto simp: spec_operation_def LedgerMutationReorder look r(1) apply_reorder [OF LedgerMutationReorder r(1) at])
  qed (use ok in \<open>simp_all add: operation_ok_def\<close>)
qed

lemma operation_refines_add:
  assumes ok: "tasks_ok (led_Tasks l)" "operation_ok op" and kind: "op_Kind op = LedgerMutationAdd"
  shows "case spec_operation op (ledger_map l) of
      Some m \<Rightarrow> \<exists>l'. steps_to l op m l'
    | None \<Rightarrow> \<exists>l'. applyPlanningOperation l op = Inr l' \<and> \<not> distinct (ledger_ids l')"
proof -
  obtain t where t: "op_Item op = Some \<lparr>mi_Task = Some t\<rparr>" "op_Payload op = Some t" "task_ok t"
    using op_Payload_ok(1) [OF ok(2) kind] by blast
  obtain ts where ts: "applyPlanningOperation l op = Inr (l\<lparr>led_Tasks := ts\<rparr>)"
      "map task_ID ts = ledger_ids l @ [task_ID t]"
      "no_task (task_ID t) (led_Tasks l) \<longrightarrow> ts = led_Tasks l @ [t]"
    using apply_add [OF kind ok(2) t(1), of l] by blast
  have added: "added_ids op = [task_ID t]" using t kind by (simp add: added_ids_def)
  show ?thesis
  proof (cases "no_task (task_ID t) (led_Tasks l)")
    case True
    then have "tasks_ok (led_Tasks l @ [t])"
      using ok(1) t(3) by (auto simp: tasks_ok_def no_task_def)
    then have "steps_to l op ((ledger_map l)(task_ID t \<mapsto> t)) (l\<lparr>led_Tasks := led_Tasks l @ [t]\<rparr>)"
      using ts True added by (simp add: steps_to_def ledger_map_append)
    moreover have "ledger_map l (task_ID t) = None" using True by (simp add: ledger_map_missing)
    ultimately show ?thesis using t kind by (auto simp: spec_operation_def)
  next
    case False
    then obtain u where "u \<in> set (led_Tasks l)" "task_ID u = task_ID t" by (auto simp: no_task_def)
    then have "task_ID t \<in> set (ledger_ids l)" by (metis imageI set_map)
    then have "\<not> distinct (map task_ID ts)" unfolding ts(2) by simp
    moreover have "ledger_map l (task_ID t) \<noteq> None" using False by (simp add: ledger_map_missing)
    ultimately show ?thesis using t kind ts(1) by (auto simp: spec_operation_def simp del: not_None_eq)
  qed
qed

lemma operation_refines:
  assumes ok: "tasks_ok (led_Tasks l)" "operation_ok op"
  shows "case spec_operation op (ledger_map l) of
      Some m \<Rightarrow> \<exists>l'. steps_to l op m l'
    | None \<Rightarrow> \<forall>l'. applyPlanningOperation l op = Inr l' \<longrightarrow> \<not> distinct (ledger_ids l')"
proof (cases "op_Kind op = LedgerMutationAdd")
  case True
  show ?thesis
    using operation_refines_add [OF ok True] by (auto split: option.splits)
next
  case False
  show ?thesis
  proof (cases rule: put_task_cases [of "op_TargetID op" l])
    case missing
    then show ?thesis
      using apply_missing [OF False missing] False
      by (auto simp: spec_operation_missing ledger_map_missing)
  next
    case (found pre t post)
    have "tasks_ok (pre @ t # post)" using ok(1) by (subst (asm) found(1)) simp
    from operation_refines_found [OF this ok(2) False found(2,3), of l]
    show ?thesis by (subst (1 2 3) found(1)) (auto split: option.splits)
  qed
qed

lemma operation_ids:
  assumes ok: "operation_ok op" and res: "applyPlanningOperation l op = Inr l'"
  shows "ledger_ids l' = ledger_ids l @ added_ids op"
proof (cases "op_Kind op = LedgerMutationAdd")
  case True
  then obtain t where t: "op_Item op = Some \<lparr>mi_Task = Some t\<rparr>" "op_Payload op = Some t"
    using op_Payload_ok(1) [OF ok True] by blast
  then show ?thesis
    using apply_add [OF True ok t(1), of l] res True by (auto simp: added_ids_def)
next
  case False
  show ?thesis
  proof (cases rule: put_task_cases [of "op_TargetID op" l])
    case missing
    then show ?thesis using apply_missing [OF False missing] res by simp
  next
    case (found pre t post)
    have "applyPlanningOperation (put_task l pre t post) op = Inr l'"
      using res by (subst (asm) found(1))
    then have "ledger_ids l' = ledger_ids (put_task l pre t post)"
      using ok False found(2,3) op_Payload_ok(2) [OF ok]
      by (cases "op_Kind op") (auto simp: apply_at operation_ok_def split: if_splits LedgerDisposition.splits)
    then show ?thesis using False by (subst found(1)) simp
  qed
qed

subsection \<open>A sequence of operations\<close>

lemma operations_ids:
  "\<forall>op\<in>set ops. operation_ok op \<Longrightarrow> applyPlanningOperations l ops = Inr l' \<Longrightarrow>
   ledger_ids l' = ledger_ids l @ concat (map added_ids ops)"
proof (induction ops arbitrary: l)
  case (Cons op ops)
  then obtain l1 where "applyPlanningOperation l op = Inr l1" "applyPlanningOperations l1 ops = Inr l'" by auto
  then show ?case using Cons operation_ids [of op l l1] by simp
qed simp

lemma operations_refine:
  assumes "tasks_ok (led_Tasks l)" "\<forall>op\<in>set ops. operation_ok op"
  shows "case spec_operations ops (ledger_map l) of
      Some m \<Rightarrow> \<exists>l'. applyPlanningOperations l ops = Inr l' \<and> ledger_map l' = m \<and> tasks_ok (led_Tasks l') \<and>
        ledger_ids l' = ledger_ids l @ concat (map added_ids ops) \<and>
        led_ID l' = led_ID l \<and> led_Revision l' = led_Revision l
    | None \<Rightarrow> \<forall>l'. applyPlanningOperations l ops = Inr l' \<longrightarrow> \<not> distinct (ledger_ids l')"
  using assms
proof (induction ops arbitrary: l)
  case Nil
  then show ?case by simp
next
  case (Cons op ops)
  have step: "case spec_operation op (ledger_map l) of
      Some m \<Rightarrow> \<exists>l'. steps_to l op m l'
    | None \<Rightarrow> \<forall>l'. applyPlanningOperation l op = Inr l' \<longrightarrow> \<not> distinct (ledger_ids l')"
    using Cons.prems operation_refines by simp
  show ?case
  proof (cases "spec_operation op (ledger_map l)")
    case None
    have "\<not> distinct (ledger_ids l')" if "applyPlanningOperations l (op # ops) = Inr l'" for l'
    proof -
      obtain l1 where l1: "applyPlanningOperation l op = Inr l1" "applyPlanningOperations l1 ops = Inr l'"
        using \<open>applyPlanningOperations l (op # ops) = Inr l'\<close> by auto
      with step None have "\<not> distinct (ledger_ids l1)" by simp
      moreover have "ledger_ids l' = ledger_ids l1 @ concat (map added_ids ops)"
        using operations_ids l1(2) Cons.prems by simp
      ultimately show ?thesis by simp
    qed
    with None show ?thesis by simp
  next
    case (Some m)
    with step obtain l1 where l1: "steps_to l op m l1" by auto
    then show ?thesis
      using Cons.IH [of l1] Cons.prems Some by (auto simp: steps_to_def split: option.splits)
  qed
qed

section \<open>A whole mutation\<close>

text \<open>The copy is the ledger itself when its strings are valid UTF-8, as all stored ledgers are.\<close>

definition provenance_utf8 :: "LedgerProvenance \<Rightarrow> bool" where
  "provenance_utf8 p \<longleftrightarrow> ValidString (prov_Kind p) \<and> ValidString (prov_Reference p)"

definition item_utf8 :: "LedgerItem \<Rightarrow> bool" where
  "item_utf8 i \<longleftrightarrow> ValidString (item_ID i) \<and> provenance_utf8 (item_Provenance i) \<and> ValidString (item_Rationale i) \<and>
     (case item_Disposition i of LedgerDispositionOther s \<Rightarrow> ValidString s | _ \<Rightarrow> True) \<and>
     (case item_ReviewState i of LedgerReviewOther s \<Rightarrow> ValidString s | _ \<Rightarrow> True)"

definition task_utf8 :: "LedgerTask \<Rightarrow> bool" where
  "task_utf8 t \<longleftrightarrow> item_utf8 (task_Item t) \<and> ValidString (task_Goal t) \<and> ValidString (task_Objective t) \<and>
     (\<forall>c\<in>set (task_OwnerContext t). ValidString (ctx_Text c) \<and> provenance_utf8 (ctx_Provenance c)) \<and>
     (\<forall>s\<in>set (task_Constraints t). ValidString s) \<and>
     (\<forall>r\<in>set (task_FileResponsibilities t). ValidString (resp_Path r) \<and> ValidString (resp_Responsibility r) \<and>
        (case resp_Action r of TaskFileActionOther s \<Rightarrow> ValidString s | _ \<Rightarrow> True)) \<and>
     (\<forall>a\<in>set (task_Acceptance t). ValidString (acc_ID a) \<and> ValidString (acc_Text a) \<and>
        (\<forall>s\<in>set (acc_Verification a). ValidString s)) \<and>
     (\<forall>s\<in>set (task_ReadFiles t @ task_WriteFiles t @ task_DeleteFiles t). ValidString s)"

definition ledger_utf8 :: "EngineeringLedger \<Rightarrow> bool" where
  "ledger_utf8 l \<longleftrightarrow> ValidString (led_ID l) \<and> (\<forall>t\<in>set (led_Tasks l). task_utf8 t)"

lemma json_copy_provenance_id: "provenance_utf8 p \<Longrightarrow> json_copy_provenance p = p"
  by (simp add: json_copy_provenance_def provenance_utf8_def)

lemma json_copy_item_id: "item_utf8 i \<Longrightarrow> json_copy_item i = i"
  by (cases "item_Disposition i"; cases "item_ReviewState i")
     (simp_all add: json_copy_item_def item_utf8_def json_copy_provenance_id)

lemma json_copy_responsibility_id:
  "ValidString (resp_Path r) \<Longrightarrow> ValidString (resp_Responsibility r) \<Longrightarrow>
   (case resp_Action r of TaskFileActionOther s \<Rightarrow> ValidString s | _ \<Rightarrow> True) \<Longrightarrow> json_copy_responsibility r = r"
  by (cases "resp_Action r") (simp_all add: json_copy_responsibility_def)

lemma json_copy_task_id: "task_utf8 t \<Longrightarrow> json_copy_task t = t"
  by (cases t)
     (auto simp: json_copy_task_def task_utf8_def json_copy_item_id json_copy_context_def json_copy_provenance_id
        json_copy_acceptance_def json_copy_responsibility_id intro!: map_idI TaskAcceptance.equality)

lemma json_copy_ledger_id: "ledger_utf8 l \<Longrightarrow> json_copy_ledger l = l"
  by (cases l) (auto simp: json_copy_ledger_def ledger_utf8_def json_copy_task_id intro!: map_idI)

lemma tasks_determined:
  assumes "distinct (map task_ID ts)" "map task_ID us = map task_ID ts"
    "map_of (map (\<lambda>t. (task_ID t, t)) us) = map_of (map (\<lambda>t. (task_ID t, t)) ts)"
  shows "us = ts"
proof -
  have the_ts: "xs = map (\<lambda>i. the (map_of (map (\<lambda>t. (task_ID t, t)) xs) i)) (map task_ID xs)"
    if "distinct (map task_ID xs)" for xs :: "LedgerTask list"
  proof -
    have "map_of (map (\<lambda>t. (task_ID t, t)) xs) (task_ID x) = Some x" if "x \<in> set xs" for x
      using \<open>distinct (map task_ID xs)\<close> that by (intro map_of_is_SomeI) (auto simp: comp_def)
    then show ?thesis by (simp add: map_idI)
  qed
  show ?thesis
    using the_ts [OF assms(1)] the_ts [of us] assms by metis
qed

lemma mutation_refines:
  assumes "ledger_utf8 cur" "is_int64 (led_Revision cur)"
  shows "ApplyPlanningMutation cur m = Inr nxt \<longleftrightarrow>
     ledger_ok cur \<and> mut_BaseRevision m = led_Revision cur \<and> mutation_ok m \<and>
     led_Revision cur < 2 ^ 63 - 1 \<and>
     spec_operations (mut_Operations m) (ledger_map cur) = Some (ledger_map nxt) \<and>
     ledger_ids nxt = ledger_ids cur @ concat (map added_ids (mut_Operations m)) \<and>
     led_ID nxt = led_ID cur \<and> led_Revision nxt = led_Revision cur + 1"
  (is "?apply \<longleftrightarrow> ?spec")
proof (cases "ledger_ok cur \<and> mut_BaseRevision m = led_Revision cur \<and> mutation_ok m")
  case False
  then show ?thesis
    by (auto simp: ApplyPlanningMutation_def ValidateLedgerMutation_def err_simps)
next
  case True
  let ?next = "\<lambda>l. l\<lparr>led_Revision := int64 (led_Revision cur + 1)\<rparr>"
  have ops: "\<forall>op\<in>set (mut_Operations m). operation_ok op"
    using True by (auto simp: mutation_ok_def Let_def)
  have tasks: "tasks_ok (led_Tasks cur)" "\<not> blank (led_ID cur)" "0 \<le> led_Revision cur"
    using True by (auto simp: ledger_ok_iff)
  have eq: "?apply \<longleftrightarrow> (\<exists>l. applyPlanningOperations cur (mut_Operations m) = Inr l \<and> nxt = ?next l \<and> ledger_ok nxt)"
    using True assms(1)
    by (auto simp: ApplyPlanningMutation_def ValidateLedgerMutation_def err_simps json_copy_ledger_id Let_def)
  have rev: "0 \<le> int64 (led_Revision cur + 1) \<longleftrightarrow> led_Revision cur < 2 ^ 63 - 1"
    using assms(2) tasks(3) by (auto simp: int64_succ is_int64_def)
  have rev_eq: "led_Revision cur < 2 ^ 63 - 1 \<Longrightarrow> int64 (led_Revision cur + 1) = led_Revision cur + 1"
    using assms(2) by (auto simp: int64_succ is_int64_def)
  show ?thesis
  proof (cases "spec_operations (mut_Operations m) (ledger_map cur)")
    case None
    then have "\<not> ledger_ok (?next l)" if "applyPlanningOperations cur (mut_Operations m) = Inr l" for l
      using operations_refine [OF tasks(1) ops] that by (auto simp: ledger_ok_def)
    with None eq show ?thesis by auto
  next
    case (Some mp)
    then obtain l where l: "applyPlanningOperations cur (mut_Operations m) = Inr l" "ledger_map l = mp"
      "tasks_ok (led_Tasks l)" "ledger_ids l = ledger_ids cur @ concat (map added_ids (mut_Operations m))"
      "led_ID l = led_ID cur" "led_Revision l = led_Revision cur"
      using operations_refine [OF tasks(1) ops] by auto
    have ok: "ledger_ok (?next l) \<longleftrightarrow> led_Revision cur < 2 ^ 63 - 1"
      using l tasks rev by (auto simp: ledger_ok_iff)
    have same: "nxt = ?next l" if "led_Revision cur < 2 ^ 63 - 1" "?spec"
    proof -
      have "led_Tasks nxt = led_Tasks l"
        using that l Some
        by (intro tasks_determined) (auto simp: tasks_ok_def ledger_map_def)
      with that l rev_eq show ?thesis by simp
    qed
    show ?thesis
    proof
      assume ?apply
      then have "nxt = ?next l" "led_Revision cur < 2 ^ 63 - 1" using eq l(1) ok by auto
      then show ?spec
        using True l Some rev_eq by (simp add: ledger_map_def)
    next
      assume sp: ?spec
      then have "nxt = ?next l" using same by simp
      with sp show ?apply using eq l(1) ok by auto
    qed
  qed
qed

section \<open>The ledger as a revisioned store\<close>

definition ledger_stored :: "EngineeringLedger \<Rightarrow> bool" where
  "ledger_stored l \<longleftrightarrow> ledger_ok l \<and> is_int64 (led_Revision l)"

lemma ApplyPlanningMutation_valid:
  assumes "is_int64 (led_Revision l)" "ApplyPlanningMutation l m = Inr l'"
  shows "mut_BaseRevision m = led_Revision l \<and> led_Revision l' = led_Revision l + 1 \<and> ledger_stored l'"
proof -
  have ok: "ledger_ok l" "mut_BaseRevision m = led_Revision l" "ledger_ok l'"
    and rev: "led_Revision l' = int64 (led_Revision l + 1)"
    using assms(2) by (auto simp: ApplyPlanningMutation_def ValidateLedgerMutation_def Let_def err_simps split: if_splits)
  then have "0 \<le> int64 (led_Revision l + 1)" by (simp add: ledger_ok_def)
  then have "led_Revision l \<noteq> 2 ^ 63 - 1" by (auto simp: int64_def)
  then show ?thesis
    using ok rev assms(1) by (auto simp: ledger_stored_def is_int64_def int64_succ)
qed

interpretation planning: revisioned_store ApplyPlanningMutation led_Revision mut_BaseRevision ledger_stored
proof
  fix l m l'
  assume ap: "ApplyPlanningMutation l m = Inr l'"
  then show "mut_BaseRevision m = led_Revision l"
    by (auto simp: ApplyPlanningMutation_def ValidateLedgerMutation_def Let_def err_simps split: if_splits)
  assume "ledger_stored l"
  then show "led_Revision l' = led_Revision l + 1" "ledger_stored l'"
    using ApplyPlanningMutation_valid [OF _ ap] by (auto simp: ledger_stored_def)
qed

end
