(* ===== verification/Planning_Order.thy ===== *)
theory Planning_Order
  imports Planning_Apply "HOL-Library.Product_Lexorder" "HOL-Library.Multiset"
begin

text \<open>
  Owner actions on the ledger and the order of its tasks: the planning turn and the direct actions of
  \<^verbatim>\<open>internal/codingagent/planning_mutation.go\<close>, moving one task
  (\<^verbatim>\<open>manual_ledger_order.go\<close>), ordering unordered tasks (\<^verbatim>\<open>task_ordering.go\<close>)
  and the tasks that precede a selected one (\<^verbatim>\<open>planning_prerequisites.go\<close>).

  Tasks run in the order of their rank, ties by identity. The comparison functions of the
  \<^verbatim>\<open>sort\<close> calls are the key \<open>order_key\<close>; \<open>sort_key\<close> is stable, and where the code
  calls the unstable \<^verbatim>\<open>sort.Slice\<close> the keys of a valid ledger are distinct, so that the
  result is the same list.
\<close>

record PlanningDirection =
  dir_OperationID :: string
  dir_Text :: string

record PlanningTurn =
  pt_ItemID :: LedgerItemID
  pt_OperationID :: string
  pt_OwnerTurnID :: string
  pt_Text :: string
  pt_ObservedRevision :: int
  pt_NewerOwnerDirection :: "PlanningDirection option"

datatype action_error =
    TurnAuthority
  | TurnInitialRevision
  | TurnRevision
  | ActionTaskRequired
  | ActionTaskMissing
  | ActionTaskUnavailable
  | ActionNeedsInterpretation LedgerMutationKind
  | ActionMutation planning_error

definition PlanningTurn_validate :: "PlanningTurn \<Rightarrow> bool \<Rightarrow> action_error option" where
  "PlanningTurn_validate turn initial =
     or_else (fail_if (blank (pt_OperationID turn) \<or> blank (pt_OwnerTurnID turn) \<or> blank (pt_Text turn)) TurnAuthority)
       (if initial then fail_if (pt_ObservedRevision turn \<noteq> 0) TurnInitialRevision
        else fail_if (pt_ObservedRevision turn < 1) TurnRevision)"

record DirectPlanningAction =
  act_Move :: int
  act_Item :: "LedgerTask option"
  act_Kind :: LedgerMutationKind
  act_TargetID :: LedgerItemID
  act_ReviewState :: LedgerReviewState
  act_Rank :: "int option"
  act_Rationale :: string

section \<open>The order of the tasks\<close>

definition order_key :: "LedgerTask \<Rightarrow> int \<times> LedgerItemID" where
  "order_key t = (task_Rank t, task_ID t)"

definition active_tasks :: "EngineeringLedger \<Rightarrow> LedgerTask list" where
  "active_tasks l = filter (\<lambda>t. task_active t) (led_Tasks l)"

definition ordered_tasks :: "EngineeringLedger \<Rightarrow> LedgerTask list" where
  "ordered_tasks l = sort_key order_key (active_tasks l)"

definition execution_order :: "EngineeringLedger \<Rightarrow> LedgerItemID list" where
  "execution_order l = map task_ID (ordered_tasks l)"

section \<open>Moving one task\<close>

fun index_of :: "('a \<Rightarrow> bool) \<Rightarrow> 'a list \<Rightarrow> nat option" where
  "index_of p [] = None"
| "index_of p (x # xs) = (if p x then Some 0 else map_option Suc (index_of p xs))"

definition swap :: "nat \<Rightarrow> nat \<Rightarrow> 'a list \<Rightarrow> 'a list" where
  "swap i j xs = xs[i := xs ! j, j := xs ! i]"

definition reorder_operation :: "string \<Rightarrow> LedgerItemID \<times> int \<Rightarrow> LedgerMutationOperation" where
  "reorder_operation rationale p =
     \<lparr>op_Kind = LedgerMutationReorder, op_TargetID = fst p, op_Item = None,
      op_ReviewState = LedgerReviewNone, op_Rank = Some (snd p), op_Rationale = rationale\<rparr>"

definition move_neighbor :: "nat \<Rightarrow> nat \<Rightarrow> int \<Rightarrow> nat" where
  \<comment> \<open>\<^verbatim>\<open>max(0, min(len(tasks)-1, selected+action.Move))\<close>\<close>
  "move_neighbor n selected move = nat (max 0 (min (int n - 1) (int64 (int selected + move))))"

definition unique_ranks :: "LedgerTask list \<Rightarrow> nat \<Rightarrow> nat \<Rightarrow> bool" where
  "unique_ranks ts s n \<longleftrightarrow>
     s \<noteq> n \<and> task_Rank (ts ! s) \<noteq> task_Rank (ts ! n) \<and>
     (\<forall>i\<in>{0..<length ts}. i \<noteq> s \<and> i \<noteq> n \<longrightarrow>
        task_Rank (ts ! i) \<noteq> task_Rank (ts ! s) \<and> task_Rank (ts ! i) \<noteq> task_Rank (ts ! n))"

definition changed_ranks :: "LedgerTask list \<Rightarrow> (LedgerItemID \<times> int) list" where
  \<comment> \<open>the tasks whose rank differs from their position, with that position\<close>
  "changed_ranks ts =
     map (\<lambda>(i, t). (task_ID t, int i)) (filter (\<lambda>(i, t). task_Rank t \<noteq> int i) (enumerate 0 ts))"

definition move_ranks :: "LedgerTask list \<Rightarrow> nat \<Rightarrow> nat \<Rightarrow> LedgerItemID \<Rightarrow> (LedgerItemID \<times> int) list" where
  "move_ranks ts s n target =
     (if unique_ranks ts s n
      then [(task_ID (ts ! s), task_Rank (ts ! n)), (task_ID (ts ! n), task_Rank (ts ! s))]
      else (let us = swap s n ts; changes = changed_ranks us in
            if changes = [] then [(target, task_Rank (us ! n))] else changes))"

definition moveLedgerItem :: "EngineeringLedger \<Rightarrow> PlanningTurn \<Rightarrow> DirectPlanningAction \<Rightarrow> action_error + LedgerMutation" where
  "moveLedgerItem l turn action =
     (let tasks = ordered_tasks l in
      case index_of (\<lambda>t. task_ID t = act_TargetID action) tasks of
        None \<Rightarrow> Inl ActionTaskUnavailable
      | Some selected \<Rightarrow>
          (let neighbor = move_neighbor (length tasks) selected (act_Move action);
               ranks = move_ranks tasks selected neighbor (act_TargetID action);
               m = \<lparr>mut_OperationID = pt_OperationID turn, mut_BaseRevision = pt_ObservedRevision turn,
                    mut_OwnerTurnID = pt_OwnerTurnID turn,
                    mut_OwnerTurnDisposition = RepresentedOwnerTurn (map fst ranks),
                    mut_Operations = map (reorder_operation (act_Rationale action)) ranks\<rparr>
           in check_res (map_option (\<lambda>e. ActionMutation (LedgerError e)) (LedgerMutation_Validate m)) (Inr m)))"

subsection \<open>Positions and swaps\<close>

lemma index_of_Some:
  "index_of p xs = Some i \<Longrightarrow> i < length xs \<and> p (xs ! i) \<and> (\<forall>j<i. \<not> p (xs ! j))"
  by (induction xs arbitrary: i) (auto split: if_splits simp: less_Suc_eq_0_disj)

lemma index_of_None [simp]: "index_of p xs = None \<longleftrightarrow> (\<forall>x\<in>set xs. \<not> p x)"
  by (induction xs) auto

lemma swap_length [simp]: "length (swap i j xs) = length xs"
  by (simp add: swap_def)

lemma swap_nth:
  "i < length xs \<Longrightarrow> j < length xs \<Longrightarrow> k < length xs \<Longrightarrow>
   swap i j xs ! k = (if k = j then xs ! i else if k = i then xs ! j else xs ! k)"
  by (simp add: swap_def)

lemma mset_swap' [simp]: "i < length xs \<Longrightarrow> j < length xs \<Longrightarrow> mset (swap i j xs) = mset xs"
  unfolding swap_def by (rule mset_swap)

lemma map_swap: "i < length xs \<Longrightarrow> j < length xs \<Longrightarrow> map f (swap i j xs) = swap i j (map f xs)"
  by (simp add: swap_def map_update)

lemma set_swap [simp]: "i < length xs \<Longrightarrow> j < length xs \<Longrightarrow> set (swap i j xs) = set xs"
  using mset_swap' [of i xs j] by (metis set_mset_mset)

lemma move_neighbor_less: "0 < n \<Longrightarrow> move_neighbor n s k < n"
  by (auto simp: move_neighbor_def)

subsection \<open>Reordering operations\<close>

definition set_ranks :: "(LedgerItemID \<rightharpoonup> int) \<Rightarrow> LedgerTask \<Rightarrow> LedgerTask" where
  "set_ranks f t = (case f (task_ID t) of Some r \<Rightarrow> on_item (item_Rank_update (\<lambda>_. r)) t | None \<Rightarrow> t)"

lemma set_ranks_fields [simp]:
  "task_ID (set_ranks f t) = task_ID t" "task_Disposition (set_ranks f t) = task_Disposition t"
  "task_Rank (set_ranks f t) = (case f (task_ID t) of Some r \<Rightarrow> r | None \<Rightarrow> task_Rank t)"
  by (auto simp: set_ranks_def split: option.splits)

lemma set_ranks_empty [simp]: "set_ranks Map.empty t = t"
  by (simp add: set_ranks_def)

lemma set_ranks_upd:
  "i \<notin> dom f \<Longrightarrow> set_ranks f (set_ranks [i \<mapsto> r] t) = set_ranks (f(i \<mapsto> r)) t"
  by (auto simp: set_ranks_def dom_def split: option.splits)

lemma reorder_one:
  assumes "distinct (ledger_ids l)" "i \<in> set (ledger_ids l)"
  shows "applyPlanningOperation l (reorder_operation rat (i, r)) =
    Inr (l\<lparr>led_Tasks := map (set_ranks [i \<mapsto> r]) (led_Tasks l)\<rparr>)"
proof (cases rule: put_task_cases [of i l])
  case missing
  with assms(2) show ?thesis by (auto simp: no_task_def)
next
  case (found pre t post)
  have ts: "led_Tasks l = pre @ t # post" by (subst found(1)) simp
  then have "no_task i post" using assms(1) found(2,3) by (auto simp: no_task_def image_iff)
  then have "map (set_ranks [i \<mapsto> r]) (led_Tasks l) = pre @ on_item (item_Rank_update (\<lambda>_. r)) t # post"
    using found ts by (auto simp: no_task_def set_ranks_def intro!: map_idI)
  moreover have "applyPlanningOperation (put_task l pre t post) (reorder_operation rat (i, r)) =
      Inr (put_task l pre (on_item (item_Rank_update (\<lambda>_. r)) t) post)"
    using found(2,3) by (subst apply_reorder [of _ r]) (simp_all add: reorder_operation_def)
  ultimately show ?thesis by (subst found(1)) (simp add: put_task_def)
qed

lemma reorder_all:
  assumes "distinct (ledger_ids l)" "fst ` set prs \<subseteq> set (ledger_ids l)" "distinct (map fst prs)"
  shows "applyPlanningOperations l (map (reorder_operation rat) prs) =
    Inr (l\<lparr>led_Tasks := map (set_ranks (map_of prs)) (led_Tasks l)\<rparr>)"
  using assms
proof (induction prs arbitrary: l)
  case Nil
  then show ?case by (simp add: map_idI)
next
  case (Cons p prs)
  obtain i r where p: "p = (i, r)" by (cases p)
  let ?l = "l\<lparr>led_Tasks := map (set_ranks [i \<mapsto> r]) (led_Tasks l)\<rparr>"
  have ids: "ledger_ids ?l = ledger_ids l" by (simp add: comp_def)
  have "applyPlanningOperations ?l (map (reorder_operation rat) prs) =
      Inr (?l\<lparr>led_Tasks := map (set_ranks (map_of prs)) (led_Tasks ?l)\<rparr>)"
    using Cons.prems by (intro Cons.IH) (simp_all only: ids, auto)
  moreover have "i \<notin> dom (map_of prs)"
    using Cons.prems(3) by (simp add: p dom_map_of_conv_image_fst)
  then have "set_ranks (map_of prs) (set_ranks [i \<mapsto> r] t) = set_ranks ((map_of prs)(i \<mapsto> r)) t" for t
    by (rule set_ranks_upd)
  ultimately show ?case
    using Cons.prems by (simp add: p reorder_one comp_def fun_upd_def)
qed

subsection \<open>The order after new ranks\<close>

lemma order_key_le: "order_key t \<le> order_key u \<longleftrightarrow>
    task_Rank t < task_Rank u \<or> task_Rank t = task_Rank u \<and> task_ID t \<le> task_ID u"
  by (auto simp: order_key_def)

lemma inj_order_key: "distinct (map task_ID ts) \<Longrightarrow> inj_on order_key (set ts)"
  by (auto simp: inj_on_def order_key_def distinct_map)

lemma distinct_active: "distinct (ledger_ids l) \<Longrightarrow> distinct (map task_ID (active_tasks l))"
  by (simp add: active_tasks_def distinct_map_filter)

lemma mset_ordered [simp]: "mset (ordered_tasks l) = mset (active_tasks l)"
  by (simp add: ordered_tasks_def)

lemma set_ordered: "set (ordered_tasks l) = {t \<in> set (led_Tasks l). task_active t}"
  by (auto simp: ordered_tasks_def active_tasks_def)

lemma distinct_ordered: "distinct (ledger_ids l) \<Longrightarrow> distinct (map task_ID (ordered_tasks l))"
  using distinct_active [of l] mset_ordered [of l] by (metis mset_map mset_eq_imp_distinct_iff)

lemma sorted_ordered: "sorted (map order_key (ordered_tasks l))"
  by (simp add: ordered_tasks_def)

lemma ordered_after_ranks:
  assumes "distinct (ledger_ids l)" "mset ys = mset (active_tasks l)"
    "sorted (map (order_key \<circ> set_ranks f) ys)"
  shows "ordered_tasks (l\<lparr>led_Tasks := map (set_ranks f) (led_Tasks l)\<rparr>) = map (set_ranks f) ys"
proof -
  let ?l = "l\<lparr>led_Tasks := map (set_ranks f) (led_Tasks l)\<rparr>"
  have act: "active_tasks ?l = map (set_ranks f) (active_tasks l)"
    by (simp add: active_tasks_def filter_map comp_def)
  have "distinct (ledger_ids ?l)" using assms(1) by (simp add: comp_def)
  then have "inj_on order_key (set (active_tasks ?l))"
    by (rule inj_order_key [OF distinct_active])
  then show ?thesis
    unfolding ordered_tasks_def using assms(2,3) by (intro sort_key_inj_key_eq) (simp_all add: act)
qed

lemma changed_ranks_iff:
  "(i, r) \<in> set (changed_ranks ts) \<longleftrightarrow>
   (\<exists>k<length ts. i = task_ID (ts ! k) \<and> r = int k \<and> task_Rank (ts ! k) \<noteq> int k)"
  by (force simp: changed_ranks_def in_set_enumerate_eq)

lemma distinct_changed: "distinct (map task_ID ts) \<Longrightarrow> distinct (map fst (changed_ranks ts))"
proof -
  have "map fst (changed_ranks ts) = map (\<lambda>p. task_ID (snd p)) (filter (\<lambda>(i, t). task_Rank t \<noteq> int i) (enumerate 0 ts))"
    by (simp add: changed_ranks_def comp_def case_prod_unfold)
  moreover assume "distinct (map task_ID ts)"
  then have "distinct (map (\<lambda>p. task_ID (snd p)) (enumerate 0 ts))"
    using map_map [of task_ID snd "enumerate 0 ts"] by (simp add: comp_def)
  ultimately show ?thesis by (simp add: distinct_map_filter)
qed

lemma map_of_changed:
  assumes "distinct (map task_ID ts)" "k < length ts"
  shows "map_of (changed_ranks ts) (task_ID (ts ! k)) = (if task_Rank (ts ! k) = int k then None else Some (int k))"
proof -
  have same: "j = k" if "task_ID (ts ! j) = task_ID (ts ! k)" "j < length ts" for j
    using assms that by (auto simp: distinct_conv_nth)
  show ?thesis
  proof (cases "task_Rank (ts ! k) = int k")
    case True
    then have "task_ID (ts ! k) \<notin> fst ` set (changed_ranks ts)"
      using same by (auto simp: changed_ranks_iff)
    then show ?thesis using True by (simp add: map_of_eq_None_iff)
  next
    case False
    then have "(task_ID (ts ! k), int k) \<in> set (changed_ranks ts)"
      using assms(2) by (auto simp: changed_ranks_iff)
    then show ?thesis using False distinct_changed [OF assms(1)] by (simp add: map_of_is_SomeI)
  qed
qed

lemma sorted_positions:
  assumes "\<And>k. k < length ts \<Longrightarrow> task_Rank (ts ! k) = int k"
  shows "sorted (map order_key ts)"
  unfolding sorted_iff_nth_mono_less using assms by (auto simp: order_key_le)

lemma sorted_changed:
  assumes "distinct (map task_ID ts)"
  shows "sorted (map (order_key \<circ> set_ranks (map_of (changed_ranks ts))) ts)"
proof -
  have "sorted (map order_key (map (set_ranks (map_of (changed_ranks ts))) ts))"
    using map_of_changed [OF assms] by (intro sorted_positions) simp
  then show ?thesis by (simp only: map_map)
qed

lemma unique_ranks_alone:
  assumes "unique_ranks ts s n" "k = s \<or> k = n" "j < length ts" "task_Rank (ts ! j) = task_Rank (ts ! k)"
  shows "j = k"
  using assms unfolding unique_ranks_def by (metis atLeast0LessThan lessThan_iff)

lemma sorted_by_positions:
  assumes "sorted (map order_key ts)" "length us = length ts"
    "\<And>k. k < length ts \<Longrightarrow> task_Rank (us ! k) = task_Rank (ts ! k)"
    "\<And>j k. j < k \<Longrightarrow> k < length ts \<Longrightarrow> task_Rank (ts ! j) = task_Rank (ts ! k) \<Longrightarrow>
      task_ID (us ! j) = task_ID (ts ! j) \<and> task_ID (us ! k) = task_ID (ts ! k)"
  shows "sorted (map order_key us)"
  unfolding sorted_iff_nth_mono_less
proof (intro allI impI)
  fix j k assume jk: "j < k" "k < length (map order_key us)"
  then have "order_key (ts ! j) \<le> order_key (ts ! k)"
    using assms(1,2) by (auto simp: sorted_iff_nth_mono_less)
  then have "order_key (us ! j) \<le> order_key (us ! k)"
    using assms(3) [of j] assms(3) [of k] assms(4) [of j k] jk assms(2) unfolding order_key_le by auto
  then show "map order_key us ! j \<le> map order_key us ! k" using jk by simp
qed

lemma sorted_unique:
  fixes ts s n
  defines "g \<equiv> set_ranks (map_of [(task_ID (ts ! s), task_Rank (ts ! n)), (task_ID (ts ! n), task_Rank (ts ! s))])"
  assumes srt: "sorted (map order_key ts)" and dis: "distinct (map task_ID ts)"
    and uni: "unique_ranks ts s n" and len: "s < length ts" "n < length ts"
  shows "sorted (map (order_key \<circ> g) (swap s n ts))"
proof -
  have id_eq: "task_ID (ts ! j) = task_ID (ts ! k) \<longleftrightarrow> j = k" if "j < length ts" "k < length ts" for j k
    using dis that by (auto simp: distinct_conv_nth)
  have rank: "task_Rank (g (swap s n ts ! k)) = task_Rank (ts ! k)" if "k < length ts" for k
    using len that by (simp add: g_def swap_nth id_eq)
  have ids: "task_ID (swap s n ts ! k) = task_ID (ts ! k)" if "k < length ts" "k \<noteq> s" "k \<noteq> n" for k
    using len that by (simp add: swap_nth)
  have "sorted (map order_key (map g (swap s n ts)))"
  proof (rule sorted_by_positions [OF srt])
    fix j k assume jk: "j < k" "k < length ts" "task_Rank (ts ! j) = task_Rank (ts ! k)"
    then have "k \<noteq> s" "k \<noteq> n" "j \<noteq> s" "j \<noteq> n"
      using unique_ranks_alone [OF uni, of k j] unique_ranks_alone [OF uni, of j k] by fastforce+
    then show "task_ID (map g (swap s n ts) ! j) = task_ID (ts ! j) \<and>
        task_ID (map g (swap s n ts) ! k) = task_ID (ts ! k)"
      using jk ids [of j] ids [of k] by (simp add: g_def)
  qed (simp_all add: rank)
  then show ?thesis by (simp only: map_map)
qed

subsection \<open>A mutation that only reorders\<close>

definition rank_change :: "EngineeringLedger \<Rightarrow> (LedgerItemID \<times> int) list \<Rightarrow> bool" where
  "rank_change l ranks \<longleftrightarrow> ranks \<noteq> [] \<and> distinct (map fst ranks) \<and>
     (\<forall>(i, r)\<in>set ranks. i \<in> set (ledger_ids l) \<and> 0 \<le> r)"

definition forget_rank :: "LedgerTask \<Rightarrow> LedgerTask" where
  "forget_rank = on_item (item_Rank_update (\<lambda>_. 0))"

lemma forget_rank_set_ranks [simp]: "forget_rank (set_ranks f t) = forget_rank t"
  by (simp add: forget_rank_def set_ranks_def split: option.splits)

lemma task_ok_set_ranks: "task_ok t \<Longrightarrow> (\<And>r. f (task_ID t) = Some r \<Longrightarrow> 0 \<le> r) \<Longrightarrow> task_ok (set_ranks f t)"
  by (auto simp: set_ranks_def task_ok_def item_ok_def split: option.splits)

lemma ledger_ok_nonblank: "ledger_ok l \<Longrightarrow> i \<in> set (ledger_ids l) \<Longrightarrow> \<not> blank i"
  by (auto simp: ledger_ok_def task_ok_def item_ok_def)

lemma reorder_operations_ok:
  assumes "ledger_ok l" "rank_change l ranks"
  shows "distinct (map (reorder_operation rat) ranks) \<and> (\<forall>op\<in>set (map (reorder_operation rat) ranks). operation_ok op)"
proof -
  have "inj_on (reorder_operation rat) (set ranks)"
    by (auto simp: inj_on_def reorder_operation_def)
  moreover have "distinct ranks" using assms(2) by (simp add: rank_change_def distinct_map)
  moreover have "operation_ok (reorder_operation rat p)" if "p \<in> set ranks" for p
    using assms(2) ledger_ok_nonblank [OF assms(1)] that
    by (auto simp: rank_change_def operation_ok_def reorder_operation_def)
  ultimately show ?thesis by (simp add: distinct_map)
qed

lemma rank_mutation_applies:
  assumes ok: "ledger_ok l" and utf8: "ledger_utf8 l" and rev: "led_Revision l < 2 ^ 63 - 1"
    and change: "rank_change l ranks"
    and m: "mut_Operations m = map (reorder_operation rat) ranks" "mut_BaseRevision m = led_Revision l"
      "mutation_ok m"
  shows "ApplyPlanningMutation l m =
    Inr (l\<lparr>led_Tasks := map (set_ranks (map_of ranks)) (led_Tasks l), led_Revision := led_Revision l + 1\<rparr>)"
proof -
  have range: "0 \<le> r" if "map_of ranks i = Some r" for i r
    using change map_of_SomeD [OF that] by (auto simp: rank_change_def)
  have dist: "distinct (ledger_ids l)" and tasks: "\<And>t. t \<in> set (led_Tasks l) \<Longrightarrow> task_ok t"
    and rev0: "0 \<le> led_Revision l" using ok by (auto simp: ledger_ok_def)
  have ops: "applyPlanningOperations l (mut_Operations m) =
      Inr (l\<lparr>led_Tasks := map (set_ranks (map_of ranks)) (led_Tasks l)\<rparr>)"
    unfolding m(1) using change by (intro reorder_all dist) (auto simp: rank_change_def)
  have "int64 (led_Revision l + 1) = led_Revision l + 1"
    using rev rev0 by (simp add: int64_id is_int64_def)
  moreover have "ledger_ok (l\<lparr>led_Tasks := map (set_ranks (map_of ranks)) (led_Tasks l), led_Revision := led_Revision l + 1\<rparr>)"
    using ok rev0 dist task_ok_set_ranks [OF tasks range] by (auto simp: ledger_ok_def comp_def)
  ultimately show ?thesis
    using ok m utf8 ops
    by (simp add: ApplyPlanningMutation_def ValidateLedgerMutation_def err_simps json_copy_ledger_id Let_def)
qed

subsection \<open>The move\<close>

lemma sorted_move:
  assumes "sorted (map order_key ts)" "distinct (map task_ID ts)" "s < length ts" "n < length ts"
    "task_ID (ts ! s) = target"
  shows "sorted (map (order_key \<circ> set_ranks (map_of (move_ranks ts s n target))) (swap s n ts))"
proof (cases "unique_ranks ts s n")
  case True
  then show ?thesis using sorted_unique [OF assms(1,2) True assms(3,4)] by (simp add: move_ranks_def)
next
  case False
  let ?us = "swap s n ts"
  have dis: "distinct (map task_ID ?us)"
    using assms(2-4) by (metis map_swap mset_swap' mset_eq_imp_distinct_iff length_map)
  show ?thesis
  proof (cases "changed_ranks ?us = []")
    case True
    have "set_ranks [target \<mapsto> task_Rank (?us ! n)] t = t" if "t \<in> set ?us" for t
    proof (cases "task_ID t = target")
      case True
      moreover have "?us ! n = ts ! s" using assms(3,4) by (simp add: swap_nth)
      ultimately have "t = ?us ! n"
        using assms that dis by (metis distinct_map inj_onD nth_mem set_swap swap_length)
      then show ?thesis by (simp add: set_ranks_def split: option.splits)
    qed (simp add: set_ranks_def)
    moreover have "sorted (map (order_key \<circ> set_ranks (map_of [])) ?us)"
      using sorted_changed [OF dis] unfolding True .
    ultimately show ?thesis using False True by (simp add: move_ranks_def Let_def comp_def fun_upd_def cong: map_cong)
  next
    case False
    then show ?thesis using \<open>\<not> unique_ranks ts s n\<close> sorted_changed [OF dis] by (simp add: move_ranks_def Let_def)
  qed
qed

lemma rank_change_move:
  assumes "ledger_ok l" "s < length (ordered_tasks l)" "n < length (ordered_tasks l)"
    "task_ID (ordered_tasks l ! s) = target"
  shows "rank_change l (move_ranks (ordered_tasks l) s n target)"
proof -
  let ?ts = "ordered_tasks l"
  have mem: "task_ID (?ts ! k) \<in> set (ledger_ids l) \<and> 0 \<le> task_Rank (?ts ! k)" if "k < length ?ts" for k
    using assms(1) nth_mem [OF that] by (auto simp: set_ordered ledger_ok_def task_ok_def item_ok_def)
  have dis: "distinct (map task_ID ?ts)" using assms(1) by (simp add: distinct_ordered ledger_ok_def)
  have dis': "distinct (map task_ID (swap s n ?ts))"
    using dis assms(2,3) by (metis map_swap mset_swap' mset_eq_imp_distinct_iff length_map)
  have mem': "task_ID (swap s n ?ts ! k) \<in> set (ledger_ids l) \<and> 0 \<le> task_Rank (swap s n ?ts ! k)"
    if "k < length ?ts" for k
    using that assms(2,3) mem [of k] mem [of s] mem [of n] by (simp add: swap_nth)
  have "task_ID (?ts ! s) \<noteq> task_ID (?ts ! n)" if "s \<noteq> n"
    using dis that assms(2,3) by (auto simp: distinct_conv_nth)
  then show ?thesis
    using assms mem [of s] mem [of n] mem' distinct_changed [OF dis']
    by (auto simp: rank_change_def move_ranks_def Let_def unique_ranks_def changed_ranks_iff)
qed

lemma move_neighbor_in_range:
  "is_int64 (int s + k) \<Longrightarrow> move_neighbor n s k = nat (max 0 (min (int n - 1) (int s + k)))"
  by (simp add: move_neighbor_def int64_id)

lemma index_of_map: "index_of p (map f xs) = index_of (\<lambda>x. p (f x)) xs"
  by (induction xs) auto

text \<open>The mutation that a move submits is applied, and it exchanges two places of the order.\<close>

lemma move_applies:
  assumes ok: "ledger_ok l" and utf8: "ledger_utf8 l" and rev: "led_Revision l < 2 ^ 63 - 1"
    and turn: "pt_ObservedRevision turn = led_Revision l" "\<not> blank (pt_OperationID turn)" "\<not> blank (pt_OwnerTurnID turn)"
    and sel: "index_of (\<lambda>i. i = act_TargetID action) (execution_order l) = Some s"
  shows "\<exists>m nxt. moveLedgerItem l turn action = Inr m \<and> ApplyPlanningMutation l m = Inr nxt \<and>
    execution_order nxt = swap s (move_neighbor (length (execution_order l)) s (act_Move action)) (execution_order l) \<and>
    map forget_rank (led_Tasks nxt) = map forget_rank (led_Tasks l)"
proof -
  let ?ts = "ordered_tasks l" and ?n = "move_neighbor (length (ordered_tasks l)) s (act_Move action)"
  let ?ranks = "move_ranks ?ts s ?n (act_TargetID action)"
  let ?l = "l\<lparr>led_Tasks := map (set_ranks (map_of ?ranks)) (led_Tasks l)\<rparr>"
  let ?m = "\<lparr>mut_OperationID = pt_OperationID turn, mut_BaseRevision = pt_ObservedRevision turn,
      mut_OwnerTurnID = pt_OwnerTurnID turn, mut_OwnerTurnDisposition = RepresentedOwnerTurn (map fst ?ranks),
      mut_Operations = map (reorder_operation (act_Rationale action)) ?ranks\<rparr>"
  have dist: "distinct (ledger_ids l)" using ok by (simp add: ledger_ok_def)
  have sel': "index_of (\<lambda>t. task_ID t = act_TargetID action) ?ts = Some s"
    using sel by (simp add: execution_order_def index_of_map)
  note s = index_of_Some [OF sel']
  have n: "?n < length ?ts" using s by (intro move_neighbor_less) auto
  have change: "rank_change l ?ranks" using ok s n by (intro rank_change_move) auto
  have mok: "mutation_ok ?m"
    using reorder_operations_ok [OF ok change] change turn ok ledger_ok_nonblank [OF ok]
    by (auto simp: mutation_ok_def RepresentedOwnerTurn_def statement_ok_def rank_change_def ledger_ok_def)
  have "ApplyPlanningMutation l ?m = Inr (?l\<lparr>led_Revision := led_Revision l + 1\<rparr>)"
    using rank_mutation_applies [OF ok utf8 rev change _ _ mok, of "act_Rationale action"] turn(1) by simp
  moreover have "moveLedgerItem l turn action = Inr ?m"
    using mok sel' by (simp add: moveLedgerItem_def Let_def err_simps)
  moreover have "ordered_tasks ?l = map (set_ranks (map_of ?ranks)) (swap s ?n ?ts)"
    using sorted_move [OF sorted_ordered distinct_ordered [OF dist]] s n
    by (intro ordered_after_ranks dist) auto
  then have "execution_order (?l\<lparr>led_Revision := r\<rparr>) = swap s ?n (map task_ID ?ts)" for r
    using s n by (simp add: execution_order_def ordered_tasks_def active_tasks_def comp_def map_swap)
  ultimately show ?thesis by (auto simp: execution_order_def)
qed

end
