(* ===== verification/Planning_Details.thy ===== *)
theory Planning_Details
  imports Planning_Order
begin

text \<open>
  Identity and lifecycle of extracted tasks (\<^verbatim>\<open>planning_parser_result.go\<close>,
  \<^verbatim>\<open>planning_parser_patch.go\<close>): the code binds identities, ranks, provenance and criterion
  identities, and an amendment is a sparse patch of the task it names.

  The text of a model's answer is decoded by the caller of these definitions: a \<open>raw_task\<close> holds the
  fields that the answer gives (\<open>None\<close> for an absent or null one), \<open>RawInvalid\<close> an item that does
  not decode. The digest of the response is the parameter \<open>digest\<close>.
\<close>

section \<open>Binding the details of a task\<close>

definition criterion_id :: "nat \<Rightarrow> string" where
  "criterion_id n = ''criterion_'' @ decimal n"

lemma criterion_id_inject [simp]: "criterion_id m = criterion_id n \<longleftrightarrow> m = n"
  by (simp add: criterion_id_def)

definition used_from :: "string list \<Rightarrow> nat \<Rightarrow> string set" where
  "used_from used n = set used \<inter> criterion_id ` {n..}"

lemma used_from_Suc: "criterion_id n \<in> set used \<Longrightarrow> used_from used (Suc n) \<subset> used_from used n"
proof
  assume "criterion_id n \<in> set used"
  then have "criterion_id n \<in> used_from used n" "criterion_id n \<notin> used_from used (Suc n)"
    by (auto simp: used_from_def)
  then show "used_from used (Suc n) \<noteq> used_from used n" by blast
qed (auto simp: used_from_def)

lemma finite_used_from [simp]: "finite (used_from used n)"
  by (simp add: used_from_def)

function next_criterion :: "string list \<Rightarrow> nat \<Rightarrow> nat" where
  \<comment> \<open>\<^verbatim>\<open>for used[fmt.Sprintf("criterion_%d", next)] { next++ }\<close>\<close>
  "next_criterion used n = (if criterion_id n \<in> set used then next_criterion used (Suc n) else n)"
  by pat_completeness auto
termination
  by (relation "measure (\<lambda>(used, n). card (used_from used n))")
     (auto intro!: psubset_card_mono used_from_Suc)

declare next_criterion.simps [simp del]

fun bindAcceptance :: "(string \<rightharpoonup> string) \<Rightarrow> string list \<Rightarrow> nat \<Rightarrow> TaskAcceptance list \<Rightarrow> TaskAcceptance list" where
  "bindAcceptance criteria used n [] = []"
| "bindAcceptance criteria used n (c # cs) =
     (case criteria (acc_Text c) of
        Some retained \<Rightarrow> c\<lparr>acc_ID := retained\<rparr> # bindAcceptance criteria used n cs
      | None \<Rightarrow>
          (let n' = next_criterion used n; i = criterion_id n'
           in c\<lparr>acc_ID := i\<rparr> # bindAcceptance criteria (i # used) n' cs))"

definition original_contexts :: "LedgerTask option \<Rightarrow> string \<rightharpoonup> LedgerProvenance" where
  "original_contexts original =
     (case original of None \<Rightarrow> Map.empty
      | Some t \<Rightarrow> map_of (rev (map (\<lambda>c. (ctx_Text c, ctx_Provenance c)) (task_OwnerContext t))))"

definition original_criteria :: "LedgerTask option \<Rightarrow> string \<rightharpoonup> string" where
  "original_criteria original =
     (case original of None \<Rightarrow> Map.empty
      | Some t \<Rightarrow> map_of (rev (map (\<lambda>a. (acc_Text a, acc_ID a)) (task_Acceptance t))))"

definition original_used :: "LedgerTask option \<Rightarrow> string list" where
  "original_used original = (case original of None \<Rightarrow> [] | Some t \<Rightarrow> map acc_ID (task_Acceptance t))"

definition bindPlanningDetails :: "LedgerTask \<Rightarrow> LedgerTask option \<Rightarrow> LedgerProvenance \<Rightarrow> LedgerTask" where
  "bindPlanningDetails t original provenance =
     t\<lparr>task_OwnerContext :=
         map (\<lambda>c. c\<lparr>ctx_Provenance := (case original_contexts original (ctx_Text c) of
                                          Some retained \<Rightarrow> retained | None \<Rightarrow> provenance)\<rparr>) (task_OwnerContext t),
       task_Acceptance :=
         bindAcceptance (original_criteria original) (original_used original) 1 (task_Acceptance t)\<rparr>"

definition planning_task_id :: "(string \<Rightarrow> string) \<Rightarrow> string \<Rightarrow> nat \<Rightarrow> LedgerItemID" where
  "planning_task_id digest response index = ''p_'' @ take 12 (digest response) @ ''_'' @ decimal index @ ''_task''"

definition bindPlanningTask :: "(string \<Rightarrow> string) \<Rightarrow> string \<Rightarrow> LedgerTask \<Rightarrow> nat \<Rightarrow> int \<Rightarrow> int \<Rightarrow> LedgerTask" where
  "bindPlanningTask digest response t index rank revision =
     (let i = planning_task_id digest response index;
          provenance = \<lparr>prov_Kind = ''final_response_statement'', prov_Reference = i, prov_Revision = revision\<rparr>
      in bindPlanningDetails
           (t\<lparr>task_Item := \<lparr>item_ID = i, item_Provenance = provenance, item_Rationale = [], item_Rank = rank,
                           item_Disposition = LedgerDispositionActive, item_ReviewState = LedgerReviewProposed\<rparr>\<rparr>)
           None provenance)"

subsection \<open>Identities of criteria\<close>

lemma next_criterion_fresh: "criterion_id (next_criterion used n) \<notin> set used"
  by (induction used n rule: next_criterion.induct) (subst next_criterion.simps, simp)

lemma next_criterion_ge: "n \<le> next_criterion used n"
  by (induction used n rule: next_criterion.induct) (subst next_criterion.simps, force)

lemma next_criterion_least: "n \<le> k \<Longrightarrow> k < next_criterion used n \<Longrightarrow> criterion_id k \<in> set used"
proof (induction used n rule: next_criterion.induct)
  case (1 used n)
  then show ?case
    by (cases "k = n") (auto simp: next_criterion.simps [of used n] split: if_splits)
qed

lemma bindAcceptance_fields:
  "map acc_Text (bindAcceptance criteria used n cs) = map acc_Text cs"
  "map acc_Verification (bindAcceptance criteria used n cs) = map acc_Verification cs"
  by (induction cs arbitrary: used n) (simp_all add: Let_def split: option.splits)

lemma bindAcceptance_ids:
  "c \<in> set (bindAcceptance criteria used n cs) \<Longrightarrow>
   criteria (acc_Text c) = Some (acc_ID c) \<or> criteria (acc_Text c) = None \<and> acc_ID c \<notin> set used"
proof (induction cs arbitrary: used n)
  case (Cons d ds)
  then show ?case using next_criterion_fresh by (fastforce simp: Let_def split: option.splits)
qed simp

lemma bindAcceptance_distinct:
  assumes "distinct (map acc_Text cs)" "inj_on criteria (dom criteria)" "ran criteria \<subseteq> set used"
  shows "distinct (map acc_ID (bindAcceptance criteria used n cs))"
  using assms
proof (induction cs arbitrary: used n)
  case (Cons c cs)
  show ?case
  proof (cases "criteria (acc_Text c)")
    case None
    let ?i = "criterion_id (next_criterion used n)"
    have "?i \<notin> ran criteria" using Cons.prems(3) next_criterion_fresh by auto
    then have "acc_ID d \<noteq> ?i" if "d \<in> set (bindAcceptance criteria (?i # used) m cs)" for d m
      using bindAcceptance_ids [OF that] by (auto simp: ran_def)
    then have "?i \<notin> acc_ID ` set (bindAcceptance criteria (?i # used) (next_criterion used n) cs)" by (metis imageE)
    moreover have "distinct (map acc_ID (bindAcceptance criteria (?i # used) (next_criterion used n) cs))"
      using Cons.prems by (intro Cons.IH) auto
    ultimately show ?thesis using None by (simp add: Let_def)
  next
    case (Some i)
    have "acc_ID d \<noteq> i" if d: "d \<in> set (bindAcceptance criteria used n cs)" for d
    proof
      assume "acc_ID d = i"
      moreover have "i \<in> set used" using Some Cons.prems(3) by (auto simp: ran_def)
      ultimately have "criteria (acc_Text d) = Some i" using bindAcceptance_ids [OF d] by auto
      then have "acc_Text d = acc_Text c" using Some Cons.prems(2) by (metis domI inj_onD)
      moreover have "acc_Text d \<in> acc_Text ` set cs"
        using d bindAcceptance_fields(1) [of criteria used n cs] by (metis image_eqI list.set_map)
      ultimately show False using Cons.prems(1) by simp
    qed
    then show ?thesis using Cons Some by auto
  qed
qed simp

lemma original_criteria_inj:
  assumes "\<And>t. original = Some t \<Longrightarrow> distinct (map acc_ID (task_Acceptance t))"
  shows "inj_on (original_criteria original) (dom (original_criteria original)) \<and>
    ran (original_criteria original) \<subseteq> set (original_used original)"
proof (cases original)
  case (Some t)
  let ?m = "map_of (rev (map (\<lambda>a. (acc_Text a, acc_ID a)) (task_Acceptance t)))"
  have inj: "inj_on acc_ID (set (task_Acceptance t))" using assms [OF Some] by (simp add: distinct_map)
  have mem: "\<exists>a\<in>set (task_Acceptance t). x = acc_Text a \<and> i = acc_ID a" if "?m x = Some i" for x i
    using map_of_SomeD [OF that] by auto
  have "x = y" if "?m x = Some i" "?m y = Some i" for x y i
    using mem [OF that(1)] mem [OF that(2)] inj by (auto dest: inj_onD)
  then have "inj_on ?m (dom ?m)" by (auto simp: inj_on_def)
  moreover have "ran ?m \<subseteq> acc_ID ` set (task_Acceptance t)" using mem by (fastforce simp: ran_def)
  ultimately show ?thesis by (simp add: original_criteria_def original_used_def Some)
qed (simp add: original_criteria_def original_used_def)

section \<open>Sparse patches\<close>

record raw_task =
  raw_Item :: LedgerItem
  raw_Goal :: "string option"
  raw_Objective :: "string option"
  raw_OwnerContext :: "TaskContext list option"
  raw_Constraints :: "string list option"
  raw_FileResponsibilities :: "TaskFileResponsibility list option"
  raw_Acceptance :: "TaskAcceptance list option"
  raw_ReadFiles :: "string list option"
  raw_WriteFiles :: "string list option"
  raw_DeleteFiles :: "string list option"

datatype raw_item = RawInvalid | RawItem "raw_task option"

record planningParserOperation =
  ppo_Kind :: LedgerMutationKind
  ppo_TargetID :: LedgerItemID
  ppo_Item :: "raw_item option"
  ppo_ReviewState :: LedgerReviewState
  ppo_Rank :: "int option"
  ppo_Rationale :: string

datatype parse_error = ItemUndecodable | PatchTargetMissing LedgerItemID | MutationNeedsLedger

definition raw_to_task :: "raw_task \<Rightarrow> LedgerTask" where
  \<comment> \<open>\<^verbatim>\<open>json.Unmarshal\<close> into a fresh task: an absent field is the zero value\<close>
  "raw_to_task r =
     \<lparr>task_Item = raw_Item r, task_Goal = case_option [] id (raw_Goal r), task_Objective = case_option [] id (raw_Objective r),
      task_OwnerContext = case_option [] id (raw_OwnerContext r), task_Constraints = case_option [] id (raw_Constraints r),
      task_FileResponsibilities = case_option [] id (raw_FileResponsibilities r),
      task_Acceptance = case_option [] id (raw_Acceptance r), task_ReadFiles = case_option [] id (raw_ReadFiles r),
      task_WriteFiles = case_option [] id (raw_WriteFiles r), task_DeleteFiles = case_option [] id (raw_DeleteFiles r)\<rparr>"

definition merge_task :: "LedgerTask \<Rightarrow> raw_task \<Rightarrow> LedgerTask" where
  "merge_task t r =
     t\<lparr>task_Goal := case_option (task_Goal t) id (raw_Goal r),
       task_Objective := case_option (task_Objective t) id (raw_Objective r),
       task_OwnerContext := case_option (task_OwnerContext t) id (raw_OwnerContext r),
       task_Constraints := case_option (task_Constraints t) id (raw_Constraints r),
       task_FileResponsibilities := case_option (task_FileResponsibilities t) id (raw_FileResponsibilities r),
       task_Acceptance := case_option (task_Acceptance t) id (raw_Acceptance r),
       task_ReadFiles := case_option (task_ReadFiles t) id (raw_ReadFiles r),
       task_WriteFiles := case_option (task_WriteFiles t) id (raw_WriteFiles r),
       task_DeleteFiles := case_option (task_DeleteFiles t) id (raw_DeleteFiles r)\<rparr>"

definition retainedPlanningItem :: "EngineeringLedger \<Rightarrow> LedgerItemID \<Rightarrow> LedgerMutationItem option" where
  "retainedPlanningItem l i = map_option (\<lambda>t. \<lparr>mi_Task = Some t\<rparr>) (first_with (\<lambda>t. task_ID t = i) (led_Tasks l))"

definition mergePlanningPatch ::
    "EngineeringLedger \<Rightarrow> LedgerItemID \<Rightarrow> raw_task option \<Rightarrow> parse_error + LedgerMutationItem" where
  "mergePlanningPatch l i patch =
     (case first_with (\<lambda>t. task_ID t = i) (led_Tasks l) of
        None \<Rightarrow> Inl (PatchTargetMissing i)
      | Some t \<Rightarrow> Inr \<lparr>mi_Task = Some (case patch of None \<Rightarrow> json_copy_task t | Some r \<Rightarrow> merge_task (json_copy_task t) r)\<rparr>)"

definition decode_item ::
    "EngineeringLedger \<Rightarrow> planningParserOperation \<Rightarrow> parse_error + LedgerMutationItem option" where
  "decode_item l value =
     (case ppo_Item value of
        None \<Rightarrow> Inr None
      | Some RawInvalid \<Rightarrow> Inl ItemUndecodable
      | Some (RawItem raw) \<Rightarrow>
          if ppo_Kind value = LedgerMutationAmend
          then bind_res (mergePlanningPatch l (ppo_TargetID value) raw) (\<lambda>item. Inr (Some item))
          else Inr (Some \<lparr>mi_Task = map_option (\<lambda>r.
                 if ppo_Kind value = LedgerMutationAdd
                 then on_item (\<lambda>item. item\<lparr>item_Disposition := LedgerDispositionActive,
                                          item_ReviewState := LedgerReviewProposed\<rparr>) (raw_to_task r)
                 else raw_to_task r) raw\<rparr>))"

definition materialize :: "EngineeringLedger \<Rightarrow> LedgerMutationOperation \<Rightarrow> EngineeringLedger" where
  "materialize l op =
     (case op_Kind op of
        LedgerMutationAdd \<Rightarrow> appendPlanningItem l (op_Item op)
      | LedgerMutationAmend \<Rightarrow> case_option l id (replacePlanningItem l (op_TargetID op) (op_Item op))
      | _ \<Rightarrow> l)"

fun decodePlanningLoop ::
    "EngineeringLedger \<Rightarrow> LedgerMutationOperation list \<Rightarrow> planningParserOperation list
     \<Rightarrow> parse_error + LedgerMutationOperation list" where
  "decodePlanningLoop l operations [] = Inr operations"
| "decodePlanningLoop l operations (value # rest) =
     bind_res (decode_item l value) (\<lambda>item.
       let op = \<lparr>op_Kind = ppo_Kind value, op_TargetID = ppo_TargetID value, op_Item = item,
                 op_ReviewState = ppo_ReviewState value, op_Rank = ppo_Rank value, op_Rationale = ppo_Rationale value\<rparr>
       in if op \<in> set operations then decodePlanningLoop l operations rest
          else decodePlanningLoop (materialize l op) (operations @ [op]) rest)"

definition decodePlanningOperations ::
    "EngineeringLedger \<Rightarrow> planningParserOperation list \<Rightarrow> parse_error + LedgerMutationOperation list" where
  "decodePlanningOperations l values = decodePlanningLoop l [] values"

subsection \<open>The mapped response\<close>

fun bindInitialTasks :: "(string \<Rightarrow> string) \<Rightarrow> string \<Rightarrow> nat \<Rightarrow> LedgerTask list \<Rightarrow> LedgerTask list" where
  "bindInitialTasks digest response index [] = []"
| "bindInitialTasks digest response index (t # ts) =
     bindPlanningTask digest response t (Suc index) (int (Suc index)) 1 # bindInitialTasks digest response (Suc index) ts"

definition mapPlanningInitial :: "(string \<Rightarrow> string) \<Rightarrow> int \<Rightarrow> string \<Rightarrow> LedgerTask list \<Rightarrow> EngineeringLedger" where
  "mapPlanningInitial digest job response tasks =
     \<lparr>led_ID = ''planning-'' @ Itoa job, led_Revision = 1, led_Tasks = bindInitialTasks digest response 0 tasks\<rparr>"

fun bindOperations ::
    "(string \<Rightarrow> string) \<Rightarrow> string \<Rightarrow> EngineeringLedger \<Rightarrow> nat \<Rightarrow> int \<Rightarrow> LedgerMutationOperation list \<Rightarrow> LedgerMutationOperation list" where
  "bindOperations digest response l index rank [] = []"
| "bindOperations digest response l index rank (op # ops) =
     (case op_Payload op of
        None \<Rightarrow> op # bindOperations digest response l (Suc index) rank ops
      | Some t \<Rightarrow>
          if op_Kind op = LedgerMutationAdd
          then op\<lparr>op_Item := Some \<lparr>mi_Task = Some
                   (bindPlanningTask digest response t (Suc index) (int64 (rank + 1)) (led_Revision l))\<rparr>\<rparr>
               # bindOperations digest response l (Suc index) (int64 (rank + 1)) ops
          else if op_Kind op = LedgerMutationAmend
          then (case first_with (\<lambda>u. task_ID u = op_TargetID op) (led_Tasks l) of
                  Some original \<Rightarrow>
                    op\<lparr>op_Item := Some \<lparr>mi_Task = Some (bindPlanningDetails t (Some original)
                        \<lparr>prov_Kind = ''final_response_statement'', prov_Reference = op_TargetID op,
                         prov_Revision = led_Revision l\<rparr>)\<rparr>\<rparr>
                | None \<Rightarrow> op) # bindOperations digest response l (Suc index) rank ops
          else op # bindOperations digest response l (Suc index) rank ops)"

definition mapPlanningMutation ::
    "(string \<Rightarrow> string) \<Rightarrow> string \<Rightarrow> EngineeringLedger option \<Rightarrow> planningParserOperation list
     \<Rightarrow> parse_error + LedgerMutationOperation list" where
  "mapPlanningMutation digest response ledger values =
     (case ledger of
        None \<Rightarrow> Inl MutationNeedsLedger
      | Some l \<Rightarrow>
          bind_res (decodePlanningOperations l values) (\<lambda>ops.
            Inr (bindOperations digest response l 0 (fold (\<lambda>t r. max r (task_Rank t)) (led_Tasks l) 0) ops)))"

subsection \<open>An amendment keeps what the parser does not own\<close>

abbreviation task_at :: "EngineeringLedger \<Rightarrow> LedgerItemID \<Rightarrow> LedgerTask option" where
  "task_at l i \<equiv> first_with (\<lambda>t. task_ID t = i) (led_Tasks l)"

lemma task_at_append: "task_at l i = Some t \<Longrightarrow> task_at (appendPlanningItem l item) i = Some t"
  by (auto simp: appendPlanningItem_def first_with_append split: option.splits)

lemma replace_first_with:
  "replace_first j u ts = Some us \<Longrightarrow> task_ID u = j \<Longrightarrow>
   first_with (\<lambda>t. task_ID t = i) us = (if i = j then Some u else first_with (\<lambda>t. task_ID t = i) ts)"
  by (induction ts arbitrary: us) (auto split: if_splits)

lemma task_at_replace:
  "replacePlanningItem l j item = Some l' \<Longrightarrow> Option.bind item mi_Task = Some u \<Longrightarrow> task_ID u = j \<Longrightarrow>
   task_at l' i = (if i = j then Some u else task_at l i)"
  by (auto simp: replacePlanningItem_def bind_eq_Some_conv replace_first_with split: option.splits)

definition keeps_items :: "EngineeringLedger \<Rightarrow> EngineeringLedger \<Rightarrow> bool" where
  \<comment> \<open>every task of the first ledger is in the second with the same identity, rank and lifecycle\<close>
  "keeps_items l l' \<longleftrightarrow> (\<forall>i t. task_at l i = Some t \<longrightarrow> (\<exists>u. task_at l' i = Some u \<and> task_Item u = task_Item t))"

lemma merge_task_Item: "item_utf8 (task_Item t) \<Longrightarrow> task_Item (merge_task (json_copy_task t) r) = task_Item t"
  by (simp add: merge_task_def json_copy_task_def json_copy_item_id)

lemma json_copy_task_Item: "item_utf8 (task_Item t) \<Longrightarrow> task_Item (json_copy_task t) = task_Item t"
  by (simp add: json_copy_task_def json_copy_item_id)

lemma decode_item_amend:
  assumes "decode_item l value = Inr (Some item)" "ppo_Kind value = LedgerMutationAmend"
    "task_at l (ppo_TargetID value) = Some t" "item_utf8 (task_Item t)"
  shows "\<exists>u. item = \<lparr>mi_Task = Some u\<rparr> \<and> task_Item u = task_Item t"
  using assms
  by (auto simp: decode_item_def mergePlanningPatch_def merge_task_Item json_copy_task_Item
      split: option.splits raw_item.splits)

lemma decode_item_amend_found:
  assumes "decode_item l value = Inr (Some item)" "ppo_Kind value = LedgerMutationAmend"
  shows "\<exists>t. task_at l (ppo_TargetID value) = Some t"
  using assms by (auto simp: decode_item_def mergePlanningPatch_def split: option.splits raw_item.splits)

definition ledger_items_utf8 :: "EngineeringLedger \<Rightarrow> bool" where
  "ledger_items_utf8 l \<longleftrightarrow> (\<forall>t\<in>set (led_Tasks l). item_utf8 (task_Item t))"

definition decoded_utf8 :: "planningParserOperation \<Rightarrow> bool" where
  \<comment> \<open>\<^verbatim>\<open>encoding/json\<close> only produces valid UTF-8\<close>
  "decoded_utf8 value \<longleftrightarrow> (case ppo_Item value of Some (RawItem (Some r)) \<Rightarrow> item_utf8 (raw_Item r) | _ \<Rightarrow> True)"

lemma replace_first_items:
  "replace_first j u ts = Some us \<Longrightarrow> t \<in> set us \<Longrightarrow> t = u \<or> t \<in> set ts"
  by (induction ts arbitrary: us) (auto split: if_splits)

lemma replacePlanningItem_items:
  "replacePlanningItem l j item = Some l' \<Longrightarrow> Option.bind item mi_Task = Some u \<Longrightarrow> t \<in> set (led_Tasks l') \<Longrightarrow>
   t = u \<or> t \<in> set (led_Tasks l)"
  by (auto simp: replacePlanningItem_def bind_eq_Some_conv dest: replace_first_items split: option.splits)

lemma materialize_amend:
  assumes l: "keeps_items l0 l" "ledger_items_utf8 l"
    and item: "decode_item l v = Inr (op_Item op)" "op_Kind op = ppo_Kind v" "op_TargetID op = ppo_TargetID v"
    and kind: "op_Kind op = LedgerMutationAmend" and it: "op_Item op = Some it"
  shows "keeps_items l0 (materialize l op) \<and> ledger_items_utf8 (materialize l op)"
proof -
  obtain t where t: "task_at l (op_TargetID op) = Some t"
    using decode_item_amend_found [of l v it] item kind it by auto
  then have utf: "item_utf8 (task_Item t)" "task_ID t = op_TargetID op"
    using l(2) by (auto simp: ledger_items_utf8_def dest: first_with_Some)
  obtain u where u: "it = \<lparr>mi_Task = Some u\<rparr>" "task_Item u = task_Item t"
    using decode_item_amend [of l v it t] item kind it t utf by auto
  show ?thesis
  proof (cases "replacePlanningItem l (op_TargetID op) (op_Item op)")
    case None
    then show ?thesis using l kind by (simp add: materialize_def)
  next
    case (Some l')
    have at: "task_at l' i = (if i = op_TargetID op then Some u else task_at l i)" for i
      using task_at_replace [OF Some, of u i] it u utf by simp
    have "keeps_items l0 l'"
      using l(1) t u(2) unfolding keeps_items_def at by fastforce
    moreover have "ledger_items_utf8 l'"
      using replacePlanningItem_items [OF Some, of u] it u utf l(2) unfolding ledger_items_utf8_def by fastforce
    ultimately show ?thesis using Some kind by (simp add: materialize_def)
  qed
qed

lemma decode_item_add:
  assumes "decode_item l v = Inr (Some it)" "ppo_Kind v = LedgerMutationAdd" "decoded_utf8 v" "mi_Task it = Some u"
  shows "item_utf8 (task_Item u)"
proof -
  obtain raw where raw: "ppo_Item v = Some (RawItem raw)"
    using assms(1) unfolding decode_item_def by (simp split: option.splits raw_item.splits)
  then obtain r where r: "raw = Some r"
    using assms(1,2,4) unfolding decode_item_def by (cases raw) auto
  have "u = on_item (\<lambda>item. item\<lparr>item_Disposition := LedgerDispositionActive,
      item_ReviewState := LedgerReviewProposed\<rparr>) (raw_to_task r)"
    using assms(1,2,4) unfolding decode_item_def raw r by auto
  then show ?thesis using assms(3) by (simp add: decoded_utf8_def item_utf8_def raw r raw_to_task_def)
qed

lemma materialize_add:
  assumes l: "keeps_items l0 l" "ledger_items_utf8 l" "decoded_utf8 v"
    and item: "decode_item l v = Inr (op_Item op)" "op_Kind op = ppo_Kind v" "op_Kind op = LedgerMutationAdd"
  shows "keeps_items l0 (materialize l op) \<and> ledger_items_utf8 (materialize l op)"
proof -
  have "item_utf8 (task_Item u)" if "op_Item op = Some it" "mi_Task it = Some u" for it u
    using decode_item_add [of l v it u] item l(3) that by simp
  then have "ledger_items_utf8 (appendPlanningItem l (op_Item op))"
    using l(2) by (simp add: ledger_items_utf8_def appendPlanningItem_def split: option.splits)
  moreover have "keeps_items l0 (appendPlanningItem l (op_Item op))"
    unfolding keeps_items_def
  proof (intro allI impI)
    fix i t assume "task_at l0 i = Some t"
    then obtain u where u: "task_at l i = Some u" "task_Item u = task_Item t"
      using l(1) unfolding keeps_items_def by metis
    show "\<exists>u. task_at (appendPlanningItem l (op_Item op)) i = Some u \<and> task_Item u = task_Item t"
      using task_at_append [OF u(1), of "op_Item op"] u(2) by simp
  qed
  ultimately show ?thesis using item(3) by (simp add: materialize_def)
qed

lemma materialize_keeps:
  assumes l: "keeps_items l0 l" "ledger_items_utf8 l" "decoded_utf8 v"
    and item: "decode_item l v = Inr (op_Item op)" "op_Kind op = ppo_Kind v" "op_TargetID op = ppo_TargetID v"
  shows "keeps_items l0 (materialize l op) \<and> ledger_items_utf8 (materialize l op)"
proof (cases "op_Kind op")
  case LedgerMutationAdd
  then show ?thesis using materialize_add [OF l item(1,2)] by simp
next
  case LedgerMutationAmend
  show ?thesis
  proof (cases "op_Item op")
    case None
    then show ?thesis using l LedgerMutationAmend by (simp add: materialize_def replacePlanningItem_def)
  next
    case (Some it)
    then show ?thesis by (rule materialize_amend [OF l(1,2) item LedgerMutationAmend])
  qed
qed (use l in \<open>simp_all add: materialize_def\<close>)

definition amend_keeps :: "EngineeringLedger \<Rightarrow> LedgerMutationOperation \<Rightarrow> bool" where
  "amend_keeps l op \<longleftrightarrow> (\<forall>t u. op_Kind op = LedgerMutationAmend \<longrightarrow> task_at l (op_TargetID op) = Some t \<longrightarrow>
     op_Payload op = Some u \<longrightarrow> task_Item u = task_Item t)"

definition decoded_operation :: "planningParserOperation \<Rightarrow> LedgerMutationItem option \<Rightarrow> LedgerMutationOperation" where
  "decoded_operation v item = \<lparr>op_Kind = ppo_Kind v, op_TargetID = ppo_TargetID v, op_Item = item,
     op_ReviewState = ppo_ReviewState v, op_Rank = ppo_Rank v, op_Rationale = ppo_Rationale v\<rparr>"

lemma decodePlanningLoop_step:
  "decodePlanningLoop l ops (v # vs) = Inr ops' \<longleftrightarrow>
   (\<exists>item. decode_item l v = Inr item \<and>
     (if decoded_operation v item \<in> set ops then decodePlanningLoop l ops vs = Inr ops'
      else decodePlanningLoop (materialize l (decoded_operation v item)) (ops @ [decoded_operation v item]) vs = Inr ops'))"
  by (auto simp: decoded_operation_def Let_def)

lemma decoded_amend_keeps:
  assumes "keeps_items l0 l" "ledger_items_utf8 l" "decode_item l v = Inr item"
  shows "amend_keeps l0 (decoded_operation v item)"
  unfolding amend_keeps_def decoded_operation_def op_Payload_def
proof (intro allI impI, simp add: bind_eq_Some_conv, elim exE conjE)
  fix t u it
  assume a: "ppo_Kind v = LedgerMutationAmend" "task_at l0 (ppo_TargetID v) = Some t" "item = Some it" "mi_Task it = Some u"
  then obtain t' where t': "task_at l (ppo_TargetID v) = Some t'" "task_Item t' = task_Item t"
    using assms(1) by (auto simp: keeps_items_def)
  have "item_utf8 (task_Item t')"
    using assms(2) first_with_Some [OF t'(1)] by (auto simp: ledger_items_utf8_def)
  then show "task_Item u = task_Item t"
    using decode_item_amend [of l v it t'] assms(3) a t' by auto
qed

lemma decodePlanningLoop_keeps:
  assumes "keeps_items l0 l" "ledger_items_utf8 l" "\<forall>v\<in>set vs. decoded_utf8 v"
    "distinct ops" "\<forall>op\<in>set ops. amend_keeps l0 op" "decodePlanningLoop l ops vs = Inr ops'"
  shows "distinct ops' \<and> (\<forall>op\<in>set ops'. amend_keeps l0 op)"
  using assms
proof (induction vs arbitrary: l ops)
  case (Cons v vs)
  obtain item where item: "decode_item l v = Inr item"
    and rest: "if decoded_operation v item \<in> set ops then decodePlanningLoop l ops vs = Inr ops'
      else decodePlanningLoop (materialize l (decoded_operation v item)) (ops @ [decoded_operation v item]) vs = Inr ops'"
    using Cons.prems(6) unfolding decodePlanningLoop_step by auto
  have keep: "keeps_items l0 (materialize l (decoded_operation v item)) \<and>
      ledger_items_utf8 (materialize l (decoded_operation v item))"
    using Cons.prems item by (intro materialize_keeps [of _ _ v]) (simp_all add: decoded_operation_def)
  show ?case
  proof (cases "decoded_operation v item \<in> set ops")
    case True
    then show ?thesis using Cons.IH [of l ops] Cons.prems rest by simp
  next
    case False
    then show ?thesis
      using Cons.IH [of "materialize l (decoded_operation v item)" "ops @ [decoded_operation v item]"] Cons.prems rest keep
        decoded_amend_keeps [OF Cons.prems(1,2) item] by simp
  qed
qed auto

end
