(* ===== verification/Samples.thy ===== *)
theory Samples
  imports Planning_Apply
begin

text \<open>
  A small ledger with an agreed, a proposed and a removed task, and mutations of it, on which the
  hypotheses of the general statements are evaluated.
\<close>

definition sample_item :: "string \<Rightarrow> int \<Rightarrow> LedgerDisposition \<Rightarrow> LedgerReviewState \<Rightarrow> LedgerItem" where
  "sample_item i r d s =
     \<lparr>item_ID = i, item_Provenance = \<lparr>prov_Kind = ''owner_turn'', prov_Reference = ''turn-1'', prov_Revision = 1\<rparr>,
      item_Rationale = [], item_Rank = r, item_Disposition = d, item_ReviewState = s\<rparr>"

definition sample_task :: "LedgerItem \<Rightarrow> string \<Rightarrow> LedgerTask" where
  "sample_task item goal =
     \<lparr>task_Item = item, task_Goal = goal, task_Objective = [], task_OwnerContext = [], task_Constraints = [],
      task_FileResponsibilities = [], task_Acceptance = [], task_ReadFiles = [''a.go''], task_WriteFiles = [''b.go''],
      task_DeleteFiles = []\<rparr>"

definition sample_a :: LedgerTask where
  "sample_a = sample_task (sample_item ''a'' 0 LedgerDispositionActive LedgerReviewAgreed) ''parse''"

definition sample_b :: LedgerTask where
  "sample_b = sample_task (sample_item ''b'' 4 LedgerDispositionActive LedgerReviewProposed) ''print''"

definition sample_c :: LedgerTask where
  "sample_c = sample_task (sample_item ''c'' 4 LedgerDispositionTombstoned LedgerReviewNone) ''drop''"

definition sample_ledger :: EngineeringLedger where
  "sample_ledger = \<lparr>led_ID = ''planning-1'', led_Revision = 3, led_Tasks = [sample_a, sample_b, sample_c]\<rparr>"

definition sample_operation :: "LedgerMutationKind \<Rightarrow> LedgerItemID \<Rightarrow> LedgerMutationOperation" where
  "sample_operation kind target =
     \<lparr>op_Kind = kind, op_TargetID = target, op_Item = None, op_ReviewState = LedgerReviewNone, op_Rank = None,
      op_Rationale = []\<rparr>"

definition sample_mutation :: "int \<Rightarrow> LedgerMutationOperation list \<Rightarrow> LedgerMutation" where
  "sample_mutation base ops =
     \<lparr>mut_OperationID = ''op-1'', mut_BaseRevision = base, mut_OwnerTurnID = ''turn-2'',
      mut_OwnerTurnDisposition = RepresentedOwnerTurn [''a''], mut_Operations = ops\<rparr>"

definition sample_remove :: LedgerMutation where
  "sample_remove = sample_mutation 3 [sample_operation LedgerMutationRemove ''a'']"

definition sample_removed :: EngineeringLedger where
  "sample_removed =
     \<lparr>led_ID = ''planning-1'', led_Revision = 4,
      led_Tasks = [sample_task (sample_item ''a'' 0 LedgerDispositionTombstoned LedgerReviewNone) ''parse'',
        sample_b, sample_c]\<rparr>"

definition sample_restore :: LedgerMutation where
  "sample_restore = sample_mutation 4 [sample_operation LedgerMutationRestore ''a'']"

definition sample_restored :: EngineeringLedger where
  "sample_restored =
     \<lparr>led_ID = ''planning-1'', led_Revision = 5,
      led_Tasks = [sample_task (sample_item ''a'' 0 LedgerDispositionActive LedgerReviewProposed) ''parse'',
        sample_b, sample_c]\<rparr>"

lemma sample_ledger_ok: "ledger_ok sample_ledger" "ledger_utf8 sample_ledger" "is_int64 (led_Revision sample_ledger)"
  "ledger_stored sample_ledger"
  by code_simp+

lemma sample_remove_applies: "ApplyPlanningMutation sample_ledger sample_remove = Inr sample_removed"
  by code_simp

lemma sample_restore_applies: "ApplyPlanningMutation sample_removed sample_restore = Inr sample_restored"
  by code_simp

end
