(* ===== verification/Planning_Actions.thy ===== *)
theory Planning_Actions
  imports Planning_Details Samples
begin

text \<open>
  Explicit owner actions (\<^verbatim>\<open>DirectPlanningItemMutation\<close>, \<^verbatim>\<open>DirectPlanningMutation\<close>
  in \<^verbatim>\<open>planning_mutation.go\<close>), the disposition bound to a parsed turn
  (\<^verbatim>\<open>planning_chat.go\<close>), and the read-only projections that planning shows: the tasks that
  precede a selected one (\<^verbatim>\<open>planning_prerequisites.go\<close>) and the active ledger
  (\<^verbatim>\<open>planning_ledger_context.go\<close>).
\<close>

section \<open>Owner actions\<close>

definition DirectPlanningMutation :: "PlanningTurn \<Rightarrow> DirectPlanningAction \<Rightarrow> action_error + LedgerMutation" where
  "DirectPlanningMutation turn action =
     check_res (PlanningTurn_validate turn False)
     (if act_Kind action \<in> {LedgerMutationRemove, LedgerMutationRestore, LedgerMutationReview, LedgerMutationReorder}
      then (let m = \<lparr>mut_OperationID = pt_OperationID turn, mut_BaseRevision = pt_ObservedRevision turn,
                     mut_OwnerTurnID = pt_OwnerTurnID turn,
                     mut_OwnerTurnDisposition = \<lparr>turn_Statements =
                       [\<lparr>stmt_Kind = OwnerTurnRepresented, stmt_ItemIDs = [act_TargetID action], stmt_Reason = []\<rparr>]\<rparr>,
                     mut_Operations =
                       [\<lparr>op_Kind = act_Kind action, op_TargetID = act_TargetID action, op_Item = None,
                         op_ReviewState = act_ReviewState action, op_Rank = act_Rank action,
                         op_Rationale = act_Rationale action\<rparr>]\<rparr>
            in check_res (map_option ActionMutation (ValidateLedgerMutation (pt_ObservedRevision turn) m)) (Inr m))
      else Inl (ActionNeedsInterpretation (act_Kind action)))"

definition manual_provenance :: "EngineeringLedger \<Rightarrow> PlanningTurn \<Rightarrow> LedgerProvenance" where
  "manual_provenance l turn =
     \<lparr>prov_Kind = ''owner_turn'', prov_Reference = pt_OwnerTurnID turn, prov_Revision = int64 (led_Revision l + 1)\<rparr>"

definition manual_rank :: "LedgerTask list \<Rightarrow> int" where
  "manual_rank ts = fold (\<lambda>t rank. max rank (int64 (task_Rank t + 1))) ts 0"

definition manual_item :: "EngineeringLedger \<Rightarrow> PlanningTurn \<Rightarrow> LedgerItem" where
  "manual_item l turn =
     \<lparr>item_ID = ''manual-'' @ pt_OperationID turn, item_Provenance = manual_provenance l turn, item_Rationale = [],
      item_Rank = manual_rank (led_Tasks l), item_Disposition = LedgerDispositionActive,
      item_ReviewState = LedgerReviewProposed\<rparr>"

definition manual_mutation :: "PlanningTurn \<Rightarrow> DirectPlanningAction \<Rightarrow> LedgerTask \<Rightarrow> LedgerMutation" where
  "manual_mutation turn action t =
     \<lparr>mut_OperationID = pt_OperationID turn, mut_BaseRevision = pt_ObservedRevision turn,
      mut_OwnerTurnID = pt_OwnerTurnID turn, mut_OwnerTurnDisposition = RepresentedOwnerTurn [task_ID t],
      mut_Operations =
        [\<lparr>op_Kind = act_Kind action, op_TargetID = (if act_Kind action = LedgerMutationAmend then task_ID t else []),
          op_Item = Some \<lparr>mi_Task = Some t\<rparr>, op_ReviewState = LedgerReviewNone, op_Rank = None,
          op_Rationale = act_Rationale action\<rparr>]\<rparr>"

definition DirectPlanningItemMutation ::
    "EngineeringLedger \<Rightarrow> PlanningTurn \<Rightarrow> DirectPlanningAction \<Rightarrow> action_error + LedgerMutation" where
  "DirectPlanningItemMutation l turn action =
     (if act_Kind action = LedgerMutationReorder \<and> act_Move action \<noteq> 0 then moveLedgerItem l turn action
      else if act_Kind action \<noteq> LedgerMutationAdd \<and> act_Kind action \<noteq> LedgerMutationAmend
      then DirectPlanningMutation turn action
      else case act_Item action of
        None \<Rightarrow> Inl ActionTaskRequired
      | Some t \<Rightarrow>
          bind_res
            (if act_Kind action = LedgerMutationAdd
             then Inr (bindPlanningDetails (t\<lparr>task_Item := manual_item l turn\<rparr>) None (manual_provenance l turn))
             else case task_at l (act_TargetID action) of
                    None \<Rightarrow> Inl ActionTaskMissing
                  | Some original \<Rightarrow>
                      Inr (bindPlanningDetails (t\<lparr>task_Item := task_Item original\<rparr>) (Some original) (manual_provenance l turn)))
            (\<lambda>t'. let m = manual_mutation turn action t'
                  in check_res (map_option (\<lambda>e. ActionMutation (LedgerError e)) (LedgerMutation_Validate m)) (Inr m)))"

section \<open>The disposition of a parsed turn\<close>

definition samePlanningDirection :: "PlanningDirection option \<Rightarrow> PlanningDirection option \<Rightarrow> bool" where
  "samePlanningDirection left right =
     (case (left, right) of (Some l, Some r) \<Rightarrow> l = r | _ \<Rightarrow> left = None \<and> right = None)"

definition operation_subject :: "LedgerMutationOperation \<Rightarrow> LedgerItemID" where
  "operation_subject op =
     (if op_Kind op = LedgerMutationAdd then planningMutationItemID (op_Item op) else op_TargetID op)"

fun subjects :: "LedgerItemID list \<Rightarrow> LedgerMutationOperation list \<Rightarrow> LedgerItemID list" where
  "subjects seen [] = []"
| "subjects seen (op # ops) =
     (let i = operation_subject op in
      if i \<noteq> [] \<and> i \<notin> set seen then i # subjects (i # seen) ops else subjects seen ops)"

definition parsedPlanningDisposition ::
    "EngineeringLedger \<Rightarrow> LedgerMutationOperation list option \<Rightarrow> OwnerTurnDisposition" where
  "parsedPlanningDisposition l operations =
     (let ids = (case operations of
            None \<Rightarrow> map task_ID (active_tasks l)
          | Some ops \<Rightarrow> subjects [] ops)
      in if ids = [] then \<lparr>turn_Statements = []\<rparr> else RepresentedOwnerTurn ids)"

section \<open>Projections\<close>

record PlanningTaskPrerequisite =
  pre_ID :: LedgerItemID
  pre_Name :: string
  pre_Objective :: string
  pre_Constraints :: "string list"
  pre_Acceptance :: "string list"

definition prerequisite :: "LedgerTask \<Rightarrow> PlanningTaskPrerequisite" where
  "prerequisite t =
     \<lparr>pre_ID = task_ID t, pre_Name = task_Goal t, pre_Objective = task_Objective t,
      pre_Constraints = task_Constraints t, pre_Acceptance = map acc_Text (task_Acceptance t)\<rparr>"

definition precedingIncompletePlanningTasks ::
    "EngineeringLedger \<Rightarrow> LedgerItemID \<Rightarrow> string list \<Rightarrow> PlanningTaskPrerequisite list" where
  "precedingIncompletePlanningTasks l selected completed =
     (case task_at l selected of
        None \<Rightarrow> []
      | Some target \<Rightarrow>
          map prerequisite (sort_key order_key
            (filter (\<lambda>t. \<not> (\<not> task_active t \<or> task_ID t \<in> set completed) \<and>
                (task_Rank t < task_Rank target \<or> task_Rank t = task_Rank target \<and> task_ID t < task_ID target))
              (led_Tasks l))))"

record PlanningContextItem =
  pci_Objective :: string
  pci_OwnerContext :: "TaskContext list"
  pci_Constraints :: "string list"
  pci_FileResponsibilities :: "TaskFileResponsibility list"
  pci_Acceptance :: "TaskAcceptance list"
  pci_ID :: LedgerItemID
  pci_Kind :: string
  pci_Text :: string
  pci_ReviewState :: LedgerReviewState
  pci_ReadFiles :: "string list"
  pci_WriteFiles :: "string list"
  pci_DeleteFiles :: "string list"

record PlanningLedgerContext =
  plc_Revision :: int
  plc_Items :: "PlanningContextItem list"

definition context_item :: "LedgerTask \<Rightarrow> PlanningContextItem" where
  "context_item t =
     \<lparr>pci_Objective = task_Objective t, pci_OwnerContext = task_OwnerContext t, pci_Constraints = task_Constraints t,
      pci_FileResponsibilities = task_FileResponsibilities t, pci_Acceptance = task_Acceptance t, pci_ID = task_ID t,
      pci_Kind = ''task'', pci_Text = task_Goal t, pci_ReviewState = task_ReviewState t,
      pci_ReadFiles = task_ReadFiles t, pci_WriteFiles = task_WriteFiles t, pci_DeleteFiles = task_DeleteFiles t\<rparr>"

definition ActivePlanningLedgerContext :: "EngineeringLedger option \<Rightarrow> string list \<Rightarrow> PlanningLedgerContext option" where
  "ActivePlanningLedgerContext ledger completed =
     map_option (\<lambda>l. \<lparr>plc_Revision = led_Revision l,
        plc_Items = map context_item
          (filter (\<lambda>t. \<not> (\<not> task_active t \<or> task_ID t \<in> set completed)) (led_Tasks l))\<rparr>) ledger"

section \<open>A manual addition goes to the end\<close>

lemma manual_rank_ge:
  assumes "\<And>t. t \<in> set ts \<Longrightarrow> 0 \<le> task_Rank t \<and> task_Rank t < 2 ^ 63 - 1" "0 \<le> r"
  shows "r \<le> fold (\<lambda>t rank. max rank (int64 (task_Rank t + 1))) ts r \<and>
    (\<forall>t\<in>set ts. task_Rank t < fold (\<lambda>t rank. max rank (int64 (task_Rank t + 1))) ts r)"
  using assms
proof (induction ts arbitrary: r)
  case (Cons t ts)
  have i: "int64 (task_Rank t + 1) = task_Rank t + 1"
    using Cons.prems(1) [of t] by (simp add: is_int64_def)
  have "max r (task_Rank t + 1) \<le> fold (\<lambda>t rank. max rank (int64 (task_Rank t + 1))) ts (max r (task_Rank t + 1)) \<and>
    (\<forall>u\<in>set ts. task_Rank u < fold (\<lambda>t rank. max rank (int64 (task_Rank t + 1))) ts (max r (task_Rank t + 1)))"
    using Cons.prems by (intro Cons.IH) auto
  then show ?case by (auto simp: i)
qed simp

lemma bindPlanningDetails_fields [simp]:
  "task_Item (bindPlanningDetails t original p) = task_Item t" "task_Goal (bindPlanningDetails t original p) = task_Goal t"
  "task_ReadFiles (bindPlanningDetails t original p) = task_ReadFiles t"
  "task_WriteFiles (bindPlanningDetails t original p) = task_WriteFiles t"
  "task_DeleteFiles (bindPlanningDetails t original p) = task_DeleteFiles t"
  by (simp_all add: bindPlanningDetails_def)

lemma ordered_append_last:
  assumes "distinct (ledger_ids l @ [task_ID t])" "task_active t" "\<forall>u\<in>set (led_Tasks l). task_Rank u < task_Rank t"
  shows "ordered_tasks (l\<lparr>led_Tasks := led_Tasks l @ [t], led_Revision := r\<rparr>) = ordered_tasks l @ [t]"
proof -
  let ?l = "l\<lparr>led_Tasks := led_Tasks l @ [t], led_Revision := r\<rparr>"
  have act: "active_tasks ?l = active_tasks l @ [t]" using assms(2) by (simp add: active_tasks_def)
  have "inj_on order_key (set (active_tasks ?l))"
    using assms(1) by (intro inj_order_key distinct_active) simp
  moreover have "sorted (map order_key (ordered_tasks l @ [t]))"
    using assms(3) sorted_ordered [of l] by (auto simp: sorted_append set_ordered order_key_le)
  ultimately show ?thesis
    unfolding ordered_tasks_def [of ?l] by (intro sort_key_inj_key_eq) (simp_all add: act)
qed

lemma add_applies:
  assumes ok: "ledger_ok l" and utf8: "ledger_utf8 l" and rev: "led_Revision l < 2 ^ 63 - 1"
    and new: "task_ID t \<notin> set (ledger_ids l)"
    and m: "mutation_ok m" "mut_BaseRevision m = led_Revision l" "mut_Operations m = [op]"
      "op_Kind op = LedgerMutationAdd" "op_Item op = Some \<lparr>mi_Task = Some t\<rparr>"
  shows "ApplyPlanningMutation l m =
    Inr (l\<lparr>led_Tasks := led_Tasks l @ [t], led_Revision := led_Revision l + 1\<rparr>)"
proof -
  let ?n = "l\<lparr>led_Tasks := led_Tasks l @ [t], led_Revision := led_Revision l + 1\<rparr>"
  have pay: "op_Payload op = Some t" using m(5) by (simp add: op_Payload_def)
  have none: "no_task (task_ID t) (led_Tasks l)" using new by (auto simp: no_task_def image_iff)
  have "ledger_map ?n = (ledger_map l)(task_ID t \<mapsto> t)"
    using ledger_map_append [OF none] by (simp add: ledger_map_def)
  moreover have "ledger_map l (task_ID t) = None" using none by (simp add: ledger_map_missing)
  ultimately have "spec_operations (mut_Operations m) (ledger_map l) = Some (ledger_map ?n)"
    using m(3,4) pay by (simp add: spec_operation_def)
  moreover have "is_int64 (led_Revision l)" using ok rev by (simp add: ledger_ok_def is_int64_def)
  ultimately show ?thesis
    using ok utf8 rev m pay by (simp add: mutation_refines added_ids_def)
qed

lemma manual_add_applies:
  assumes ok: "ledger_ok l" and utf8: "ledger_utf8 l" and rev: "led_Revision l < 2 ^ 63 - 1"
    and ranks: "\<forall>t\<in>set (led_Tasks l). task_Rank t < 2 ^ 63 - 1"
    and turn: "pt_ObservedRevision turn = led_Revision l" "\<not> blank (pt_OperationID turn)" "\<not> blank (pt_OwnerTurnID turn)"
    and new: "''manual-'' @ pt_OperationID turn \<notin> set (ledger_ids l)"
    and act: "act_Kind action = LedgerMutationAdd" "act_Item action = Some t"
    and t: "\<not> blank (task_Goal t)" "files_ok (task_ReadFiles t)" "files_ok (task_WriteFiles t)" "files_ok (task_DeleteFiles t)"
  shows "\<exists>m nxt. DirectPlanningItemMutation l turn action = Inr m \<and> ApplyPlanningMutation l m = Inr nxt \<and>
    execution_order nxt = execution_order l @ [''manual-'' @ pt_OperationID turn]"
proof -
  let ?t = "bindPlanningDetails (t\<lparr>task_Item := manual_item l turn\<rparr>) None (manual_provenance l turn)"
  let ?m = "manual_mutation turn action ?t"
  have rank: "0 \<le> manual_rank (led_Tasks l)" "\<forall>u\<in>set (led_Tasks l). task_Rank u < manual_rank (led_Tasks l)"
    using ok ranks manual_rank_ge [of "led_Tasks l" 0]
    by (auto simp: manual_rank_def ledger_ok_def task_ok_def item_ok_def)
  have rev': "0 \<le> led_Revision l" using ok by (simp add: ledger_ok_def)
  have nb: "\<not> blank (''manual-'' @ pt_OperationID turn)" "\<not> blank ''owner_turn''"
    by (rule not_blank_plain [of "CHR ''n''"]; simp add: plain_def ascii_space_def)+
  have task: "task_ok ?t"
    using t turn nb rank rev rev'
    by (simp add: task_ok_def item_ok_def manual_item_def manual_provenance_def review_set_def is_int64_def)
  have mok: "mutation_ok ?m"
    using task turn nb(1) rev' act(1)
    by (simp add: mutation_ok_def manual_mutation_def RepresentedOwnerTurn_def statement_ok_def operation_ok_def manual_item_def)
  have "ApplyPlanningMutation l ?m = Inr (l\<lparr>led_Tasks := led_Tasks l @ [?t], led_Revision := led_Revision l + 1\<rparr>)"
    by (rule add_applies [OF ok utf8 rev _ mok, where op = "hd (mut_Operations ?m)"])
       (use new turn act in \<open>simp_all add: manual_mutation_def manual_item_def\<close>)
  moreover have "DirectPlanningItemMutation l turn action = Inr ?m"
    using act mok by (simp add: DirectPlanningItemMutation_def Let_def err_simps)
  moreover have "ordered_tasks (l\<lparr>led_Tasks := led_Tasks l @ [?t], led_Revision := led_Revision l + 1\<rparr>) = ordered_tasks l @ [?t]"
    using new ok rank by (intro ordered_append_last) (simp_all add: manual_item_def ledger_ok_def)
  ultimately show ?thesis by (auto simp: execution_order_def manual_item_def)
qed

section \<open>The tasks before a selected one\<close>

lemma takeWhile_sorted:
  assumes "sorted (map f xs)" "distinct (map f xs)" "x \<in> set xs"
  shows "takeWhile (\<lambda>y. f y \<noteq> f x) xs = filter (\<lambda>y. f y < f x) xs"
  using assms
proof (induction xs)
  case (Cons y ys)
  have le: "\<forall>z\<in>set ys. f y < f z" using Cons.prems by (auto simp: order_less_le image_iff)
  show ?case
  proof (cases "f y = f x")
    case True
    then have "filter (\<lambda>z. f z < f x) ys = []" using le by (auto simp: filter_empty_conv dest: less_asym)
    then show ?thesis using True by simp
  next
    case False
    then have "x \<in> set ys" using Cons.prems(3) by auto
    then show ?thesis using Cons False le by simp
  qed
qed simp

lemma order_key_less:
  "order_key t < order_key u \<longleftrightarrow> task_Rank t < task_Rank u \<or> task_Rank t = task_Rank u \<and> task_ID t < task_ID u"
  by (auto simp: order_key_def less_prod_def)

lemma distinct_order_key: "distinct (map task_ID ts) \<Longrightarrow> distinct (map order_key ts)"
  by (auto simp: distinct_map order_key_def inj_on_def)

lemma preceding_is_prefix:
  assumes ok: "ledger_ok l" and target: "task_at l selected = Some target" "task_active target"
  shows "map pre_ID (precedingIncompletePlanningTasks l selected completed) =
    filter (\<lambda>i. i \<notin> set completed) (takeWhile (\<lambda>i. i \<noteq> selected) (execution_order l))"
proof -
  have dist: "distinct (map task_ID (ordered_tasks l))" using ok by (simp add: distinct_ordered ledger_ok_def)
  have mem: "target \<in> set (ordered_tasks l)" "task_ID target = selected"
    using first_with_Some [OF target(1)] target(2) by (auto simp: set_ordered)
  have key: "order_key y \<noteq> order_key target \<longleftrightarrow> task_ID y \<noteq> selected" if "y \<in> set (ordered_tasks l)" for y
    using dist mem that by (auto simp: order_key_def distinct_map dest: inj_onD)
  have "takeWhile (\<lambda>i. i \<noteq> selected) (execution_order l) = map task_ID (takeWhile (\<lambda>t. task_ID t \<noteq> selected) (ordered_tasks l))"
    by (simp add: execution_order_def takeWhile_map comp_def)
  also have "takeWhile (\<lambda>t. task_ID t \<noteq> selected) (ordered_tasks l) = takeWhile (\<lambda>t. order_key t \<noteq> order_key target) (ordered_tasks l)"
    using key by (intro takeWhile_cong) auto
  also have "\<dots> = filter (\<lambda>t. order_key t < order_key target) (ordered_tasks l)"
    using sorted_ordered distinct_order_key [OF dist] mem(1) by (rule takeWhile_sorted)
  finally have "filter (\<lambda>i. i \<notin> set completed) (takeWhile (\<lambda>i. i \<noteq> selected) (execution_order l)) =
      map task_ID (filter (\<lambda>t. order_key t < order_key target \<and> task_ID t \<notin> set completed) (ordered_tasks l))"
    by (simp add: filter_map comp_def)
  also have "filter (\<lambda>t. order_key t < order_key target \<and> task_ID t \<notin> set completed) (ordered_tasks l) =
      sort_key order_key (filter (\<lambda>t. \<not> (\<not> task_active t \<or> task_ID t \<in> set completed) \<and>
        (task_Rank t < task_Rank target \<or> task_Rank t = task_Rank target \<and> task_ID t < task_ID target)) (led_Tasks l))"
    unfolding ordered_tasks_def filter_sort active_tasks_def filter_filter
    by (rule arg_cong [where f = "sort_key order_key"], rule filter_cong) (auto simp: order_key_less)
  finally show ?thesis
    using target(1) by (simp add: precedingIncompletePlanningTasks_def prerequisite_def comp_def)
qed

end
