(* ===== verification/Planning_Laws.thy ===== *)
theory Planning_Laws
  imports Planning_Actions
begin

text \<open>
  What the owner of a ledger may rely on: how a mutation acts on the map of tasks, what it leaves alone,
  that an agreement never survives a change of content, that concurrent mutations are never merged, and
  that a move exchanges two places of the execution order.
\<close>

section \<open>Facts about the abstract operations\<close>

lemma spec_operation_frame:
  "spec_operation op mp = Some mp' \<Longrightarrow> i \<noteq> op_TargetID op \<Longrightarrow> mp i = Some t \<Longrightarrow> mp' i = Some t"
  by (auto simp: spec_operation_def split: LedgerMutationKind.splits option.splits if_splits)

lemma spec_operations_frame:
  "spec_operations ops mp = Some mp' \<Longrightarrow> i \<notin> op_TargetID ` set ops \<Longrightarrow> mp i = Some t \<Longrightarrow> mp' i = Some t"
proof (induction ops arbitrary: mp)
  case (Cons op ops)
  then obtain mp1 where "spec_operation op mp = Some mp1" "spec_operations ops mp1 = Some mp'"
    by (auto simp: bind_eq_Some_conv)
  then show ?case using Cons spec_operation_frame [of op mp mp1 i t] by auto
qed simp

definition agrees :: "LedgerItemID \<Rightarrow> LedgerMutationOperation \<Rightarrow> bool" where
  "agrees i op \<longleftrightarrow> op_Kind op = LedgerMutationReview \<and> op_TargetID op = i \<and> op_ReviewState op = LedgerReviewAgreed"

definition agreed_in :: "ledger_map \<Rightarrow> LedgerItemID \<Rightarrow> LedgerTask \<Rightarrow> bool" where
  "agreed_in mp i t \<longleftrightarrow> mp i = Some t \<and> task_active t \<and> task_ReviewState t = LedgerReviewAgreed"

lemma operation_ok_add_proposed:
  "operation_ok op \<Longrightarrow> op_Kind op = LedgerMutationAdd \<Longrightarrow> op_Payload op = Some t \<Longrightarrow> task_ReviewState t = LedgerReviewProposed"
  by (auto simp: operation_ok_def op_Payload_def)

lemma spec_operation_agreed:
  assumes "spec_operation op mp = Some mp'" "operation_ok op" "agreed_in mp' i t"
  shows "agrees i op \<or> (\<exists>u. agreed_in mp i u \<and> forget_rank u = forget_rank t)"
  using assms operation_ok_add_proposed [of op t]
  by (auto simp: spec_operation_def agreed_in_def agrees_def forget_rank_def tombstone_def revive_def
      propose_if_active_def
      split: LedgerMutationKind.splits option.splits if_splits)

lemma spec_operations_agreed:
  assumes "spec_operations ops mp = Some mp'" "\<forall>op\<in>set ops. operation_ok op" "agreed_in mp' i t"
  shows "(\<exists>op\<in>set ops. agrees i op) \<or> (\<exists>u. agreed_in mp i u \<and> forget_rank u = forget_rank t)"
  using assms
proof (induction ops arbitrary: mp)
  case (Cons op ops)
  then obtain mp1 where mp1: "spec_operation op mp = Some mp1" "spec_operations ops mp1 = Some mp'"
    by (auto simp: bind_eq_Some_conv)
  then consider "\<exists>op\<in>set ops. agrees i op" | u where "agreed_in mp1 i u" "forget_rank u = forget_rank t"
    using Cons.IH [OF mp1(2)] Cons.prems by auto
  then show ?case
  proof cases
    case 2
    then show ?thesis using spec_operation_agreed [OF mp1(1), of i u] Cons.prems(2) by auto
  qed auto
qed auto

section \<open>Properties of a mutation\<close>

text \<open>
  C1. A mutation is applied exactly when the ledger and the mutation are well formed, the mutation was
  made against the ledger's revision, that revision can still be raised, and every operation is allowed on
  the abstract map of tasks. The result then has the abstract result as its map, the identities of the old
  ledger followed by the added ones, the same identity and the next revision.
\<close>

theorem ApplyPlanningMutation_refines:
  assumes "ledger_utf8 cur" "is_int64 (led_Revision cur)"
  shows "ApplyPlanningMutation cur m = Inr nxt \<longleftrightarrow>
     ledger_ok cur \<and> mut_BaseRevision m = led_Revision cur \<and> mutation_ok m \<and>
     led_Revision cur < 2 ^ 63 - 1 \<and>
     spec_operations (mut_Operations m) (ledger_map cur) = Some (ledger_map nxt) \<and>
     ledger_ids nxt = ledger_ids cur @ concat (map added_ids (mut_Operations m)) \<and>
     led_ID nxt = led_ID cur \<and> led_Revision nxt = led_Revision cur + 1"
  using assms by (rule mutation_refines)

theorem ApplyPlanningMutation_refines_witness:
  "spec_operations (mut_Operations sample_remove) (ledger_map sample_ledger) = Some (ledger_map sample_removed)"
  using ApplyPlanningMutation_refines [OF sample_ledger_ok(2,3), of sample_remove sample_removed]
    sample_remove_applies by simp

text \<open>
  C18. A mutation deletes no task and moves none: the old identities stay where they are, and a task that
  no operation names is in the new ledger unchanged.
\<close>

theorem ApplyPlanningMutation_frame:
  assumes "ledger_utf8 cur" "is_int64 (led_Revision cur)" "ApplyPlanningMutation cur m = Inr nxt"
  shows "(\<exists>new. ledger_ids nxt = ledger_ids cur @ new) \<and>
    (\<forall>t\<in>set (led_Tasks cur). task_ID t \<notin> op_TargetID ` set (mut_Operations m) \<longrightarrow> t \<in> set (led_Tasks nxt))"
proof -
  note spec = mutation_refines [OF assms(1,2), THEN iffD1, OF assms(3)]
  have "t \<in> set (led_Tasks nxt)"
    if "t \<in> set (led_Tasks cur)" "task_ID t \<notin> op_TargetID ` set (mut_Operations m)" for t
  proof -
    have "ledger_map cur (task_ID t) = Some t"
      using spec that(1) unfolding ledger_map_def by (intro map_of_is_SomeI) (auto simp: ledger_ok_def comp_def)
    then have "ledger_map nxt (task_ID t) = Some t"
      using spec that(2) spec_operations_frame by blast
    then show ?thesis by (auto simp: ledger_map_def dest: map_of_SomeD)
  qed
  then show ?thesis using spec by auto
qed

theorem ApplyPlanningMutation_frame_witness: "sample_b \<in> set (led_Tasks sample_removed)"
proof -
  have "sample_b \<in> set (led_Tasks sample_ledger)" "task_ID sample_b \<notin> op_TargetID ` set (mut_Operations sample_remove)"
    by code_simp+
  then show ?thesis
    using ApplyPlanningMutation_frame [OF sample_ledger_ok(2,3) sample_remove_applies] by blast
qed

text \<open>
  C7. An agreement never covers content the owner has not agreed to: a task that is agreed after a mutation
  was either agreed by a review operation of that mutation, or was agreed before and differs at most in its
  rank.
\<close>

theorem agreement_covers_content:
  assumes "ledger_utf8 cur" "is_int64 (led_Revision cur)" "ApplyPlanningMutation cur m = Inr nxt"
    "agreed_in (ledger_map nxt) i t"
  shows "(\<exists>op\<in>set (mut_Operations m). agrees i op) \<or>
    (\<exists>u. agreed_in (ledger_map cur) i u \<and> forget_rank u = forget_rank t)"
proof -
  note spec = mutation_refines [OF assms(1,2), THEN iffD1, OF assms(3)]
  then have "\<forall>op\<in>set (mut_Operations m). operation_ok op" by (auto simp: mutation_ok_def Let_def)
  then show ?thesis using spec_operations_agreed [OF _ _ assms(4)] spec by blast
qed

definition sample_review :: LedgerMutation where
  "sample_review = sample_mutation 3 [(sample_operation LedgerMutationReview ''b'')\<lparr>op_ReviewState := LedgerReviewAgreed\<rparr>]"

theorem agreement_covers_content_witness:
  "\<exists>nxt t. ApplyPlanningMutation sample_ledger sample_review = Inr nxt \<and> agreed_in (ledger_map nxt) ''a'' t \<and>
    (\<exists>u. agreed_in (ledger_map sample_ledger) ''a'' u \<and> forget_rank u = forget_rank t)"
proof -
  define nxt where "nxt = projr (ApplyPlanningMutation sample_ledger sample_review)"
  have nxt: "ApplyPlanningMutation sample_ledger sample_review = Inr nxt" unfolding nxt_def by code_simp
  moreover have a: "agreed_in (ledger_map nxt) ''a'' sample_a" unfolding nxt_def by code_simp
  moreover have "\<not> (\<exists>op\<in>set (mut_Operations sample_review). agrees ''a'' op)" by code_simp
  ultimately show ?thesis
    using agreement_covers_content [OF sample_ledger_ok(2,3) nxt a] by blast
qed

text \<open>
  C16. Concurrent mutations are never merged: once a mutation has been applied, every other mutation that
  was made against the same revision is refused.
\<close>

theorem concurrent_mutation_refused:
  assumes "ledger_stored l" "ApplyPlanningMutation l m = Inr l'" "mut_BaseRevision m' = mut_BaseRevision m"
  shows "\<exists>e. ApplyPlanningMutation l' m' = Inl e"
  using assms by (rule planning.no_lost_update)

theorem concurrent_mutation_refused_witness: "\<exists>e. ApplyPlanningMutation sample_removed sample_review = Inl e"
  by (rule concurrent_mutation_refused [OF sample_ledger_ok(4) sample_remove_applies]) code_simp

text \<open>
  C17. A history of mutations is linear: a list of mutations that applies in order raises the revision by its
  length, keeps the ledger valid, and its k-th mutation was made against the k-th revision.
\<close>

theorem mutation_history_linear:
  assumes "ledger_stored l" "apply_all ApplyPlanningMutation l ms = Inr l'"
  shows "ledger_stored l' \<and> led_Revision l' = led_Revision l + int (length ms) \<and>
    (\<forall>k<length ms. mut_BaseRevision (ms ! k) = led_Revision l + int k)"
  using assms by (rule planning.run_revisions)

theorem mutation_history_linear_witness: "ledger_stored sample_restored \<and> led_Revision sample_restored = 3 + 2"
  using mutation_history_linear [OF sample_ledger_ok(4), of "[sample_remove, sample_restore]" sample_restored]
    sample_remove_applies sample_restore_applies by (simp add: sample_ledger_def)

section \<open>Properties of the validators\<close>

text \<open>
  C19. The validators accept exactly the well-formed ledgers and mutations: a ledger with an identity, a
  revision that is not negative, distinct task identities and well-formed tasks; a mutation with identities,
  proper dispositions that agree with its operations, no repeated operation and operations that carry
  exactly the fields of their kind.
\<close>

theorem validators_decide_wellformedness:
  "(EngineeringLedger_Validate l = None \<longleftrightarrow> ledger_ok l) \<and> (LedgerMutation_Validate m = None \<longleftrightarrow> mutation_ok m)"
  by (simp add: err_simps)

section \<open>Properties of the owner's actions\<close>

text \<open>
  C20. A move exchanges exactly two places of the execution order: the mutation it submits is accepted by
  the unchanged ledger, afterwards the selected task stands where the addressed position is (clamped to the
  ends of the list), the task that stood there takes its place, and nothing but ranks has changed. This
  holds with and without repeated ranks.
\<close>

theorem moveLedgerItem_exchanges:
  assumes "ledger_ok l" "ledger_utf8 l" "led_Revision l < 2 ^ 63 - 1"
    "pt_ObservedRevision turn = led_Revision l" "\<not> blank (pt_OperationID turn)" "\<not> blank (pt_OwnerTurnID turn)"
    "index_of (\<lambda>i. i = act_TargetID action) (execution_order l) = Some s"
    "is_int64 (int s + act_Move action)"
  shows "\<exists>m nxt. moveLedgerItem l turn action = Inr m \<and> ApplyPlanningMutation l m = Inr nxt \<and>
    execution_order nxt =
      swap s (nat (max 0 (min (int (length (execution_order l)) - 1) (int s + act_Move action)))) (execution_order l) \<and>
    map forget_rank (led_Tasks nxt) = map forget_rank (led_Tasks l)"
  using move_applies [OF assms(1-7)] move_neighbor_in_range [OF assms(8)] by simp

definition sample_turn :: PlanningTurn where
  "sample_turn = \<lparr>pt_ItemID = [], pt_OperationID = ''op-7'', pt_OwnerTurnID = ''turn-7'', pt_Text = ''later'',
     pt_ObservedRevision = 3, pt_NewerOwnerDirection = None\<rparr>"

definition sample_action :: "LedgerMutationKind \<Rightarrow> DirectPlanningAction" where
  "sample_action kind = \<lparr>act_Move = 1, act_Item = Some sample_b, act_Kind = kind, act_TargetID = ''a'',
     act_ReviewState = LedgerReviewNone, act_Rank = None, act_Rationale = []\<rparr>"

theorem moveLedgerItem_exchanges_witness:
  "\<exists>m nxt. moveLedgerItem sample_ledger sample_turn (sample_action LedgerMutationReorder) = Inr m \<and>
    ApplyPlanningMutation sample_ledger m = Inr nxt \<and> execution_order nxt = [''b'', ''a'']"
proof -
  have "index_of (\<lambda>i. i = act_TargetID (sample_action LedgerMutationReorder)) (execution_order sample_ledger) = Some 0"
    "pt_ObservedRevision sample_turn = led_Revision sample_ledger" "\<not> blank (pt_OperationID sample_turn)"
    "\<not> blank (pt_OwnerTurnID sample_turn)" "led_Revision sample_ledger < 2 ^ 63 - 1"
    "is_int64 (int 0 + act_Move (sample_action LedgerMutationReorder))"
    by code_simp+
  moreover have "swap 0 (nat (max 0 (min (int (length (execution_order sample_ledger)) - 1)
      (int 0 + act_Move (sample_action LedgerMutationReorder))))) (execution_order sample_ledger) = [''b'', ''a'']"
    by code_simp
  ultimately show ?thesis
    using moveLedgerItem_exchanges [OF sample_ledger_ok(1,2), of sample_turn "sample_action LedgerMutationReorder" 0] by auto
qed

text \<open>
  C21. A task the owner writes is put at the end of the execution order: as long as no rank has reached the
  largest integer, the mutation is accepted and the new identity comes after every active task.
\<close>

theorem manual_addition_last:
  assumes "ledger_ok l" "ledger_utf8 l" "led_Revision l < 2 ^ 63 - 1"
    "\<forall>t\<in>set (led_Tasks l). task_Rank t < 2 ^ 63 - 1"
    "pt_ObservedRevision turn = led_Revision l" "\<not> blank (pt_OperationID turn)" "\<not> blank (pt_OwnerTurnID turn)"
    "''manual-'' @ pt_OperationID turn \<notin> set (ledger_ids l)"
    "act_Kind action = LedgerMutationAdd" "act_Item action = Some t"
    "\<not> blank (task_Goal t)" "files_ok (task_ReadFiles t)" "files_ok (task_WriteFiles t)" "files_ok (task_DeleteFiles t)"
  shows "\<exists>m nxt. DirectPlanningItemMutation l turn action = Inr m \<and> ApplyPlanningMutation l m = Inr nxt \<and>
    execution_order nxt = execution_order l @ [''manual-'' @ pt_OperationID turn]"
  using assms by (rule manual_add_applies)

theorem manual_addition_last_witness:
  "\<exists>m nxt. DirectPlanningItemMutation sample_ledger sample_turn (sample_action LedgerMutationAdd) = Inr m \<and>
    ApplyPlanningMutation sample_ledger m = Inr nxt \<and> execution_order nxt = [''a'', ''b'', ''manual-op-7'']"
proof -
  have ex: "execution_order sample_ledger = [''a'', ''b'']" by code_simp
  have op: "pt_OperationID sample_turn = ''op-7''" by (simp add: sample_turn_def)
  have "\<exists>m nxt. DirectPlanningItemMutation sample_ledger sample_turn (sample_action LedgerMutationAdd) = Inr m \<and>
      ApplyPlanningMutation sample_ledger m = Inr nxt \<and>
      execution_order nxt = execution_order sample_ledger @ [''manual-'' @ pt_OperationID sample_turn]"
    by (rule manual_addition_last [OF sample_ledger_ok(1,2), where t = sample_b]) code_simp+
  then show ?thesis by (simp add: ex op)
qed

text \<open>
  C22. The prerequisites shown for a selected active task are exactly the tasks that run before it in the
  execution order and are not completed, in that order.
\<close>

theorem preceding_tasks_are_prefix:
  assumes "ledger_ok l" "task_at l selected = Some target" "task_active target"
  shows "map pre_ID (precedingIncompletePlanningTasks l selected completed) =
    filter (\<lambda>i. i \<notin> set completed) (takeWhile (\<lambda>i. i \<noteq> selected) (execution_order l))"
  using assms by (rule preceding_is_prefix)

theorem preceding_tasks_are_prefix_witness:
  "map pre_ID (precedingIncompletePlanningTasks sample_ledger ''b'' []) = [''a'']"
proof -
  have "task_at sample_ledger ''b'' = Some sample_b" "task_active sample_b" by code_simp+
  moreover have "filter (\<lambda>i. i \<notin> set []) (takeWhile (\<lambda>i. i \<noteq> ''b'') (execution_order sample_ledger)) = [''a'']" by code_simp
  ultimately show ?thesis using preceding_tasks_are_prefix [OF sample_ledger_ok(1), of "''b''" sample_b "[]"] by simp
qed

text \<open>
  C23. Binding the details of a task gives its criteria distinct identities whenever their texts are distinct
  (and the original task's identities were), keeps texts and verification, and lets a criterion whose text
  the original task has keep an identity of that text.
\<close>

theorem criteria_identities:
  assumes "distinct (map acc_Text (task_Acceptance t))"
    "\<And>u. original = Some u \<Longrightarrow> distinct (map acc_ID (task_Acceptance u))"
  shows "let cs = task_Acceptance (bindPlanningDetails t original p) in
    distinct (map acc_ID cs) \<and> map acc_Text cs = map acc_Text (task_Acceptance t) \<and>
    map acc_Verification cs = map acc_Verification (task_Acceptance t) \<and>
    (\<forall>c\<in>set cs. \<forall>i. original_criteria original (acc_Text c) = Some i \<longrightarrow> acc_ID c = i)"
  using bindAcceptance_distinct [OF assms(1)] original_criteria_inj [of original, OF assms(2)]
    bindAcceptance_fields bindAcceptance_ids
  by (fastforce simp: bindPlanningDetails_def Let_def)

definition sample_criteria :: "string list \<Rightarrow> LedgerTask" where
  "sample_criteria texts = sample_b\<lparr>task_Acceptance :=
     map (\<lambda>x. \<lparr>acc_ID = ''criterion_'' @ x, acc_Text = x, acc_Verification = []\<rparr>) texts\<rparr>"

theorem criteria_identities_witness:
  "map acc_ID (task_Acceptance (bindPlanningDetails (sample_criteria [''new'', ''1'']) (Some (sample_criteria [''1'']))
     (item_Provenance (task_Item sample_b)))) = [''criterion_2'', ''criterion_1''] \<and>
   distinct (map acc_ID (task_Acceptance (bindPlanningDetails (sample_criteria [''new'', ''1'']) (Some (sample_criteria [''1'']))
     (item_Provenance (task_Item sample_b)))))"
proof -
  have "distinct (map acc_Text (task_Acceptance (sample_criteria [''new'', ''1''])))"
    "distinct (map acc_ID (task_Acceptance (sample_criteria [''1''])))" by code_simp+
  moreover have "map acc_ID (task_Acceptance (bindPlanningDetails (sample_criteria [''new'', ''1'']) (Some (sample_criteria [''1'']))
     (item_Provenance (task_Item sample_b)))) = [''criterion_2'', ''criterion_1'']" by code_simp
  ultimately show ?thesis
    using criteria_identities [of "sample_criteria [''new'', ''1'']" "Some (sample_criteria [''1''])"
      "item_Provenance (task_Item sample_b)"] by (simp add: Let_def)
qed

text \<open>
  C24. An amendment decoded from an answer never touches what the code owns: whatever fields the answer
  gives, the payload has the identity, provenance, rank and lifecycle of the task it names, and no operation
  is decoded twice.
\<close>

theorem decoded_amendment_keeps_identity:
  assumes "decodePlanningOperations l vs = Inr ops" "ledger_items_utf8 l" "\<forall>v\<in>set vs. decoded_utf8 v"
  shows "distinct ops \<and> (\<forall>op\<in>set ops. \<forall>t u. op_Kind op = LedgerMutationAmend \<longrightarrow>
    task_at l (op_TargetID op) = Some t \<longrightarrow> op_Payload op = Some u \<longrightarrow> task_Item u = task_Item t)"
proof -
  have "keeps_items l l" unfolding keeps_items_def by metis
  from decodePlanningLoop_keeps [OF this assms(2,3), of "[]" ops]
  have "distinct ops \<and> (\<forall>op\<in>set ops. amend_keeps l op)"
    using assms(1) by (simp add: decodePlanningOperations_def)
  then show ?thesis unfolding amend_keeps_def .
qed

definition sample_patch :: planningParserOperation where
  "sample_patch = \<lparr>ppo_Kind = LedgerMutationAmend, ppo_TargetID = ''a'',
     ppo_Item = Some (RawItem (Some \<lparr>raw_Item = sample_item ''z'' 99 LedgerDispositionTombstoned LedgerReviewNone,
       raw_Goal = Some ''new goal'', raw_Objective = None, raw_OwnerContext = None, raw_Constraints = None,
       raw_FileResponsibilities = None, raw_Acceptance = None, raw_ReadFiles = None, raw_WriteFiles = None,
       raw_DeleteFiles = None\<rparr>)), ppo_ReviewState = LedgerReviewNone, ppo_Rank = None, ppo_Rationale = []\<rparr>"

theorem decoded_amendment_keeps_identity_witness:
  "\<exists>op u. decodePlanningOperations sample_ledger [sample_patch, sample_patch] = Inr [op] \<and>
     op_Payload op = Some u \<and> task_Goal u = ''new goal'' \<and> task_Item u = task_Item sample_a"
proof -
  define op where "op = hd (projr (decodePlanningOperations sample_ledger [sample_patch, sample_patch]))"
  define u where "u = the (op_Payload op)"
  have ops: "decodePlanningOperations sample_ledger [sample_patch, sample_patch] = Inr [op]" unfolding op_def by code_simp
  have "op_Payload op = Some u" "task_Goal u = ''new goal''" unfolding u_def op_def by code_simp+
  moreover have "op_Kind op = LedgerMutationAmend" "task_at sample_ledger (op_TargetID op) = Some sample_a"
    unfolding op_def by code_simp+
  moreover have "ledger_items_utf8 sample_ledger" "\<forall>v\<in>set [sample_patch, sample_patch]. decoded_utf8 v" by code_simp+
  ultimately show ?thesis using decoded_amendment_keeps_identity [OF ops] ops by simp
qed

end
