(* ===== verification/Go_JSON.thy ===== *)
theory Go_JSON
  imports Omni_Prelude
begin

text \<open>
  JSON texts as \<^verbatim>\<open>encoding/json\<close> reads them: a lexer on bytes, the grammar of a value as the
  list of its tokens, and a recursive descent parser on tokens. Numbers are kept as their literal text
  (\<^verbatim>\<open>Decoder.UseNumber\<close>); the members of an object keep their order and their repetitions,
  \<open>decode_any\<close> is what remains of them in a \<^verbatim>\<open>map[string]any\<close>. The decoder refuses values
  nested deeper than 10000.
\<close>

section \<open>Values and tokens\<close>

datatype json =
    JNull
  | JBool bool
  | JNumber string
  | JString string
  | JArray "json list"
  | JObject "(string \<times> json) list"

datatype token = TLBrack | TRBrack | TLBrace | TRBrace | TComma | TColon | TAtom json

fun commas :: "token list list \<Rightarrow> token list" where
  "commas [] = []"
| "commas [ts] = ts"
| "commas (ts # us # rest) = ts @ TComma # commas (us # rest)"

primrec toks :: "json \<Rightarrow> token list" where
  "toks JNull = [TAtom JNull]"
| "toks (JBool b) = [TAtom (JBool b)]"
| "toks (JNumber n) = [TAtom (JNumber n)]"
| "toks (JString s) = [TAtom (JString s)]"
| "toks (JArray vs) = TLBrack # commas (map toks vs) @ [TRBrack]"
| "toks (JObject ms) =
     TLBrace # commas (map (\<lambda>(k, ts). TAtom (JString k) # TColon # ts) (map (map_prod id toks) ms)) @ [TRBrace]"

section \<open>The lexer\<close>

definition json_space :: "char \<Rightarrow> bool" where
  "json_space c \<longleftrightarrow> c \<in> {CHR 0x20, CHR 0x09, CHR 0x0D, CHR 0x0A}"

definition hex_val :: "char \<Rightarrow> nat option" where
  "hex_val c =
     (if is_digit c then Some (byte c - 48)
      else if 97 \<le> byte c \<and> byte c \<le> 102 then Some (byte c - 87)
      else if 65 \<le> byte c \<and> byte c \<le> 70 then Some (byte c - 55) else None)"

definition getu4 :: "string \<Rightarrow> nat option" where
  \<comment> \<open>the code unit of \<^verbatim>\<open>\uXXXX\<close> at the head of a string\<close>
  "getu4 s = (case s of
      b # u # h1 # h2 # h3 # h4 # _ \<Rightarrow>
        if b = CHR 0x5C \<and> u = CHR ''u'' then
          (case (hex_val h1, hex_val h2, hex_val h3, hex_val h4) of
             (Some x1, Some x2, Some x3, Some x4) \<Rightarrow> Some (((x1 * 16 + x2) * 16 + x3) * 16 + x4)
           | _ \<Rightarrow> None)
        else None
    | _ \<Rightarrow> None)"

definition encode_rune :: "nat \<Rightarrow> string" where
  "encode_rune r =
     (if r < 0x80 then [char_of r]
      else if r < 0x800 then [char_of (0xC0 + r div 0x40), char_of (0x80 + r mod 0x40)]
      else if r < 0x10000 then
        [char_of (0xE0 + r div 0x1000), char_of (0x80 + r div 0x40 mod 0x40), char_of (0x80 + r mod 0x40)]
      else [char_of (0xF0 + r div 0x40000), char_of (0x80 + r div 0x1000 mod 0x40),
            char_of (0x80 + r div 0x40 mod 0x40), char_of (0x80 + r mod 0x40)])"

definition replacement :: string where
  "replacement = [CHR 0xEF, CHR 0xBF, CHR 0xBD]"

definition unescape_unicode :: "string \<Rightarrow> (string \<times> nat) option" where
  \<comment> \<open>the text of the escape at the head of a string and the bytes it takes\<close>
  "unescape_unicode s =
     (case getu4 s of
        None \<Rightarrow> None
      | Some r \<Rightarrow>
          if 0xD800 \<le> r \<and> r < 0xE000 then
            (case getu4 (drop 6 s) of
               Some r2 \<Rightarrow>
                 if r < 0xDC00 \<and> 0xDC00 \<le> r2 \<and> r2 < 0xE000
                 then Some (encode_rune ((r - 0xD800) * 0x400 + (r2 - 0xDC00) + 0x10000), 12)
                 else Some (replacement, 6)
             | None \<Rightarrow> Some (replacement, 6))
          else Some (encode_rune r, 6))"

definition simple_escape :: "char \<Rightarrow> char option" where
  "simple_escape c =
     (if c \<in> {CHR 0x22, CHR 0x5C, CHR ''/''} then Some c
      else if c = CHR ''b'' then Some (CHR 0x08) else if c = CHR ''f'' then Some (CHR 0x0C)
      else if c = CHR ''n'' then Some (CHR 0x0A) else if c = CHR ''r'' then Some (CHR 0x0D)
      else if c = CHR ''t'' then Some (CHR 0x09) else None)"

function lex_string :: "string \<Rightarrow> (string \<times> string) option" where
  \<comment> \<open>after the opening quote: the text of the string and what follows the closing quote\<close>
  "lex_string s =
     (case s of
        [] \<Rightarrow> None
      | c # cs \<Rightarrow>
          if c = CHR 0x22 then Some ([], cs)
          else if c = CHR 0x5C then
            (case cs of
               [] \<Rightarrow> None
             | e # ds \<Rightarrow>
                 if e = CHR ''u'' then
                   (case unescape_unicode s of
                      None \<Rightarrow> None
                    | Some (t, n) \<Rightarrow> map_option (apfst ((@) t)) (lex_string (drop (n - 1) cs)))
                 else
                   (case simple_escape e of
                      None \<Rightarrow> None
                    | Some x \<Rightarrow> map_option (apfst ((#) x)) (lex_string ds)))
          else if byte c < 0x20 then None
          else if rune_len s = 0 then map_option (apfst ((@) replacement)) (lex_string cs)
          else map_option (apfst ((@) (take (rune_len s) s))) (lex_string (drop (rune_len s - 1) cs)))"
  by pat_completeness auto
termination
  by (relation "measure length") auto

declare lex_string.simps [simp del]

lemmas lex_string_Nil = lex_string.simps [of "[]", unfolded list.case]
lemmas lex_string_Cons = lex_string.simps [of "c # cs" for c cs, unfolded list.case]

definition lex_digits :: "string \<Rightarrow> (string \<times> string) option" where
  "lex_digits s = (let ds = takeWhile is_digit s in if ds = [] then None else Some (ds, dropWhile is_digit s))"

definition lex_integer :: "string \<Rightarrow> (string \<times> string) option" where
  "lex_integer s = (case s of c # cs \<Rightarrow> if c = CHR ''0'' then Some ([c], cs) else lex_digits s | [] \<Rightarrow> None)"

definition lex_fraction :: "string \<Rightarrow> (string \<times> string) option" where
  "lex_fraction s =
     (case s of
        c # cs \<Rightarrow> if c = CHR ''.'' then map_option (apfst ((#) c)) (lex_digits cs) else Some ([], s)
      | [] \<Rightarrow> Some ([], []))"

definition lex_exponent :: "string \<Rightarrow> (string \<times> string) option" where
  "lex_exponent s =
     (case s of
        e # cs \<Rightarrow>
          if e \<in> {CHR ''e'', CHR ''E''} then
            (case cs of
               c # ds \<Rightarrow>
                 if c \<in> {CHR ''+'', CHR ''-''} then map_option (apfst (\<lambda>x. e # c # x)) (lex_digits ds)
                 else map_option (apfst ((#) e)) (lex_digits cs)
             | [] \<Rightarrow> None)
          else Some ([], s)
      | [] \<Rightarrow> Some ([], []))"

definition lex_seq ::
    "(string \<Rightarrow> (string \<times> string) option) \<Rightarrow> (string \<Rightarrow> (string \<times> string) option) \<Rightarrow> string \<Rightarrow> (string \<times> string) option" where
  "lex_seq f g s = Option.bind (f s) (\<lambda>(x, s'). map_option (apfst ((@) x)) (g s'))"

definition lex_sign :: "string \<Rightarrow> (string \<times> string) option" where
  "lex_sign s = (case s of c # cs \<Rightarrow> if c = CHR ''-'' then Some ([c], cs) else Some ([], s) | [] \<Rightarrow> Some ([], []))"

definition lex_number :: "string \<Rightarrow> (string \<times> string) option" where
  "lex_number = lex_seq lex_sign (lex_seq lex_integer (lex_seq lex_fraction lex_exponent))"

definition lex_literal :: "string \<Rightarrow> (json \<times> string) option" where
  "lex_literal s =
     (if take 4 s = ''true'' then Some (JBool True, drop 4 s)
      else if take 5 s = ''false'' then Some (JBool False, drop 5 s)
      else if take 4 s = ''null'' then Some (JNull, drop 4 s) else None)"

definition lex_atom :: "string \<Rightarrow> (json \<times> string) option" where
  "lex_atom s =
     (case s of
        [] \<Rightarrow> None
      | c # cs \<Rightarrow>
          if c = CHR 0x22 then map_option (apfst JString) (lex_string cs)
          else if is_digit c \<or> c = CHR ''-'' then map_option (apfst JNumber) (lex_number s)
          else lex_literal s)"

definition lex_punct :: "char \<Rightarrow> token option" where
  "lex_punct c =
     (if c = CHR ''['' then Some TLBrack else if c = CHR '']'' then Some TRBrack
      else if c = CHR ''{'' then Some TLBrace else if c = CHR ''}'' then Some TRBrace
      else if c = CHR '','' then Some TComma else if c = CHR '':'' then Some TColon else None)"

subsection \<open>Every lexeme takes a byte\<close>

lemma lex_string_shorter: "lex_string s = Some (t, r) \<Longrightarrow> length r < length s"
proof (induction s arbitrary: t r rule: lex_string.induct)
  case (1 s)
  show ?case
  proof (cases s)
    case Nil
    then show ?thesis using "1.prems" by (simp add: lex_string_Nil)
  next
    case (Cons c cs)
    consider "c = CHR 0x22" | (esc) e ds where "c = CHR 0x5C" "cs = e # ds" | (raw) "c \<noteq> CHR 0x22" "c \<noteq> CHR 0x5C"
      using "1.prems" Cons by (cases cs) (auto simp: lex_string_Cons split: if_splits)
    then show ?thesis
    proof cases
      case esc
      have u: ?thesis if eu: "e = CHR ''u''"
      proof -
        obtain t' n t'' where "unescape_unicode s = Some (t', n)" "lex_string (drop (n - 1) cs) = Some (t'', r)"
          using "1.prems" esc Cons eu by (auto simp: lex_string_Cons split: option.splits if_splits)
        from "1.IH"(1) [OF Cons _ esc(1) esc(2) that this(1) refl this(2)] esc(1) show ?thesis by (simp add: Cons)
      qed
      have ?thesis if eu: "e \<noteq> CHR ''u''"
      proof -
        obtain x t'' where x: "simple_escape e = Some x" "lex_string ds = Some (t'', r)"
          using "1.prems" esc Cons eu by (auto simp: lex_string_Cons split: option.splits if_splits)
        from "1.IH"(2) [OF Cons _ esc(1) esc(2) that x] esc show ?thesis by (simp add: Cons)
      qed
      with u show ?thesis by blast
    next
      case raw
      then obtain t' n where n: "lex_string (drop n cs) = Some (t', r)" "n = 0 \<and> rune_len s = 0 \<or> n = rune_len s - 1 \<and> rune_len s \<noteq> 0"
        "\<not> byte c < 0x20"
        using "1.prems" Cons by (fastforce simp: lex_string_Cons split: if_splits)
      then have "length r < length (drop n cs)"
        using "1.IH"(3) [OF Cons raw(1,2) n(3), of t' r] "1.IH"(4) [OF Cons raw(1,2) n(3), of t' r] by auto
      then show ?thesis using Cons by simp
    qed (use "1.prems" Cons in \<open>simp add: lex_string_Cons\<close>)
  qed
qed

lemma lex_digits_append: "lex_digits s = Some (x, r) \<Longrightarrow> s = x @ r \<and> x \<noteq> []"
  by (auto simp: lex_digits_def Let_def split: if_splits)

lemma lex_integer_append: "lex_integer s = Some (x, r) \<Longrightarrow> s = x @ r \<and> x \<noteq> []"
  by (auto simp: lex_integer_def lex_digits_append split: list.splits if_splits)

lemma lex_fraction_append: "lex_fraction s = Some (x, r) \<Longrightarrow> s = x @ r"
  by (auto simp: lex_fraction_def split: list.splits if_splits dest!: lex_digits_append)

lemma lex_exponent_append: "lex_exponent s = Some (x, r) \<Longrightarrow> s = x @ r"
  by (auto simp: lex_exponent_def split: list.splits if_splits dest!: lex_digits_append)

lemma lex_sign_append: "lex_sign s = Some (x, r) \<Longrightarrow> s = x @ r"
  by (auto simp: lex_sign_def split: list.splits if_splits)

lemma lex_seq_Some:
  "lex_seq f g s = Some (x, r) \<longleftrightarrow> (\<exists>a b s'. f s = Some (a, s') \<and> g s' = Some (b, r) \<and> x = a @ b)"
  by (auto simp: lex_seq_def bind_eq_Some_conv)

lemma lex_number_append: "lex_number s = Some (x, r) \<Longrightarrow> s = x @ r \<and> x \<noteq> []"
  by (auto simp: lex_number_def lex_seq_Some
      dest!: lex_sign_append lex_integer_append lex_fraction_append lex_exponent_append)

lemma lex_number_shorter: "lex_number s = Some (x, r) \<Longrightarrow> length r < length s"
  using lex_number_append by fastforce

lemma lex_atom_shorter: "lex_atom s = Some (v, r) \<Longrightarrow> length r < length s"
  by (auto simp: lex_atom_def lex_literal_def split: list.splits if_splits
      dest!: lex_string_shorter lex_number_shorter)

function lex_tokens :: "string \<Rightarrow> token list option" where
  "lex_tokens s =
     (case s of
        [] \<Rightarrow> Some []
      | c # cs \<Rightarrow>
          if json_space c then lex_tokens cs
          else (case lex_punct c of
                  Some p \<Rightarrow> map_option ((#) p) (lex_tokens cs)
                | None \<Rightarrow>
                    (case lex_atom s of
                       Some (v, r) \<Rightarrow> map_option ((#) (TAtom v)) (lex_tokens r)
                     | None \<Rightarrow> None)))"
  by pat_completeness auto
termination
  by (relation "measure length") (auto dest: lex_atom_shorter)

declare lex_tokens.simps [simp del]

lemmas lex_tokens_Nil = lex_tokens.simps [of "[]", unfolded list.case]
lemmas lex_tokens_Cons = lex_tokens.simps [of "c # cs" for c cs, unfolded list.case]

section \<open>The parser\<close>

fun parse_value :: "nat \<Rightarrow> token list \<Rightarrow> (json \<times> token list) option"
and parse_elements :: "nat \<Rightarrow> token list \<Rightarrow> (json list \<times> token list) option"
and parse_members :: "nat \<Rightarrow> token list \<Rightarrow> ((string \<times> json) list \<times> token list) option" where
  "parse_value 0 ts = None"
| "parse_value (Suc n) ts =
     (case ts of
        TAtom v # r \<Rightarrow> Some (v, r)
      | TLBrack # TRBrack # r \<Rightarrow> Some (JArray [], r)
      | TLBrack # r \<Rightarrow> map_option (apfst JArray) (parse_elements n r)
      | TLBrace # TRBrace # r \<Rightarrow> Some (JObject [], r)
      | TLBrace # r \<Rightarrow> map_option (apfst JObject) (parse_members n r)
      | _ \<Rightarrow> None)"
| "parse_elements 0 ts = None"
| "parse_elements (Suc n) ts =
     (case parse_value n ts of
        Some (v, TComma # r) \<Rightarrow> map_option (apfst ((#) v)) (parse_elements n r)
      | Some (v, TRBrack # r) \<Rightarrow> Some ([v], r)
      | _ \<Rightarrow> None)"
| "parse_members 0 ts = None"
| "parse_members (Suc n) ts =
     (case ts of
        TAtom (JString k) # TColon # us \<Rightarrow>
          (case parse_value n us of
             Some (v, TComma # r) \<Rightarrow> map_option (apfst ((#) (k, v))) (parse_members n r)
           | Some (v, TRBrace # r) \<Rightarrow> Some ([(k, v)], r)
           | _ \<Rightarrow> None)
      | _ \<Rightarrow> None)"

definition parse :: "string \<Rightarrow> json option" where
  \<comment> \<open>one value and nothing after it; every token is a unit of fuel\<close>
  "parse s = Option.bind (lex_tokens s) (\<lambda>ts. case parse_value (Suc (length ts)) ts of Some (v, []) \<Rightarrow> Some v | _ \<Rightarrow> None)"

fun is_atom :: "json \<Rightarrow> bool" where
  "is_atom (JArray _) = False"
| "is_atom (JObject _) = False"
| "is_atom _ = True"

definition atom_tokens :: "token list \<Rightarrow> bool" where
  "atom_tokens ts \<longleftrightarrow> (\<forall>v. TAtom v \<in> set ts \<longrightarrow> is_atom v)"

lemma is_atom_toks [simp]: "is_atom v \<Longrightarrow> toks v = [TAtom v]"
  by (cases v) auto

lemma lex_atom_is_atom: "lex_atom s = Some (v, r) \<Longrightarrow> is_atom v"
  by (auto simp: lex_atom_def lex_literal_def split: list.splits if_splits)

lemma atom_tokens_Cons: "atom_tokens (t # ts) \<longleftrightarrow> (\<forall>v. t = TAtom v \<longrightarrow> is_atom v) \<and> atom_tokens ts"
  by (auto simp: atom_tokens_def)

lemma lex_punct_not_atom: "lex_punct c \<noteq> Some (TAtom v)"
  by (simp add: lex_punct_def)

lemma lex_atom_tokens: "lex_tokens s = Some ts \<Longrightarrow> atom_tokens ts"
proof (induction s arbitrary: ts rule: lex_tokens.induct)
  case (1 s)
  show ?case
  proof (cases s)
    case Nil
    then show ?thesis using "1.prems" by (simp add: lex_tokens_Nil atom_tokens_def)
  next
    case (Cons c cs)
    then show ?thesis
      using "1.prems" "1.IH"(1) [OF Cons] "1.IH"(2,3) [OF Cons] lex_punct_not_atom lex_atom_is_atom
      by (fastforce simp: lex_tokens_Cons atom_tokens_Cons split: if_splits option.splits)
  qed
qed

subsection \<open>Parsing is sound and complete for the grammar\<close>

abbreviation member_toks :: "string \<times> json \<Rightarrow> token list" where
  "member_toks m \<equiv> TAtom (JString (fst m)) # TColon # toks (snd m)"

lemma toks_JObject: "toks (JObject ms) = TLBrace # commas (map member_toks ms) @ [TRBrace]"
  by (simp add: case_prod_unfold comp_def map_prod_def)

declare toks.simps(6) [simp del]
declare toks_JObject [simp]

lemma commas_Cons: "commas (ts # rest) = (if rest = [] then ts else ts @ TComma # commas rest)"
  by (cases rest) auto

lemma atom_tokens_append [simp]: "atom_tokens (ts @ us) \<longleftrightarrow> atom_tokens ts \<and> atom_tokens us"
  by (auto simp: atom_tokens_def)

lemma parse_sound:
  "atom_tokens ts \<longrightarrow> (\<forall>v r. parse_value n ts = Some (v, r) \<longrightarrow> ts = toks v @ r)"
  "atom_tokens ts \<longrightarrow> (\<forall>vs r. parse_elements n ts = Some (vs, r) \<longrightarrow> vs \<noteq> [] \<and> ts = commas (map toks vs) @ TRBrack # r)"
  "atom_tokens ts \<longrightarrow> (\<forall>ms r. parse_members n ts = Some (ms, r) \<longrightarrow> ms \<noteq> [] \<and> ts = commas (map member_toks ms) @ TRBrace # r)"
proof (induction n ts and n ts and n ts rule: parse_value_parse_elements_parse_members.induct)
  case (2 n ts)
  then show ?case
    by (auto simp: atom_tokens_Cons split: list.splits token.splits)
next
  case (4 n ts)
  then show ?case
    by (fastforce simp: atom_tokens_Cons commas_Cons split: list.splits token.splits option.splits)
next
  case (6 n ts)
  then show ?case
    by (fastforce simp: atom_tokens_Cons commas_Cons split: list.splits token.splits option.splits json.splits)
qed simp_all

lemma toks_head: "\<exists>t ts. toks v = t # ts \<and> t \<noteq> TRBrack \<and> t \<noteq> TRBrace"
  by (cases v) (simp_all del: is_atom_toks)

definition parses :: "json \<Rightarrow> bool" where
  "parses v \<longleftrightarrow> (\<forall>n r. length (toks v) \<le> n \<longrightarrow> parse_value n (toks v @ r) = Some (v, r))"

lemma parse_elements_complete:
  "\<forall>v\<in>set vs. parses v \<Longrightarrow> vs \<noteq> [] \<Longrightarrow> length (commas (map toks vs)) < n \<Longrightarrow>
   parse_elements n (commas (map toks vs) @ TRBrack # r) = Some (vs, r)"
proof (induction vs arbitrary: n)
  case (Cons v vs)
  then obtain m where n: "n = Suc m" by (cases n) auto
  have v: "parse_value m (toks v @ us) = Some (v, us)" for us
    using Cons.prems n by (auto simp: parses_def commas_Cons split: if_splits)
  show ?case
  proof (cases "vs = []")
    case True
    then show ?thesis by (simp add: n v)
  next
    case False
    then have "parse_elements m (commas (map toks vs) @ TRBrack # r) = Some (vs, r)"
      using Cons.prems n by (intro Cons.IH) (auto simp: commas_Cons)
    then show ?thesis using False by (simp add: n v commas_Cons)
  qed
qed simp

lemma parse_members_complete:
  "\<forall>m\<in>set ms. parses (snd m) \<Longrightarrow> ms \<noteq> [] \<Longrightarrow> length (commas (map member_toks ms)) < n \<Longrightarrow>
   parse_members n (commas (map member_toks ms) @ TRBrace # r) = Some (ms, r)"
proof (induction ms arbitrary: n)
  case (Cons m ms)
  then obtain k where n: "n = Suc k" by (cases n) auto
  have v: "parse_value k (toks (snd m) @ us) = Some (snd m, us)" for us
    using Cons.prems n by (auto simp: parses_def commas_Cons split: if_splits)
  show ?case
  proof (cases "ms = []")
    case True
    then show ?thesis by (simp add: n v)
  next
    case False
    then have "parse_members k (commas (map member_toks ms) @ TRBrace # r) = Some (ms, r)"
      using Cons.prems n by (intro Cons.IH) (auto simp: commas_Cons)
    then show ?thesis using False by (simp add: n v commas_Cons)
  qed
qed simp

lemma parse_value_Suc_array:
  "vs \<noteq> [] \<Longrightarrow> parse_value (Suc n) (TLBrack # commas (map toks vs) @ r) =
   map_option (apfst JArray) (parse_elements n (commas (map toks vs) @ r))"
  using toks_head [of "hd vs"] by (cases vs) (auto simp: commas_Cons split: token.splits)

lemma parse_value_Suc_object:
  "ms \<noteq> [] \<Longrightarrow> parse_value (Suc n) (TLBrace # commas (map member_toks ms) @ r) =
   map_option (apfst JObject) (parse_members n (commas (map member_toks ms) @ r))"
  by (cases ms) (auto simp: commas_Cons)

lemma parse_complete: "parses v"
proof (induction v)
  case (JArray vs)
  show ?case
    unfolding parses_def
  proof (intro allI impI)
    fix n r assume n: "length (toks (JArray vs)) \<le> n"
    then obtain m where m: "n = Suc m" by (cases n) auto
    show "parse_value n (toks (JArray vs) @ r) = Some (JArray vs, r)"
    proof (cases "vs = []")
      case False
      then have "parse_elements m (commas (map toks vs) @ TRBrack # r) = Some (vs, r)"
        using JArray n m by (intro parse_elements_complete) auto
      then show ?thesis using parse_value_Suc_array [OF False, of m "TRBrack # r"] m by simp
    qed (simp add: m)
  qed
next
  case (JObject ms)
  show ?case
    unfolding parses_def
  proof (intro allI impI)
    fix n r assume n: "length (toks (JObject ms)) \<le> n"
    then obtain m where m: "n = Suc m" by (cases n) auto
    have ih: "\<forall>m\<in>set ms. parses (snd m)"
      using JObject by (metis prod.collapse prod_set_simps(2) singletonI snds.intros)
    show "parse_value n (toks (JObject ms) @ r) = Some (JObject ms, r)"
    proof (cases "ms = []")
      case False
      then have "parse_members m (commas (map member_toks ms) @ TRBrace # r) = Some (ms, r)"
        using ih n m by (intro parse_members_complete) auto
      then show ?thesis using parse_value_Suc_object [OF False, of m "TRBrace # r"] m by simp
    qed (simp add: m)
  qed
qed (auto simp: parses_def Suc_le_eq gr0_conv_Suc)

lemma parse_iff: "parse s = Some v \<longleftrightarrow> lex_tokens s = Some (toks v)"
proof
  assume "parse s = Some v"
  then obtain ts where ts: "lex_tokens s = Some ts"
    "(case parse_value (Suc (length ts)) ts of Some (v, []) \<Rightarrow> Some v | _ \<Rightarrow> None) = Some v"
    by (auto simp: parse_def bind_eq_Some_conv simp del: parse_value.simps)
  then have "parse_value (Suc (length ts)) ts = Some (v, [])"
    by (auto simp del: parse_value.simps split: option.splits list.splits)
  then show "lex_tokens s = Some (toks v)"
    using ts(1) parse_sound(1) [of ts "Suc (length ts)"] lex_atom_tokens [OF ts(1)] by (simp del: parse_value.simps)
next
  assume "lex_tokens s = Some (toks v)"
  moreover have "parse_value (Suc (length (toks v))) (toks v) = Some (v, [])"
    using parse_complete [of v] unfolding parses_def by (metis append_Nil2 le_SucI order_refl)
  ultimately show "parse s = Some v" by (simp add: parse_def)
qed

section \<open>Numbers in context\<close>

definition number_char :: "char \<Rightarrow> bool" where
  "number_char c \<longleftrightarrow> is_digit c \<or> c \<in> {CHR ''.'', CHR ''e'', CHR ''E'', CHR ''+'', CHR ''-''}"

definition stops :: "string \<Rightarrow> bool" where
  "stops r \<longleftrightarrow> (case r of [] \<Rightarrow> True | c # _ \<Rightarrow> \<not> number_char c)"

definition extends :: "(string \<Rightarrow> (string \<times> string) option) \<Rightarrow> bool" where
  \<comment> \<open>what is read does not depend on what follows a number, in either direction\<close>
  "extends f \<longleftrightarrow>
     (\<forall>s x y r. f s = Some (x, y) \<longrightarrow> stops r \<longrightarrow> f (s @ r) = Some (x, y @ r)) \<and>
     (\<forall>x y r. f (x @ y @ r) = Some (x, y @ r) \<longrightarrow> f (x @ y) = Some (x, y))"

lemma stops_digit: "stops (c # cs) \<Longrightarrow> \<not> is_digit c"
  by (simp add: stops_def number_char_def)

lemma lex_digits_extends: "extends lex_digits"
  unfolding extends_def
proof (intro conjI allI impI)
  fix s x y r assume "lex_digits s = Some (x, y)" "stops r"
  then have xy: "x = takeWhile is_digit s" "y = dropWhile is_digit s" "x \<noteq> []"
    by (auto simp: lex_digits_def Let_def split: if_splits)
  have r: "takeWhile is_digit r = []" "dropWhile is_digit r = r"
    using \<open>stops r\<close> by (cases r; simp add: stops_digit)+
  show "lex_digits (s @ r) = Some (x, y @ r)"
  proof (cases "\<forall>c\<in>set s. is_digit c")
    case True
    then have "x = s" "y = []" "s \<noteq> []" using xy by (auto simp: takeWhile_eq_all_conv dropWhile_eq_Nil_conv)
    then show ?thesis using True r by (simp add: lex_digits_def Let_def takeWhile_append2 dropWhile_append2)
  next
    case False
    then obtain c where "c \<in> set s" "\<not> is_digit c" by auto
    then show ?thesis using xy by (simp add: lex_digits_def Let_def takeWhile_append1 dropWhile_append1)
  qed
next
  fix x y r assume "lex_digits (x @ y @ r) = Some (x, y @ r)"
  then have "takeWhile is_digit (x @ y @ r) = x" "x \<noteq> []" by (auto simp: lex_digits_def Let_def split: if_splits)
  then have "\<forall>c\<in>set x. is_digit c" "takeWhile is_digit y = []"
    by (metis set_takeWhileD, metis append_self_conv set_takeWhileD takeWhile_append2 takeWhile_eq_Nil_iff hd_append append_is_Nil_conv)
  then show "lex_digits (x @ y) = Some (x, y)"
    using \<open>x \<noteq> []\<close> by (simp add: lex_digits_def Let_def takeWhile_append2 dropWhile_append2 takeWhile_eq_Nil_iff dropWhile_eq_self_iff)
qed

lemma extendsD:
  "extends f \<Longrightarrow> f s = Some (x, y) \<Longrightarrow> stops r \<Longrightarrow> f (s @ r) = Some (x, y @ r)"
  "extends f \<Longrightarrow> f (x @ y @ r) = Some (x, y @ r) \<Longrightarrow> f (x @ y) = Some (x, y)"
  unfolding extends_def by blast+

lemmas digits_extendsD = extendsD [OF lex_digits_extends]

lemma lex_digits_Nil [simp]: "lex_digits [] = None"
  by (simp add: lex_digits_def)

lemma lex_integer_extends: "extends lex_integer"
  unfolding extends_def
proof (intro conjI allI impI)
  fix s x y r assume "lex_integer s = Some (x, y)" "stops r"
  then show "lex_integer (s @ r) = Some (x, y @ r)"
    using digits_extendsD(1) [of s x y r] by (auto simp: lex_integer_def split: list.splits if_splits)
next
  fix x y r assume a: "lex_integer (x @ y @ r) = Some (x, y @ r)"
  then have "x \<noteq> []" using lex_integer_append by blast
  with a show "lex_integer (x @ y) = Some (x, y)"
    using digits_extendsD(2) [of x y r] by (cases x) (auto simp: lex_integer_def split: if_splits)
qed

lemma stops_head: "stops r \<Longrightarrow> r = c # cs \<Longrightarrow> c \<noteq> CHR ''.'' \<and> c \<noteq> CHR ''e'' \<and> c \<noteq> CHR ''E'' \<and> c \<noteq> CHR ''-''"
  by (auto simp: stops_def number_char_def)

lemma lex_fraction_extends: "extends lex_fraction"
  unfolding extends_def
proof (intro conjI allI impI)
  fix s x y r assume a: "lex_fraction s = Some (x, y)" "stops r"
  show "lex_fraction (s @ r) = Some (x, y @ r)"
  proof (cases s)
    case Nil
    then show ?thesis using a stops_head [OF a(2)] by (cases r) (auto simp: lex_fraction_def)
  next
    case (Cons c cs)
    then show ?thesis using a digits_extendsD(1) [of cs "tl x" y r]
      by (auto simp: lex_fraction_def split: if_splits)
  qed
next
  fix x y r assume a: "lex_fraction (x @ y @ r) = Some (x, y @ r)"
  show "lex_fraction (x @ y) = Some (x, y)"
  proof (cases x)
    case Nil
    then show ?thesis using a by (cases y) (auto simp: lex_fraction_def split: if_splits)
  next
    case (Cons c cs)
    then show ?thesis using a digits_extendsD(2) [of cs y r]
      by (auto simp: lex_fraction_def split: if_splits)
  qed
qed

lemma lex_sign_extends: "extends lex_sign"
  unfolding extends_def
proof (intro conjI allI impI)
  fix s x y r assume a: "lex_sign s = Some (x, y)" "stops r"
  then show "lex_sign (s @ r) = Some (x, y @ r)"
    using stops_head [OF a(2)] by (cases s; cases r) (auto simp: lex_sign_def split: if_splits)
next
  fix x y r assume "lex_sign (x @ y @ r) = Some (x, y @ r)"
  then show "lex_sign (x @ y) = Some (x, y)"
    by (cases x; cases y) (auto simp: lex_sign_def split: if_splits)
qed

lemma lex_exponent_extends: "extends lex_exponent"
  unfolding extends_def
proof (intro conjI allI impI)
  fix s x y r assume a: "lex_exponent s = Some (x, y)" "stops r"
  show "lex_exponent (s @ r) = Some (x, y @ r)"
  proof (cases s)
    case Nil
    then show ?thesis using a stops_head [OF a(2)] by (cases r) (auto simp: lex_exponent_def)
  next
    case (Cons e cs)
    show ?thesis
    proof (cases cs)
      case Nil
      then show ?thesis using a Cons by (auto simp: lex_exponent_def split: if_splits)
    next
      case (Cons c ds)
      then show ?thesis
        using a \<open>s = e # cs\<close> digits_extendsD(1) [of ds "tl (tl x)" y r] digits_extendsD(1) [of cs "tl x" y r]
        by (auto simp: lex_exponent_def split: if_splits)
    qed
  qed
next
  fix x y r assume a: "lex_exponent (x @ y @ r) = Some (x, y @ r)"
  show "lex_exponent (x @ y) = Some (x, y)"
  proof (cases x)
    case Nil
    then show ?thesis using a by (cases y) (auto simp: lex_exponent_def split: if_splits list.splits)
  next
    case (Cons e cs)
    then have "cs \<noteq> []" using a by (auto simp: lex_exponent_def split: if_splits list.splits dest: lex_digits_append)
    then obtain c ds where "cs = c # ds" by (cases cs) auto
    then show ?thesis
      using a Cons digits_extendsD(2) [of ds y r] digits_extendsD(2) [of cs y r]
      by (auto simp: lex_exponent_def split: if_splits)
  qed
qed

lemma lex_seq_extends:
  assumes "extends f" "extends g" "\<And>s x y. f s = Some (x, y) \<Longrightarrow> s = x @ y" "\<And>s x y. g s = Some (x, y) \<Longrightarrow> s = x @ y"
  shows "extends (lex_seq f g)"
  unfolding extends_def
proof (intro conjI allI impI)
  fix s x y r assume "lex_seq f g s = Some (x, y)" "stops r"
  then show "lex_seq f g (s @ r) = Some (x, y @ r)"
    using extendsD(1) [OF assms(1)] extendsD(1) [OF assms(2)] unfolding lex_seq_Some by blast
next
  fix x y r assume "lex_seq f g (x @ y @ r) = Some (x, y @ r)"
  then obtain a b s' where fg: "f (x @ y @ r) = Some (a, s')" "g s' = Some (b, y @ r)" "x = a @ b"
    unfolding lex_seq_Some by blast
  then have s': "s' = b @ y @ r" using assms(4) by blast
  have "f (a @ (b @ y) @ r) = Some (a, (b @ y) @ r)" using fg s' by simp
  then have "f (x @ y) = Some (a, b @ y)" using extendsD(2) [OF assms(1)] fg(3) by simp
  moreover have "g (b @ y) = Some (b, y)" using extendsD(2) [OF assms(2)] fg(2) s' by blast
  ultimately show "lex_seq f g (x @ y) = Some (x, y)" using fg(3) unfolding lex_seq_Some by blast
qed

lemma lex_seq_append:
  assumes "\<And>s x y. f s = Some (x, y) \<Longrightarrow> s = x @ y" "\<And>s x y. g s = Some (x, y) \<Longrightarrow> s = x @ y"
  shows "lex_seq f g s = Some (x, y) \<Longrightarrow> s = x @ y"
  using assms unfolding lex_seq_Some by fastforce

lemma lex_integer_split: "lex_integer s = Some (x, r) \<Longrightarrow> s = x @ r"
  using lex_integer_append by blast

lemma lex_number_extends: "extends lex_number"
proof -
  let ?fe = "lex_seq lex_fraction lex_exponent"
  have fe: "extends ?fe"
    by (rule lex_seq_extends [OF lex_fraction_extends lex_exponent_extends]; erule lex_fraction_append lex_exponent_append)
  have fe_split: "?fe s = Some (x, y) \<Longrightarrow> s = x @ y" for s x y
    by (rule lex_seq_append [of lex_fraction lex_exponent]; (erule lex_fraction_append lex_exponent_append)?)
  have ife: "extends (lex_seq lex_integer ?fe)"
    by (rule lex_seq_extends [OF lex_integer_extends fe]; erule lex_integer_split fe_split)
  have ife_split: "lex_seq lex_integer ?fe s = Some (x, y) \<Longrightarrow> s = x @ y" for s x y
    by (rule lex_seq_append [of lex_integer ?fe]; (erule lex_integer_split fe_split)?)
  show ?thesis
    unfolding lex_number_def
    by (rule lex_seq_extends [OF lex_sign_extends ife]; erule lex_sign_append ife_split)
qed

definition number_literal :: "string \<Rightarrow> bool" where
  "number_literal s \<longleftrightarrow> lex_number s = Some (s, [])"

lemma number_literal_stops: "number_literal s \<Longrightarrow> stops r \<Longrightarrow> lex_number (s @ r) = Some (s, r)"
  using extendsD(1) [OF lex_number_extends, of s s "[]" r] by (simp add: number_literal_def)

lemma lex_number_literal: "lex_number s = Some (x, r) \<Longrightarrow> number_literal x"
  using extendsD(2) [OF lex_number_extends, of x "[]" r] lex_number_append [of s x r]
  by (auto simp: number_literal_def)

end
