(* ===== verification/Exact_JSON.thy ===== *)
theory Exact_JSON
  imports Go_JSON
begin

text \<open>
  The exact JSON contracts of \<^verbatim>\<open>internal/exactjson\<close>: the canonical text of a value
  (\<^verbatim>\<open>canonical.go\<close>), the rejection of repeated keys and of inexact field names
  (\<^verbatim>\<open>exact_json.go\<close>).

  \<^verbatim>\<open>Canonical\<close> first marshals a Go value; the model starts from that text. Its decoded form is
  \<open>decode_any\<close>: in a \<^verbatim>\<open>map[string]any\<close> the last of several equal keys wins, and the map has no
  order, which the model fixes to the order of the keys.
\<close>

section \<open>Decoded values\<close>

primrec depth :: "json \<Rightarrow> nat" where
  "depth JNull = 0"
| "depth (JBool b) = 0"
| "depth (JNumber n) = 0"
| "depth (JString s) = 0"
| "depth (JArray vs) = Suc (fold max (map depth vs) 0)"
| "depth (JObject ms) = Suc (fold max (map snd (map (map_prod id depth) ms)) 0)"

definition as_map :: "(string \<times> 'a) list \<Rightarrow> (string \<times> 'a) list" where
  "as_map ms = map (\<lambda>k. (k, the (map_of (rev ms) k))) (sort (remdups (map fst ms)))"

primrec decode_any :: "json \<Rightarrow> json" where
  "decode_any JNull = JNull"
| "decode_any (JBool b) = JBool b"
| "decode_any (JNumber n) = JNumber n"
| "decode_any (JString s) = JString s"
| "decode_any (JArray vs) = JArray (map decode_any vs)"
| "decode_any (JObject ms) = JObject (as_map (map (map_prod id decode_any) ms))"

function lex_prefix :: "string \<Rightarrow> token list" where
  \<comment> \<open>the tokens up to the first byte that starts none\<close>
  "lex_prefix s =
     (case s of
        [] \<Rightarrow> []
      | c # cs \<Rightarrow>
          if json_space c then lex_prefix cs
          else (case lex_punct c of
                  Some p \<Rightarrow> p # lex_prefix cs
                | None \<Rightarrow>
                    (case lex_atom s of
                       Some (v, r) \<Rightarrow> TAtom v # lex_prefix r
                     | None \<Rightarrow> [])))"
  by pat_completeness auto
termination
  by (relation "measure length") (auto dest: lex_atom_shorter)

declare lex_prefix.simps [simp del]

definition Decode :: "string \<Rightarrow> json option" where
  \<comment> \<open>\<^verbatim>\<open>decoder.Decode(&value)\<close>: the first value of a text, without what follows it\<close>
  "Decode s =
     (case parse_value (Suc (length (lex_prefix s))) (lex_prefix s) of
        Some (v, _) \<Rightarrow> if depth v \<le> 10000 then Some (decode_any v) else None
      | None \<Rightarrow> None)"

section \<open>The canonical text\<close>

definition hex_digit :: "nat \<Rightarrow> char" where
  "hex_digit n = ''0123456789abcdef'' ! n"

definition canonical_char :: "char \<Rightarrow> string" where
  "canonical_char c =
     (if c \<in> {CHR 0x22, CHR 0x5C} then [CHR 0x5C, c]
      else if c = CHR 0x08 then [CHR 0x5C, CHR ''b''] else if c = CHR 0x0C then [CHR 0x5C, CHR ''f'']
      else if c = CHR 0x0A then [CHR 0x5C, CHR ''n''] else if c = CHR 0x0D then [CHR 0x5C, CHR ''r'']
      else if c = CHR 0x09 then [CHR 0x5C, CHR ''t'']
      else if byte c < 0x20 then
        [CHR 0x5C, CHR ''u'', CHR ''0'', CHR ''0'', hex_digit (byte c div 16), hex_digit (byte c mod 16)]
      else [c])"

function canonical_chars :: "string \<Rightarrow> string" where
  "canonical_chars s =
     (if s = [] then []
      else if rune_len s = 0 then replacement @ canonical_chars (tl s)
      else (if rune_len s = 1 then canonical_char (hd s) else take (rune_len s) s)
           @ canonical_chars (drop (rune_len s) s))"
  by pat_completeness auto
termination
  by (relation "measure length") (auto intro!: diff_less)

declare canonical_chars.simps [simp del]

definition writeCanonicalString :: "string \<Rightarrow> string" where
  "writeCanonicalString s = CHR 0x22 # canonical_chars s @ [CHR 0x22]"

fun joined :: "string list \<Rightarrow> string" where
  "joined [] = []"
| "joined [x] = x"
| "joined (x # y # ys) = x @ CHR '','' # joined (y # ys)"

primrec writeCanonical :: "json \<Rightarrow> string" where
  "writeCanonical JNull = ''null''"
| "writeCanonical (JBool b) = (if b then ''true'' else ''false'')"
| "writeCanonical (JNumber n) = n"
| "writeCanonical (JString s) = writeCanonicalString s"
| "writeCanonical (JArray vs) = CHR ''['' # joined (map writeCanonical vs) @ '']''"
| "writeCanonical (JObject ms) =
     CHR ''{'' # joined (map (\<lambda>(k, x). writeCanonicalString k @ CHR '':'' # x)
                       (sort_key fst (map (map_prod id writeCanonical) ms))) @ ''}''"

definition Canonical :: "string \<Rightarrow> string option" where
  "Canonical raw = map_option writeCanonical (Decode raw)"

subsection \<open>Well-formed encodings\<close>

lemma rune_len_le: "rune_len s \<le> length s"
  by (auto simp: rune_len_def split: list.splits)

lemma rune_len_4: "rune_len s \<le> 4"
  by (auto simp: rune_len_def split: list.splits)

lemma rune_len_intro:
  "byte a < 0x80 \<Longrightarrow> rune_len (a # t) = 1"
  "utf8_2 a b \<Longrightarrow> rune_len (a # b # t) = 2"
  "utf8_3 a b c \<Longrightarrow> rune_len (a # b # c # t) = 3"
  "utf8_4 a b c d \<Longrightarrow> rune_len (a # b # c # d # t) = 4"
  by (simp_all add: rune_len_def utf8_2_def utf8_3_def utf8_4_def)

lemma rune_len_cases:
  assumes "rune_len s \<noteq> 0"
  obtains (1) a t where "s = a # t" "byte a < 0x80" | (2) a b t where "s = a # b # t" "utf8_2 a b"
    | (3) a b c t where "s = a # b # c # t" "utf8_3 a b c" | (4) a b c d t where "s = a # b # c # d # t" "utf8_4 a b c d"
proof -
  obtain a t1 where s: "s = a # t1" using assms by (cases s) (auto simp: rune_len_def)
  show ?thesis
  proof (cases "byte a < 0x80")
    case True
    then show ?thesis using s that(1) by blast
  next
    case a: False
    then obtain b t2 where t1: "t1 = b # t2" using assms s by (cases t1) (auto simp: rune_len_def)
    show ?thesis
    proof (cases "utf8_2 a b")
      case True
      then show ?thesis using s t1 that(2) by blast
    next
      case b: False
      then obtain c t3 where t2: "t2 = c # t3" using assms s t1 a by (cases t2) (auto simp: rune_len_def)
      show ?thesis
      proof (cases "utf8_3 a b c")
        case True
        then show ?thesis using s t1 t2 that(3) by blast
      next
        case False
        then obtain d t4 where "t3 = d # t4" "utf8_4 a b c d"
          using assms s t1 t2 a b by (cases t3) (auto simp: rune_len_def split: if_splits)
        then show ?thesis using s t1 t2 that(4) by blast
      qed
    qed
  qed
qed

lemma utf8_high: "utf8_2 a b \<Longrightarrow> 0x80 \<le> byte a" "utf8_3 a b c \<Longrightarrow> 0x80 \<le> byte a" "utf8_4 a b c d \<Longrightarrow> 0x80 \<le> byte a"
  by (simp_all add: utf8_2_def utf8_3_def utf8_4_def)

lemma rune_len_append: "rune_len s \<noteq> 0 \<Longrightarrow> rune_len (s @ t) = rune_len s"
  by (erule rune_len_cases) (simp_all add: rune_len_intro)

lemma rune_len_take: "rune_len s \<noteq> 0 \<Longrightarrow> rune_len (take (rune_len s) s) = rune_len s"
  by (erule rune_len_cases) (simp_all add: rune_len_intro)

lemma rune_len_high: "rune_len s \<noteq> 0 \<Longrightarrow> rune_len s \<noteq> 1 \<Longrightarrow> 0x80 \<le> byte (hd s)"
  by (erule rune_len_cases) (simp_all add: rune_len_intro utf8_high)

lemma rune_len_1: "rune_len s = 1 \<Longrightarrow> byte (hd s) < 0x80"
  by (rule rune_len_cases [of s]) (simp_all add: rune_len_intro)

lemma ValidString_append: "ValidString s \<Longrightarrow> ValidString t \<Longrightarrow> ValidString (s @ t)"
proof (induction s rule: ValidString.induct)
  case (1 s)
  show ?case
  proof (cases "s = []")
    case False
    then have n: "rune_len s \<noteq> 0" "ValidString (drop (rune_len s) s)"
      using "1.prems"(1) by (auto simp: ValidString.simps [of s] split: if_splits)
    then have "ValidString (drop (rune_len s) s @ t)" using 1 False by simp
    then show ?thesis
      using n False rune_len_le [of s] by (subst ValidString.simps) (simp add: rune_len_append)
  qed (use 1 in simp)
qed

lemma ValidString_rune: "rune_len s \<noteq> 0 \<Longrightarrow> ValidString (take (rune_len s) s)"
  using rune_len_take [of s] rune_len_le [of s] by (subst ValidString.simps) auto

lemma ValidString_replacement: "ValidString replacement"
  by code_simp

lemma ValidString_ascii: "byte c < 0x80 \<Longrightarrow> ValidString [c]"
  by (subst ValidString.simps) (simp add: rune_len_def)

lemma byte_char_of: "n < 256 \<Longrightarrow> byte (char_of n) = n"
  by simp

lemma utf8_2I: "2 \<le> a \<Longrightarrow> a < 0x20 \<Longrightarrow> b < 0x40 \<Longrightarrow> utf8_2 (char_of (0xC0 + a :: nat)) (char_of (0x80 + b :: nat))"
  by (simp add: utf8_2_def cont_byte_def)

lemma utf8_3I:
  "a < 0x10 \<Longrightarrow> b < 0x40 \<Longrightarrow> c < 0x40 \<Longrightarrow> (a = 0 \<Longrightarrow> 0x20 \<le> b) \<Longrightarrow> (a = 0xD \<Longrightarrow> b < 0x20) \<Longrightarrow>
   utf8_3 (char_of (0xE0 + a :: nat)) (char_of (0x80 + b :: nat)) (char_of (0x80 + c :: nat))"
  by (simp add: utf8_3_def cont_byte_def) linarith

lemma utf8_4I:
  "a < 5 \<Longrightarrow> b < 0x40 \<Longrightarrow> c < 0x40 \<Longrightarrow> d < 0x40 \<Longrightarrow> (a = 0 \<Longrightarrow> 0x10 \<le> b) \<Longrightarrow> (a = 4 \<Longrightarrow> b < 0x10) \<Longrightarrow>
   utf8_4 (char_of (0xF0 + a :: nat)) (char_of (0x80 + b :: nat)) (char_of (0x80 + c :: nat)) (char_of (0x80 + d :: nat))"
  by (simp add: utf8_4_def cont_byte_def) linarith

lemma ValidString_2: "utf8_2 a b \<Longrightarrow> ValidString [a, b]"
  by (subst ValidString.simps) (simp add: rune_len_intro)

lemma ValidString_3: "utf8_3 a b c \<Longrightarrow> ValidString [a, b, c]"
  by (subst ValidString.simps) (simp add: rune_len_intro)

lemma ValidString_4: "utf8_4 a b c d \<Longrightarrow> ValidString [a, b, c, d]"
  by (subst ValidString.simps) (simp add: rune_len_intro)

lemma ValidString_encode_rune:
  assumes "r < 0x110000" "\<not> (0xD800 \<le> r \<and> r < 0xE000)"
  shows "ValidString (encode_rune r)"
proof -
  have a3: "r div 0x1000 = r div 0x40 div 0x40" "r div 0x40000 = r div 0x1000 div 0x40"
    by (simp_all add: div_mult2_eq [symmetric])
  consider (1) "r < 0x80" | (2) "0x80 \<le> r" "r < 0x800" | (3) "0x800 \<le> r" "r < 0x10000" | (4) "0x10000 \<le> r" by linarith
  then show ?thesis
  proof cases
    case 1
    then show ?thesis by (simp add: encode_rune_def ValidString_ascii)
  next
    case 2
    then have q: "2 \<le> r div 0x40" "r div 0x40 < 0x20" by linarith+
    show ?thesis
      unfolding encode_rune_def using 2 ValidString_2 [OF utf8_2I [OF q, of "r mod 0x40"]] by simp
  next
    case 3
    have q: "0x20 \<le> r div 0x40" "r div 0x40 < 0x400" "r div 0x40 < 0x360 \<or> 0x380 \<le> r div 0x40"
      using 3 assms(2) by linarith+
    have "r div 0x1000 < 0x10" "r div 0x1000 = 0 \<Longrightarrow> 0x20 \<le> r div 0x40 mod 0x40" "r div 0x1000 = 0xD \<Longrightarrow> r div 0x40 mod 0x40 < 0x20"
      unfolding a3 using q div_mult_mod_eq [of "r div 0x40" "0x40"] by linarith+
    from ValidString_3 [OF utf8_3I [OF this(1) _ _ this(2,3), of "r mod 0x40"]]
    show ?thesis unfolding encode_rune_def using 3 by simp
  next
    case 4
    have q: "0x10 \<le> r div 0x1000" "r div 0x1000 < 0x110" using 4 assms(1) by linarith+
    have "r div 0x40000 < 5" "r div 0x40000 = 0 \<Longrightarrow> 0x10 \<le> r div 0x1000 mod 0x40" "r div 0x40000 = 4 \<Longrightarrow> r div 0x1000 mod 0x40 < 0x10"
      unfolding a3(2) using q div_mult_mod_eq [of "r div 0x1000" "0x40"] by linarith+
    from ValidString_4 [OF utf8_4I [OF this(1) _ _ _ this(2,3), of "r div 0x40 mod 0x40" "r mod 0x40"]]
    show ?thesis unfolding encode_rune_def using 4 by simp
  qed
qed

subsection \<open>A lexed string is valid UTF-8\<close>

lemma hex_val_less: "hex_val c = Some x \<Longrightarrow> x < 16"
  by (auto simp: hex_val_def is_digit_def split: if_splits)

lemma hex_step: "a < n \<Longrightarrow> x < 16 \<Longrightarrow> a * 16 + x < n * (16 :: nat)"
  using mult_le_mono1 [of "Suc a" n 16] by simp

lemma getu4_less: "getu4 s = Some r \<Longrightarrow> r < 0x10000"
proof -
  assume "getu4 s = Some r"
  then obtain x1 x2 x3 x4 where "r = ((x1 * 16 + x2) * 16 + x3) * 16 + x4" "x1 < 16" "x2 < 16" "x3 < 16" "x4 < 16"
    by (auto simp: getu4_def hex_val_less split: list.splits if_splits option.splits)
  then show ?thesis using hex_step [OF hex_step [OF hex_step, of x1 16 x2 x3] , of x4] by simp
qed

lemma unescape_unicode_valid:
  assumes "unescape_unicode s = Some (t, n)"
  shows "ValidString t"
proof -
  obtain r where r: "getu4 s = Some r" using assms by (auto simp: unescape_unicode_def split: option.splits)
  consider "t = encode_rune r" "\<not> (0xD800 \<le> r \<and> r < 0xE000)" | "t = replacement"
    | r2 where "t = encode_rune ((r - 0xD800) * 0x400 + (r2 - 0xDC00) + 0x10000)" "0xD800 \<le> r" "r < 0xDC00" "0xDC00 \<le> r2" "r2 < 0xE000"
    using assms r by (auto simp: unescape_unicode_def split: if_splits option.splits)
  then show ?thesis
  proof cases
    case 1
    then show ?thesis using getu4_less [OF r] by (simp add: ValidString_encode_rune)
  next
    case 3
    then have "(r - 0xD800) * 0x400 + (r2 - 0xDC00) + 0x10000 < 0x110000" by linarith
    then show ?thesis using 3(1) by (simp add: ValidString_encode_rune)
  qed (simp add: ValidString_replacement)
qed

lemma simple_escape_valid: "simple_escape e = Some x \<Longrightarrow> ValidString [x]"
  by (rule ValidString_ascii) (auto simp: simple_escape_def split: if_splits)

lemma lex_string_valid: "lex_string s = Some (t, r) \<Longrightarrow> ValidString t"
proof (induction s arbitrary: t r rule: lex_string.induct)
  case (1 s)
  show ?case
  proof (cases s)
    case Nil
    then show ?thesis using "1.prems" by (simp add: lex_string_Nil)
  next
    case (Cons c cs)
    consider "c = CHR 0x22" | (esc) e ds where "c = CHR 0x5C" "cs = e # ds" | (raw) "c \<noteq> CHR 0x22" "c \<noteq> CHR 0x5C"
      using "1.prems" Cons by (cases cs) (auto simp: lex_string_Cons split: if_splits)
    then show ?thesis
    proof cases
      case esc
      have u: ?thesis if eu: "e = CHR ''u''"
      proof -
        obtain t' n t'' where t: "unescape_unicode s = Some (t', n)" "lex_string (drop (n - 1) cs) = Some (t'', r)" "t = t' @ t''"
          using "1.prems" esc Cons eu by (auto simp: lex_string_Cons split: option.splits if_splits)
        from "1.IH"(1) [OF Cons _ esc(1) esc(2) eu t(1) refl t(2)] esc(1) unescape_unicode_valid [OF t(1)] t(3)
        show ?thesis by (simp add: ValidString_append)
      qed
      have ?thesis if eu: "e \<noteq> CHR ''u''"
      proof -
        obtain x t'' where x: "simple_escape e = Some x" "lex_string ds = Some (t'', r)" "t = x # t''"
          using "1.prems" esc Cons eu by (auto simp: lex_string_Cons split: option.splits if_splits)
        from "1.IH"(2) [OF Cons _ esc(1) esc(2) eu x(1,2)] esc ValidString_append [OF simple_escape_valid [OF x(1)], of t''] x(3)
        show ?thesis by simp
      qed
      with u show ?thesis by blast
    next
      case raw
      have hi: "\<not> byte c < 0x20" using "1.prems" raw Cons by (auto simp: lex_string_Cons split: if_splits)
      show ?thesis
      proof (cases "rune_len s = 0")
        case True
        then obtain t' where t': "lex_string cs = Some (t', r)" "t = replacement @ t'"
          using "1.prems" raw hi Cons by (auto simp: lex_string_Cons split: if_splits)
        then show ?thesis
          using "1.IH"(3) [OF Cons raw hi True t'(1)] by (simp add: ValidString_append ValidString_replacement)
      next
        case False
        then obtain t' where t': "lex_string (drop (rune_len s - 1) cs) = Some (t', r)" "t = take (rune_len s) s @ t'"
          using "1.prems" raw hi Cons by (auto simp: lex_string_Cons split: if_splits)
        then show ?thesis
          using "1.IH"(4) [OF Cons raw hi False t'(1)] ValidString_rune [OF False] by (simp add: ValidString_append)
      qed
    qed (use "1.prems" Cons in \<open>simp add: lex_string_Cons\<close>)
  qed
qed

subsection \<open>The canonical text of a string is read back\<close>

lemma append_Nil_fun: "(@) [] = id"
  by (rule ext) simp

lemma append_single [simp]: "(@) [c] = (#) c"
  by (rule ext) simp

lemma lex_canonical_ascii:
  assumes "byte c < 0x80"
  shows "lex_string (canonical_char c @ r) = map_option (apfst ((#) c)) (lex_string r)"
proof (cases "c \<in> {CHR 0x22, CHR 0x5C, CHR 0x08, CHR 0x0C, CHR 0x0A, CHR 0x0D, CHR 0x09}")
  case True
  then show ?thesis by (auto simp: canonical_char_def lex_string_Cons simple_escape_def)
next
  case special: False
  show ?thesis
  proof (cases "byte c < 0x20")
    case True
    have hex: "hex_val (hex_digit n) = Some n" if "n < 16" for n
    proof -
      have "n \<in> set [0..<16]" using that by simp
      moreover have "\<forall>n\<in>set [0..<16]. hex_val (hex_digit n) = Some n" by code_simp
      ultimately show ?thesis by blast
    qed
    have "hex_val CHR ''0'' = Some 0" by code_simp
    then have "getu4 (canonical_char c @ r) = Some (byte c)"
      using special True hex [of "byte c div 16"] hex [of "byte c mod 16"]
      by (simp add: canonical_char_def getu4_def)
    then have "unescape_unicode (canonical_char c @ r) = Some ([c], 6)"
      using True by (simp add: unescape_unicode_def encode_rune_def)
    then show ?thesis using special True by (simp add: canonical_char_def lex_string_Cons)
  next
    case False
    then show ?thesis
      using special assms by (simp add: canonical_char_def lex_string_Cons rune_len_intro)
  qed
qed

lemma lex_raw_rune:
  assumes "rune_len s \<noteq> 0" "0x80 \<le> byte (hd s)" "s \<noteq> []"
  shows "lex_string (s @ r) = map_option (apfst ((@) (take (rune_len s) s))) (lex_string (drop (rune_len s) s @ r))"
proof -
  obtain c cs where s: "s = c # cs" using assms(3) by (cases s) auto
  then have c: "c \<noteq> CHR 0x22" "c \<noteq> CHR 0x5C" "\<not> byte c < 0x20" using assms(2) by auto
  obtain n where n: "rune_len s = Suc n" using assms(1) by (cases "rune_len s") auto
  have le: "n \<le> length cs" using rune_len_le [of s] s n by simp
  have len: "rune_len (c # cs @ r) = Suc n" using rune_len_append [OF assms(1), of r] s n by simp
  have "lex_string (s @ r) = map_option (apfst ((@) (take (Suc n) (c # cs @ r)))) (lex_string (drop n (cs @ r)))"
    unfolding s append_Cons lex_string_Cons using c len by simp
  then show ?thesis unfolding n using s le by simp
qed

lemma lex_canonical_chars: "lex_string (canonical_chars s @ CHR 0x22 # r) = Some (coerce_utf8 s, r)"
proof (induction s rule: canonical_chars.induct)
  case (1 s)
  show ?case
  proof (cases "s = []")
    case True
    then show ?thesis by (simp add: canonical_chars.simps [of "[]"] coerce_utf8.simps [of "[]"] lex_string_Cons)
  next
    case ne: False
    show ?thesis
    proof (cases "rune_len s = 0")
      case True
      have r: "rune_len (replacement @ t) = 3" for t
        by (simp add: replacement_def rune_len_intro utf8_3_def cont_byte_def)
      have "lex_string (replacement @ t) = map_option (apfst ((@) replacement)) (lex_string t)" for t
        using lex_raw_rune [of replacement t] r [of "[]"] by (simp add: replacement_def)
      then show ?thesis
        using 1(1) [OF ne True] ne True
        by (simp add: canonical_chars.simps [of s] coerce_utf8.simps [of s] replacement_def)
    next
      case rl: False
      note ih = 1(2) [OF ne rl]
      show ?thesis
      proof (cases "rune_len s = 1")
        case True
        then have "byte (hd s) < 0x80" "take 1 s = [hd s]" using rune_len_1 [of s] ne by (auto simp: take_Suc)
        then show ?thesis
          using ih ne rl True lex_canonical_ascii [of "hd s"]
          by (simp add: canonical_chars.simps [of s] coerce_utf8.simps [of s])
      next
        case False
        let ?x = "take (rune_len s) s"
        have x: "rune_len ?x = rune_len s" "?x \<noteq> []" "0x80 \<le> byte (hd ?x)"
          using rune_len_take [OF rl] rune_len_high [OF rl False] ne rl by (auto simp: hd_take)
        have "take (rune_len s) ?x = ?x" "drop (rune_len s) ?x = []" by simp_all
        then have "lex_string (?x @ t) = map_option (apfst ((@) ?x)) (lex_string t)" for t
          using lex_raw_rune [of ?x t] x rl by simp
        then show ?thesis
          using ih ne rl False by (simp add: canonical_chars.simps [of s] coerce_utf8.simps [of s])
      qed
    qed
  qed
qed

subsection \<open>The canonical text of a value is read back\<close>

primrec canon :: "json \<Rightarrow> json" where
  \<comment> \<open>the value that the canonical text denotes\<close>
  "canon JNull = JNull"
| "canon (JBool b) = JBool b"
| "canon (JNumber n) = JNumber n"
| "canon (JString s) = JString (coerce_utf8 s)"
| "canon (JArray vs) = JArray (map canon vs)"
| "canon (JObject ms) = JObject (map (map_prod coerce_utf8 id) (sort_key fst (map (map_prod id canon) ms)))"

primrec numbers_ok :: "json \<Rightarrow> bool" where
  "numbers_ok JNull = True"
| "numbers_ok (JBool b) = True"
| "numbers_ok (JNumber n) = number_literal n"
| "numbers_ok (JString s) = True"
| "numbers_ok (JArray vs) = list_all id (map numbers_ok vs)"
| "numbers_ok (JObject ms) = list_all snd (map (map_prod id numbers_ok) ms)"

definition lexes :: "string \<Rightarrow> token list \<Rightarrow> bool" where
  "lexes x ts \<longleftrightarrow> (\<forall>r. stops r \<longrightarrow> lex_tokens (x @ r) = map_option ((@) ts) (lex_tokens r))"

lemma lexesD: "lexes x ts \<Longrightarrow> stops r \<Longrightarrow> lex_tokens (x @ r) = map_option ((@) ts) (lex_tokens r)"
  by (simp add: lexes_def)

lemma lex_tokens_punct: "lex_punct c = Some p \<Longrightarrow> \<not> json_space c \<Longrightarrow> lex_tokens (c # cs) = map_option ((#) p) (lex_tokens cs)"
  by (simp add: lex_tokens_Cons)

lemma lex_tokens_atom:
  "lex_punct c = None \<Longrightarrow> \<not> json_space c \<Longrightarrow> lex_atom (c # cs) = Some (v, r) \<Longrightarrow>
   lex_tokens (c # cs) = map_option ((#) (TAtom v)) (lex_tokens r)"
  by (simp add: lex_tokens_Cons)

lemma punct_simps [simp]:
  "lex_punct CHR ''['' = Some TLBrack" "lex_punct CHR '']'' = Some TRBrack" "lex_punct CHR ''{'' = Some TLBrace"
  "lex_punct CHR ''}'' = Some TRBrace" "lex_punct CHR '','' = Some TComma" "lex_punct CHR '':'' = Some TColon"
  "\<not> json_space CHR ''[''" "\<not> json_space CHR '']''" "\<not> json_space CHR ''{''" "\<not> json_space CHR ''}''"
  "\<not> json_space CHR '',''" "\<not> json_space CHR '':''"
  by (simp_all add: lex_punct_def json_space_def)

lemma stops_simps [simp]: "stops []" "stops (CHR '','' # r)" "stops (CHR '']'' # r)" "stops (CHR ''}'' # r)" "stops (CHR '':'' # r)"
  by (simp_all add: stops_def number_char_def is_digit_def)

lemma lex_tokens_string: "lex_tokens (writeCanonicalString s @ r) = map_option ((#) (TAtom (JString (coerce_utf8 s)))) (lex_tokens r)"
proof -
  have "lex_atom (CHR 0x22 # canonical_chars s @ CHR 0x22 # r) = Some (JString (coerce_utf8 s), r)"
    by (simp add: lex_atom_def lex_canonical_chars)
  then show ?thesis
    by (simp add: writeCanonicalString_def lex_tokens_atom lex_punct_def json_space_def)
qed

lemma lexes_literal: "lexes ''null'' [TAtom JNull]" "lexes ''true'' [TAtom (JBool True)]" "lexes ''false'' [TAtom (JBool False)]"
  by (simp_all add: lexes_def lex_tokens_Cons lex_punct_def json_space_def lex_atom_def lex_literal_def is_digit_def)

lemma lexes_number:
  assumes "number_literal n"
  shows "lexes n [TAtom (JNumber n)]"
  unfolding lexes_def
proof (intro allI impI)
  fix r assume r: "stops r"
  have "lex_number n = Some (n, [])" using assms by (simp add: number_literal_def)
  then obtain c cs where n: "n = c # cs" "is_digit c \<or> c = CHR ''-''"
    by (cases n) (auto simp: lex_number_def lex_seq_Some lex_sign_def lex_integer_def lex_digits_def Let_def is_digit_def
        split: if_splits list.splits)
  have "lex_atom (n @ r) = Some (JNumber n, r)"
    using number_literal_stops [OF assms r] n by (auto simp: lex_atom_def is_digit_def)
  moreover have "lex_punct c = None" "\<not> json_space c"
    using n(2) by (auto simp: lex_punct_def json_space_def is_digit_def)
  ultimately show "lex_tokens (n @ r) = map_option ((@) [TAtom (JNumber n)]) (lex_tokens r)"
    using lex_tokens_atom [of c "cs @ r" "JNumber n" r] n(1) by simp
qed

lemma lexes_joined:
  assumes "list_all2 lexes xs tss" "stops r"
  shows "lex_tokens (joined xs @ r) = map_option ((@) (commas tss)) (lex_tokens r)"
  using assms
proof (induction xs arbitrary: tss)
  case (Cons x xs)
  then obtain ts tss' where tss: "tss = ts # tss'" "lexes x ts" "list_all2 lexes xs tss'"
    by (auto simp: list_all2_Cons1)
  show ?case
  proof (cases xs)
    case Nil
    then show ?thesis using tss Cons.prems(2) by (simp add: lexesD)
  next
    case (Cons y ys)
    then have "tss' \<noteq> []" using tss(3) by auto
    then show ?thesis
      using Cons.IH [OF tss(3) Cons.prems(2)] tss \<open>xs = y # ys\<close> Cons.prems(2)
      by (simp add: lexesD commas_Cons lex_tokens_punct option.map_comp comp_def)
  qed
qed (simp add: append_Nil_fun option.map_id)

lemma insort_key_map: "(\<And>m. fst (h m) = fst m) \<Longrightarrow> insort_key fst (h m) (map h ms) = map h (insort_key fst m ms)"
  by (induction ms) auto

lemma sort_key_map: "(\<And>m. fst (h m) = fst m) \<Longrightarrow> sort_key fst (map h ms) = map h (sort_key fst ms)"
  by (induction ms) (simp_all add: insort_key_map)

lemma sort_key_map_snd: "sort_key fst (map (map_prod id g) ms) = map (map_prod id g) (sort_key fst ms)"
  by (rule sort_key_map) simp

lemma member_canon:
  "map member_toks (map (map_prod coerce_utf8 id) (sort_key fst (map (map_prod id canon) ms))) =
   map (\<lambda>m. TAtom (JString (coerce_utf8 (fst m))) # TColon # toks (canon (snd m))) (sort_key fst ms)"
  by (simp add: sort_key_map_snd)

lemma lexes_member:
  assumes "lexes (writeCanonical v) (toks w)"
  shows "lexes (writeCanonicalString k @ CHR '':'' # writeCanonical v) (TAtom (JString (coerce_utf8 k)) # TColon # toks w)"
  unfolding lexes_def
proof (intro allI impI)
  fix r assume "stops r"
  then show "lex_tokens ((writeCanonicalString k @ CHR '':'' # writeCanonical v) @ r) =
      map_option ((@) (TAtom (JString (coerce_utf8 k)) # TColon # toks w)) (lex_tokens r)"
    using lexesD [OF assms] by (cases "lex_tokens r") (simp_all add: lex_tokens_string lex_tokens_punct)
qed

lemma lexes_bracket:
  assumes "list_all2 lexes xs tss" "(lb, rb, o', c') \<in> {(CHR ''['', CHR '']'', TLBrack, TRBrack), (CHR ''{'', CHR ''}'', TLBrace, TRBrace)}"
  shows "lexes (lb # joined xs @ [rb]) (o' # commas tss @ [c'])"
  unfolding lexes_def
proof (intro allI impI)
  fix r assume "stops r"
  have "lex_tokens (joined xs @ rb # r) = map_option ((@) (commas tss)) (lex_tokens (rb # r))"
    using assms by (intro lexes_joined) auto
  then show "lex_tokens ((lb # joined xs @ [rb]) @ r) = map_option ((@) (o' # commas tss @ [c'])) (lex_tokens r)"
    using assms(2) by (cases "lex_tokens r") (auto simp: lex_tokens_punct)
qed

lemma lexes_canonical: "numbers_ok v \<Longrightarrow> lexes (writeCanonical v) (toks (canon v))"
proof (induction v)
  case (JArray vs)
  then have "list_all2 lexes (map writeCanonical vs) (map toks (map canon vs))"
    by (auto simp: list_all2_conv_all_nth list_all_length)
  then show ?case using lexes_bracket [of _ _ "CHR ''[''"] by simp
next
  case (JObject ms)
  let ?ms = "sort_key fst ms"
  have "lexes (writeCanonical (snd m)) (toks (canon (snd m)))" if "m \<in> set ms" for m
    using JObject.IH [of m "snd m"] JObject.prems that by (cases m) (auto simp: list_all_iff)
  then have "list_all2 lexes (map (\<lambda>(k, x). writeCanonicalString k @ CHR '':'' # x) (map (map_prod id writeCanonical) ?ms))
      (map (\<lambda>m. TAtom (JString (coerce_utf8 (fst m))) # TColon # toks (canon (snd m))) ?ms)"
    by (auto simp: list.rel_map case_prod_unfold intro!: list.rel_refl_strong lexes_member)
  from lexes_bracket [OF this, of "CHR ''{''" "CHR ''}''" TLBrace TRBrace]
  show ?case
    unfolding canon.simps writeCanonical.simps toks_JObject member_canon sort_key_map_snd [of writeCanonical] by simp
next
  case (JString s)
  show ?case by (simp add: lexes_def lex_tokens_string)
qed (simp_all add: lexes_literal lexes_number)

section \<open>Decoding the canonical text\<close>

lemma lex_prefix_tokens: "lex_tokens s = Some ts \<Longrightarrow> lex_prefix s = ts"
proof (induction s arbitrary: ts rule: lex_tokens.induct)
  case (1 s)
  show ?case
  proof (cases s)
    case Nil
    then show ?thesis using "1.prems" by (simp add: lex_tokens_Nil lex_prefix.simps [of "[]"])
  next
    case (Cons c cs)
    then show ?thesis
      using "1.prems" "1.IH"(1) [OF Cons] "1.IH"(2,3) [OF Cons]
      by (auto simp: lex_tokens_Cons lex_prefix.simps [of "c # cs"] split: if_splits option.splits)
  qed
qed

lemma Decode_toks: "lex_tokens s = Some (toks v) \<Longrightarrow> Decode s = (if depth v \<le> 10000 then Some (decode_any v) else None)"
  using parse_complete [of v, unfolded parses_def, rule_format, of "Suc (length (toks v))" "[]"] lex_prefix_tokens [of s]
  by (simp add: Decode_def del: parse_value.simps)

lemma Decode_canonical:
  "numbers_ok v \<Longrightarrow> Decode (writeCanonical v) = (if depth (canon v) \<le> 10000 then Some (decode_any (canon v)) else None)"
  using lexesD [OF lexes_canonical, of v "[]"] by (intro Decode_toks) (simp add: lex_tokens_Nil)

primrec normal :: "json \<Rightarrow> bool" where
  "normal JNull = True"
| "normal (JBool b) = True"
| "normal (JNumber n) = number_literal n"
| "normal (JString s) = ValidString s"
| "normal (JArray vs) = list_all id (map normal vs)"
| "normal (JObject ms) = (sorted (map fst ms) \<and> distinct (map fst ms) \<and> list_all ValidString (map fst ms) \<and>
     list_all snd (map (map_prod id normal) ms))"

lemma as_map_id: "sorted (map fst ms) \<Longrightarrow> distinct (map fst ms) \<Longrightarrow> as_map ms = ms"
proof -
  assume a: "sorted (map fst ms)" "distinct (map fst ms)"
  have "map_of (rev ms) k = Some v" if "(k, v) \<in> set ms" for k v
    using a(2) that by (intro map_of_is_SomeI) (auto simp: rev_map [symmetric])
  then show ?thesis
    using a by (auto simp: as_map_def sorted_sort_id distinct_remdups_id comp_def intro!: map_idI)
qed

lemma normal_fixed: "normal v \<Longrightarrow> canon v = v \<and> decode_any v = v \<and> numbers_ok v"
proof (induction v)
  case (JArray vs)
  then show ?case by (auto simp: list_all_iff intro!: map_idI)
next
  case (JObject ms)
  have ih: "canon (snd m) = snd m \<and> decode_any (snd m) = snd m \<and> numbers_ok (snd m)" if "m \<in> set ms" for m
    using JObject.IH [of m "snd m"] JObject.prems that by (cases m) (auto simp: list_all_iff)
  have "map (map_prod id canon) ms = ms" "map (map_prod id decode_any) ms = ms"
    using ih by (auto intro!: map_idI simp: map_prod_def case_prod_unfold)
  moreover have "map (map_prod coerce_utf8 id) ms = ms"
    using JObject.prems by (auto intro!: map_idI simp: list_all_iff map_prod_def case_prod_unfold)
  ultimately show ?case
    using JObject.prems ih by (auto simp: as_map_id sort_key_id_if_sorted list_all_iff)
qed simp_all

lemma depth_list: "fold max ns k \<le> (b :: nat) \<longleftrightarrow> k \<le> b \<and> (\<forall>n\<in>set ns. n \<le> b)"
  by (induction ns arbitrary: k) auto

primrec lexed_ok :: "json \<Rightarrow> bool" where
  "lexed_ok JNull = True"
| "lexed_ok (JBool b) = True"
| "lexed_ok (JNumber n) = number_literal n"
| "lexed_ok (JString s) = ValidString s"
| "lexed_ok (JArray vs) = list_all id (map lexed_ok vs)"
| "lexed_ok (JObject ms) = (list_all ValidString (map fst ms) \<and> list_all snd (map (map_prod id lexed_ok) ms))"

lemma as_map_keys: "sorted (map fst (as_map ms))" "distinct (map fst (as_map ms))" "set (map fst (as_map ms)) = set (map fst ms)"
  by (simp_all add: as_map_def comp_def)

lemma as_map_values: "m \<in> set (as_map ms) \<Longrightarrow> m \<in> set ms"
proof -
  assume "m \<in> set (as_map ms)"
  then obtain k where k: "k \<in> fst ` set ms" "m = (k, the (map_of (rev ms) k))" by (auto simp: as_map_def)
  then obtain v where "map_of (rev ms) k = Some v"
    by (metis image_set map_of_eq_None_iff not_Some_eq set_rev)
  then show ?thesis using k(2) by (auto dest: map_of_SomeD)
qed

lemma normal_decode_any: "lexed_ok v \<Longrightarrow> normal (decode_any v) \<and> depth (decode_any v) \<le> depth v"
proof (induction v)
  case (JArray vs)
  have "depth (decode_any v) \<le> fold max (map depth vs) 0" if "v \<in> set vs" for v
  proof -
    have "depth v \<le> fold max (map depth vs) 0"
      using that depth_list [of "map depth vs" 0 "fold max (map depth vs) 0"] by simp
    then show ?thesis using JArray.IH [OF that] JArray.prems that by (simp add: list_all_iff)
  qed
  then show ?case using JArray by (simp add: list_all_iff depth_list)
next
  case (JObject ms)
  let ?ms = "as_map (map (map_prod id decode_any) ms)"
  have val: "\<exists>v. (fst m, v) \<in> set ms \<and> snd m = decode_any v" if "m \<in> set ?ms" for m
    using as_map_values [OF that] by auto
  have ih: "normal (decode_any v) \<and> depth (decode_any v) \<le> depth v \<and> ValidString k" if "(k, v) \<in> set ms" for k v
    using JObject.IH [OF that] JObject.prems that by (fastforce simp: list_all_iff)
  have "list_all ValidString (map fst ?ms)" "list_all snd (map (map_prod id normal) ?ms)"
    using val ih by (fastforce simp: list_all_iff)+
  moreover have "depth (snd m) \<le> fold max (map snd (map (map_prod id depth) ms)) 0" if m: "m \<in> set ?ms" for m
  proof -
    obtain v where v: "(fst m, v) \<in> set ms" "snd m = decode_any v" using val [OF m] by blast
    have "depth v \<le> fold max (map snd (map (map_prod id depth) ms)) 0"
      using v(1) depth_list [of "map snd (map (map_prod id depth) ms)" 0 "fold max (map snd (map (map_prod id depth) ms)) 0"]
      by force
    then show ?thesis using ih [OF v(1)] v(2) by simp
  qed
  ultimately show ?case using as_map_keys [of "map (map_prod id decode_any) ms"] by (auto simp: depth_list)
qed simp_all

subsection \<open>Tokens of a text carry lexed atoms\<close>

definition token_ok :: "token \<Rightarrow> bool" where
  "token_ok t = (case t of TAtom v \<Rightarrow> is_atom v \<and> lexed_ok v | _ \<Rightarrow> True)"

lemma lex_atom_ok: "lex_atom s = Some (v, r) \<Longrightarrow> token_ok (TAtom v)"
  using lex_atom_is_atom [of s v r]
  by (auto simp: token_ok_def lex_atom_def lex_literal_def split: list.splits if_splits dest: lex_string_valid lex_number_literal)

lemma lex_punct_ok: "lex_punct c = Some p \<Longrightarrow> token_ok p"
  by (auto simp: lex_punct_def token_ok_def split: if_splits)

lemma lex_prefix_ok: "\<forall>t\<in>set (lex_prefix s). token_ok t"
proof (induction "length s" arbitrary: s rule: less_induct)
  case less
  show ?case
  proof (cases s)
    case Nil
    then show ?thesis by (simp add: lex_prefix.simps [of "[]"])
  next
    case (Cons c cs)
    have cs: "\<forall>t\<in>set (lex_prefix cs). token_ok t" using less [of cs] Cons by simp
    show ?thesis
    proof (cases "lex_punct c")
      case (Some p)
      then show ?thesis using cs Cons lex_punct_ok by (simp add: lex_prefix.simps [of "c # cs"])
    next
      case None
      show ?thesis
      proof (cases "lex_atom s")
        case (Some a)
        obtain v r where a: "a = (v, r)" by (cases a)
        then have "\<forall>t\<in>set (lex_prefix r). token_ok t" using less [of r] lex_atom_shorter [of s v r] Some by simp
        then show ?thesis using None Some Cons a cs lex_atom_ok [of s v r] by (simp add: lex_prefix.simps [of "c # cs"])
      qed (use None Cons cs in \<open>simp add: lex_prefix.simps [of "c # cs"]\<close>)
    qed
  qed
qed

lemma lex_prefix_atoms: "atom_tokens (lex_prefix s)"
  using lex_prefix_ok [of s] by (fastforce simp: atom_tokens_def token_ok_def)

lemma set_commas: "t \<in> set ts \<Longrightarrow> ts \<in> set tss \<Longrightarrow> t \<in> set (commas tss)"
  by (induction tss rule: commas.induct) auto

lemma toks_ok: "\<forall>t\<in>set (toks v). token_ok t \<Longrightarrow> lexed_ok v"
proof (induction v)
  case (JArray vs)
  have "lexed_ok v" if "v \<in> set vs" for v
    using JArray.IH [OF that] JArray.prems that set_commas [of _ "toks v" "map toks vs"] by simp
  then show ?case by (simp add: list_all_iff)
next
  case (JObject ms)
  have mem: "t \<in> set (toks (JObject ms))" if "m \<in> set ms" "t \<in> set (member_toks m)" for m t
    using that set_commas [of t "member_toks m" "map member_toks ms"] by simp
  have "lexed_ok (snd m) \<and> ValidString (fst m)" if m: "m \<in> set ms" for m
  proof -
    have "token_ok (TAtom (JString (fst m)))" using JObject.prems mem [OF m, of "TAtom (JString (fst m))"] by force
    moreover have "\<forall>t\<in>set (toks (snd m)). token_ok t" using JObject.prems mem [OF m] by force
    then have "lexed_ok (snd m)" using JObject.IH [of m "snd m"] m by (cases m) auto
    ultimately show ?thesis by (simp add: token_ok_def)
  qed
  then show ?case by (auto simp: list_all_iff)
qed (simp_all add: token_ok_def)

lemma Decode_normal:
  assumes "Decode s = Some v"
  shows "normal v \<and> depth v \<le> 10000"
proof -
  obtain w r where w: "parse_value (Suc (length (lex_prefix s))) (lex_prefix s) = Some (w, r)" "depth w \<le> 10000" "v = decode_any w"
    using assms by (auto simp: Decode_def simp del: parse_value.simps split: option.splits if_splits)
  have "lex_prefix s = toks w @ r"
    using parse_sound(1) [of "lex_prefix s" "Suc (length (lex_prefix s))"] lex_prefix_atoms [of s] w(1) by blast
  then have "lexed_ok w" using lex_prefix_ok [of s] by (intro toks_ok) auto
  then show ?thesis using normal_decode_any [of w] w by simp
qed

lemma Canonical_stable: "Canonical raw = Some c \<Longrightarrow> Decode c = Decode raw \<and> Canonical c = Some c"
  using Decode_normal [of raw] normal_fixed Decode_canonical by (auto simp: Canonical_def)

end
