(* ===== verification/Exact_Fields.thy ===== *)
theory Exact_Fields
  imports Exact_JSON
begin

text \<open>
  The walk of \<^verbatim>\<open>internal/exactjson/exact_json.go\<close> over the tokens of a text, which rejects
  repeated keys at every level, and the check of field names against a Go type.

  \<open>next_tok\<close> is \<^verbatim>\<open>Decoder.Token\<close> of \<^verbatim>\<open>encoding/json\<close>: it keeps the state of
  the token reader and the stack of the states around it. The walk is recursive in the code and ends because
  every step reads a token; here each call takes a unit of fuel, and twice the number of tokens is enough.
\<close>

section \<open>The token reader\<close>

datatype tokenState =
    TopValue | ArrayStart | ArrayValue | ArrayComma | ObjectStart | ObjectKey | ObjectColon | ObjectValue | ObjectComma

datatype exact_error =
    Uninitialized
  | JSONEnd
  | JSONSyntax
  | NotOneObject
  | TrailingToken
  | DuplicateKey string
  | KeyNotString
  | NotClosed
  | UnexpectedDelimiter
  | UnknownField string
  | InexactAlias string string
  | WalkFuel

type_synonym decoder = "tokenState \<times> tokenState list \<times> token list"

definition valueAllowed :: "tokenState \<Rightarrow> bool" where
  "valueAllowed st \<longleftrightarrow> st \<in> {TopValue, ArrayStart, ArrayValue, ObjectValue}"

definition valueEnd :: "tokenState \<Rightarrow> tokenState" where
  "valueEnd st = (if st = ArrayStart \<or> st = ArrayValue then ArrayComma else if st = ObjectValue then ObjectComma else st)"

definition is_text :: "json \<Rightarrow> bool" where
  "is_text v = (case v of JString _ \<Rightarrow> True | _ \<Rightarrow> False)"

lemma is_text_iff [simp]: "is_text v \<longleftrightarrow> (\<exists>k. v = JString k)"
  by (cases v) (simp_all add: is_text_def)

fun next_tok :: "bool \<Rightarrow> decoder \<Rightarrow> exact_error + (token \<times> decoder)" where
  "next_tok clean (st, stk, []) = Inl (if clean then JSONEnd else JSONSyntax)"
| "next_tok clean (st, stk, t # ts) =
     (case t of
        TLBrack \<Rightarrow> if valueAllowed st then Inr (t, ArrayStart, st # stk, ts) else Inl JSONSyntax
      | TLBrace \<Rightarrow> if valueAllowed st then Inr (t, ObjectStart, st # stk, ts) else Inl JSONSyntax
      | TRBrack \<Rightarrow>
          if st = ArrayStart \<or> st = ArrayComma
          then (case stk of s # stk' \<Rightarrow> Inr (t, valueEnd s, stk', ts) | [] \<Rightarrow> Inl JSONSyntax) else Inl JSONSyntax
      | TRBrace \<Rightarrow>
          if st = ObjectStart \<or> st = ObjectComma
          then (case stk of s # stk' \<Rightarrow> Inr (t, valueEnd s, stk', ts) | [] \<Rightarrow> Inl JSONSyntax) else Inl JSONSyntax
      | TColon \<Rightarrow> if st = ObjectColon then next_tok clean (ObjectValue, stk, ts) else Inl JSONSyntax
      | TComma \<Rightarrow>
          if st = ArrayComma then next_tok clean (ArrayValue, stk, ts)
          else if st = ObjectComma then next_tok clean (ObjectKey, stk, ts) else Inl JSONSyntax
      | TAtom v \<Rightarrow>
          if (st = ObjectStart \<or> st = ObjectKey) \<and> is_text v then Inr (t, ObjectColon, stk, ts)
          else if valueAllowed st then Inr (t, valueEnd st, stk, ts) else Inl JSONSyntax)"

definition More :: "bool \<Rightarrow> decoder \<Rightarrow> bool" where
  "More clean d = (case d of (_, _, ts) \<Rightarrow> (case ts of [] \<Rightarrow> \<not> clean | t # _ \<Rightarrow> t \<noteq> TRBrack \<and> t \<noteq> TRBrace))"

section \<open>The walk\<close>

definition expect_close :: "bool \<Rightarrow> token \<Rightarrow> decoder \<Rightarrow> exact_error + decoder" where
  "expect_close clean close d =
     bind_res (next_tok clean d) (\<lambda>(t, d'). if t = close then Inr d' else Inl NotClosed)"

definition key_of :: "token \<Rightarrow> string option" where
  "key_of t = (case t of TAtom v \<Rightarrow> (case v of JString k \<Rightarrow> Some k | _ \<Rightarrow> None) | _ \<Rightarrow> None)"

definition is_delim :: "token \<Rightarrow> bool" where
  "is_delim t = (case t of TAtom _ \<Rightarrow> False | _ \<Rightarrow> True)"

function (sequential) walkUniqueObject :: "nat \<Rightarrow> bool \<Rightarrow> string list \<Rightarrow> decoder \<Rightarrow> exact_error + decoder"
and walkValue :: "nat \<Rightarrow> bool \<Rightarrow> decoder \<Rightarrow> exact_error + decoder"
and walkElements :: "nat \<Rightarrow> bool \<Rightarrow> decoder \<Rightarrow> exact_error + decoder" where
  "walkUniqueObject 0 clean seen d = Inl WalkFuel"
| "walkUniqueObject (Suc n) clean seen d =
     (if More clean d then
        bind_res (next_tok clean d) (\<lambda>(t, d1).
          case key_of t of
            None \<Rightarrow> Inl KeyNotString
          | Some key \<Rightarrow>
              if key \<in> set seen then Inl (DuplicateKey key)
              else bind_res (walkValue n clean d1) (walkUniqueObject n clean (key # seen)))
      else expect_close clean TRBrace d)"
| "walkValue 0 clean d = Inl WalkFuel"
| "walkValue (Suc n) clean d =
     bind_res (next_tok clean d) (\<lambda>(t, d1).
       if \<not> is_delim t then Inr d1
       else if t = TLBrace then walkUniqueObject n clean [] d1
       else if t = TLBrack then walkElements n clean d1
       else Inl UnexpectedDelimiter)"
| "walkElements 0 clean d = Inl WalkFuel"
| "walkElements (Suc n) clean d =
     (if More clean d then bind_res (walkValue n clean d) (walkElements n clean) else expect_close clean TRBrack d)"
  by pat_completeness auto
termination
  by (relation "measure (case_sum fst (case_sum fst fst))") auto

definition ValidateUniqueObject :: "string \<Rightarrow> string \<Rightarrow> exact_error option" where
  "ValidateUniqueObject raw subject =
     (if subject = [] then Some Uninitialized
      else let ts = lex_prefix raw; clean = (lex_tokens raw \<noteq> None) in
        (case next_tok clean (TopValue, [], ts) of
           Inl e \<Rightarrow> Some e
         | Inr (t, d) \<Rightarrow>
             if t \<noteq> TLBrace then Some NotOneObject
             else (case walkUniqueObject (2 * length ts + 1) clean [] d of
                     Inl e \<Rightarrow> Some e
                   | Inr d' \<Rightarrow>
                       (case next_tok clean d' of
                          Inl e \<Rightarrow> if e = JSONEnd then None else Some e
                        | Inr _ \<Rightarrow> Some TrailingToken))))"

lemma key_of_simps [simp]: "key_of (TAtom (JString k)) = Some k" "key_of t = Some k \<longleftrightarrow> t = TAtom (JString k)"
  by (auto simp: key_of_def split: token.splits json.splits)

lemma is_delim_simps [simp]: "\<not> is_delim (TAtom v)" "is_delim TLBrace" "is_delim TLBrack" "is_delim TRBrack" "is_delim TRBrace"
  by (simp_all add: is_delim_def)

primrec unique_keys :: "json \<Rightarrow> bool" where
  "unique_keys JNull = True"
| "unique_keys (JBool b) = True"
| "unique_keys (JNumber n) = True"
| "unique_keys (JString s) = True"
| "unique_keys (JArray vs) = list_all id (map unique_keys vs)"
| "unique_keys (JObject ms) = (distinct (map fst ms) \<and> list_all snd (map (map_prod id unique_keys) ms))"

subsection \<open>The walk reads exactly the values without repeated keys\<close>

text \<open>The separator that the reader skips before a value or a key, and the state it is in after it.\<close>

definition separator :: "tokenState \<Rightarrow> token list" where
  "separator st = (if st = ArrayComma \<or> st = ObjectComma then [TComma] else if st = ObjectColon then [TColon] else [])"

definition opened :: "tokenState \<Rightarrow> tokenState" where
  "opened st = (if st = ArrayComma then ArrayValue else if st = ObjectComma then ObjectKey
     else if st = ObjectColon then ObjectValue else st)"

lemma next_tok_separator: "next_tok clean (st, stk, separator st @ ts) = next_tok clean (opened st, stk, ts)"
  by (auto simp: separator_def opened_def)

fun items :: "tokenState \<Rightarrow> token list list \<Rightarrow> token list" where
  "items st [] = []"
| "items st (x # xs) = separator st @ x @ items (if st \<in> {ArrayStart, ArrayComma} then ArrayComma else ObjectComma) xs"

lemma commas_items_comma: "items ArrayComma xs = concat (map ((#) TComma) xs)" "items ObjectComma xs = concat (map ((#) TComma) xs)"
  by (induction xs) (auto simp: separator_def)

lemma commas_concat: "commas (x # xs) = x @ concat (map ((#) TComma) xs)"
  by (induction xs arbitrary: x) auto

lemma commas_items: "items ArrayStart xs = commas xs" "items ObjectStart xs = commas xs"
  by (cases xs; simp add: commas_concat commas_items_comma separator_def)+

lemma toks_items:
  "toks (JArray vs) = TLBrack # items ArrayStart (map toks vs) @ [TRBrack]"
  "toks (JObject ms) = TLBrace # items ObjectStart (map member_toks ms) @ [TRBrace]"
  by (simp_all add: commas_items)

definition walks :: "json \<Rightarrow> bool" where
  "walks v \<longleftrightarrow> (\<forall>n clean st stk rest. 2 * length (toks v) \<le> n \<longrightarrow> valueAllowed (opened st) \<longrightarrow>
     walkValue n clean (st, stk, separator st @ toks v @ rest) = Inr (valueEnd (opened st), stk, rest))"

lemma More_separator: "st \<in> {ArrayComma, ObjectComma} \<Longrightarrow> More clean (st, stk, separator st @ ts)"
  by (auto simp: More_def separator_def)

lemma More_toks: "More clean (st, stk, separator st @ toks v @ ts)"
proof -
  obtain t us where "toks v = t # us" "t \<noteq> TRBrack" "t \<noteq> TRBrace" using toks_head [of v] by blast
  then show ?thesis by (auto simp: More_def separator_def)
qed

lemma walkElements_complete:
  assumes "\<forall>v\<in>set vs. walks v" "st = ArrayStart \<or> st = ArrayComma" "2 * length (items st (map toks vs)) < n"
  shows "walkElements n clean (st, s # stk, items st (map toks vs) @ TRBrack # rest) = Inr (valueEnd s, stk, rest)"
  using assms
proof (induction vs arbitrary: st n)
  case Nil
  then obtain m where "n = Suc m" by (cases n) auto
  then show ?case using Nil.prems(2) by (auto simp: More_def expect_close_def)
next
  case (Cons v vs)
  then obtain m where n: "n = Suc m" by (cases n) auto
  have st: "valueAllowed (opened st)" "valueEnd (opened st) = ArrayComma"
    using Cons.prems(2) by (auto simp: valueAllowed_def opened_def valueEnd_def)
  let ?rest = "items ArrayComma (map toks vs) @ TRBrack # rest"
  have i: "items st (map toks (v # vs)) @ TRBrack # rest = separator st @ toks v @ ?rest"
    using Cons.prems(2) by auto
  have len: "2 * length (toks v) \<le> m" "2 * length (items ArrayComma (map toks vs)) < m"
    using Cons.prems(2,3) n toks_head [of v] by auto
  have "walkValue m clean (st, s # stk, separator st @ toks v @ ?rest) = Inr (ArrayComma, s # stk, ?rest)"
    using Cons.prems(1) st len(1) unfolding walks_def by (metis list.set_intros(1))
  moreover have "walkElements m clean (ArrayComma, s # stk, ?rest) = Inr (valueEnd s, stk, rest)"
    using Cons.prems(1) len(2) by (intro Cons.IH) auto
  ultimately show ?case unfolding i n by (simp add: More_toks)
qed

lemma next_tok_key:
  "st = ObjectStart \<or> st = ObjectComma \<Longrightarrow>
   next_tok clean (st, stk, separator st @ TAtom (JString k) # ts) = Inr (TAtom (JString k), ObjectColon, stk, ts)"
  by (auto simp: next_tok_separator opened_def)

lemma walkUniqueObject_complete:
  assumes "\<forall>m\<in>set ms. walks (snd m)" "st = ObjectStart \<or> st = ObjectComma"
    "2 * length (items st (map member_toks ms)) < n" "distinct (map fst ms)" "set seen \<inter> fst ` set ms = {}"
  shows "walkUniqueObject n clean seen (st, s # stk, items st (map member_toks ms) @ TRBrace # rest) = Inr (valueEnd s, stk, rest)"
  using assms
proof (induction ms arbitrary: st n seen)
  case Nil
  then obtain m where "n = Suc m" by (cases n) auto
  then show ?case using Nil.prems(2) by (auto simp: More_def expect_close_def)
next
  case (Cons m ms)
  then obtain l where n: "n = Suc l" by (cases n) auto
  let ?rest = "items ObjectComma (map member_toks ms) @ TRBrace # rest"
  have i: "items st (map member_toks (m # ms)) @ TRBrace # rest =
      separator st @ TAtom (JString (fst m)) # separator ObjectColon @ toks (snd m) @ ?rest"
    using Cons.prems(2) by (auto simp: separator_def)
  have len: "2 * length (toks (snd m)) \<le> l" "2 * length (items ObjectComma (map member_toks ms)) < l"
    using Cons.prems(2,3) n by (auto simp: separator_def)
  have "walkValue l clean (ObjectColon, s # stk, separator ObjectColon @ toks (snd m) @ ?rest) = Inr (ObjectComma, s # stk, ?rest)"
    using Cons.prems(1) len(1) unfolding walks_def
    by (simp add: opened_def valueAllowed_def valueEnd_def)
  moreover have "walkUniqueObject l clean (fst m # seen) (ObjectComma, s # stk, ?rest) = Inr (valueEnd s, stk, rest)"
    using Cons.prems len(2) by (intro Cons.IH) auto
  moreover have "More clean (st, s # stk, separator st @ TAtom (JString (fst m)) # ts)" for ts
    by (auto simp: More_def separator_def)
  ultimately show ?case
    unfolding i n using Cons.prems(5) next_tok_key [OF Cons.prems(2)] by simp
qed

lemma walks_atom: "is_atom v \<Longrightarrow> walks v"
  unfolding walks_def
proof (intro allI impI)
  fix n clean st stk rest
  assume v: "is_atom v" and n: "2 * length (toks v) \<le> n" and st: "valueAllowed (opened st)"
  obtain m where m: "n = Suc m" using n v by (cases n) auto
  show "walkValue n clean (st, stk, separator st @ toks v @ rest) = Inr (valueEnd (opened st), stk, rest)"
    using v st by (auto simp: m next_tok_separator valueAllowed_def)
qed

lemma walk_complete: "unique_keys v \<Longrightarrow> walks v"
proof (induction v)
  case (JArray vs)
  show ?case
    unfolding walks_def
  proof (intro allI impI)
    fix n clean st stk rest
    assume n: "2 * length (toks (JArray vs)) \<le> n" and st: "valueAllowed (opened st)"
    obtain m where m: "n = Suc m" using n by (cases n) auto
    have "walkElements m clean (ArrayStart, opened st # stk, items ArrayStart (map toks vs) @ TRBrack # rest) = Inr (valueEnd (opened st), stk, rest)"
      using JArray n m by (intro walkElements_complete) (auto simp: list_all_iff commas_items)
    then show "walkValue n clean (st, stk, separator st @ toks (JArray vs) @ rest) = Inr (valueEnd (opened st), stk, rest)"
      using st unfolding m toks_items by (simp add: next_tok_separator)
  qed
next
  case (JObject ms)
  have ih: "\<forall>m\<in>set ms. walks (snd m)" using JObject by (fastforce simp: list_all_iff)
  show ?case
    unfolding walks_def
  proof (intro allI impI)
    fix n clean st stk rest
    assume n: "2 * length (toks (JObject ms)) \<le> n" and st: "valueAllowed (opened st)"
    obtain m where m: "n = Suc m" using n by (cases n) auto
    have "walkUniqueObject m clean [] (ObjectStart, opened st # stk, items ObjectStart (map member_toks ms) @ TRBrace # rest) = Inr (valueEnd (opened st), stk, rest)"
      using JObject.prems ih n m by (intro walkUniqueObject_complete) (auto simp: list_all_iff commas_items)
    then show "walkValue n clean (st, stk, separator st @ toks (JObject ms) @ rest) = Inr (valueEnd (opened st), stk, rest)"
      using st unfolding m toks_items by (simp add: next_tok_separator)
  qed
qed (simp_all add: walks_atom)

lemma next_tok_sound:
  assumes "next_tok clean (st, stk, ts) = Inr (t, st', stk', ts')" "t \<noteq> TRBrack" "t \<noteq> TRBrace" "atom_tokens ts"
  shows "ts = separator st @ t # ts' \<and>
    (t = TLBrack \<and> valueAllowed (opened st) \<and> st' = ArrayStart \<and> stk' = opened st # stk \<or>
     t = TLBrace \<and> valueAllowed (opened st) \<and> st' = ObjectStart \<and> stk' = opened st # stk \<or>
     (\<exists>v. t = TAtom v \<and> is_atom v \<and> stk' = stk \<and>
        (valueAllowed (opened st) \<and> st' = valueEnd (opened st) \<or>
         opened st \<in> {ObjectStart, ObjectKey} \<and> (\<exists>k. v = JString k) \<and> st' = ObjectColon)))"
proof -
  obtain u us where ts: "ts = u # us" using assms(1) by (cases ts) auto
  show ?thesis
  proof (cases "u = TComma \<or> u = TColon")
    case True
    then have sep: "separator st = [u]" "opened st \<noteq> st" "next_tok clean (opened st, stk, us) = Inr (t, st', stk', ts')"
      using assms(1) ts by (auto simp: separator_def opened_def split: if_splits)
    then have o: "opened st \<notin> {ArrayComma, ObjectComma, ObjectColon}" by (auto simp: opened_def split: if_splits)
    obtain w ws where us: "us = w # ws" using sep(3) by (cases us) auto
    have "is_atom v" if "w = TAtom v" for v using assms(4) ts us that by (simp add: atom_tokens_Cons)
    then show ?thesis
      using sep o assms(2,3) ts us
      by (cases w) (auto simp: valueAllowed_def split: if_splits list.splits)
  next
    case False
    have a: "is_atom v" if "u = TAtom v" for v using assms(4) ts that by (simp add: atom_tokens_Cons)
    have "separator st = [] \<and> opened st = st"
      using assms(1-3) ts False by (cases u) (auto simp: separator_def opened_def valueAllowed_def split: if_splits list.splits)
    then show ?thesis
      using False assms(1-3) ts a by (cases u) (auto split: if_splits list.splits)
  qed
qed

lemma expect_close_sound:
  assumes "expect_close clean close (st, stk, ts) = Inr (st', stk', ts')" "\<not> More clean (st, stk, ts)"
    "close = TRBrack \<or> close = TRBrace"
  shows "ts = close # ts' \<and> (\<exists>s. stk = s # stk' \<and> st' = valueEnd s) \<and>
    (close = TRBrack \<longrightarrow> st \<in> {ArrayStart, ArrayComma}) \<and> (close = TRBrace \<longrightarrow> st \<in> {ObjectStart, ObjectComma})"
proof -
  obtain u us where "ts = u # us" "u = TRBrack \<or> u = TRBrace"
    using assms(1,2) by (cases ts) (auto simp: More_def expect_close_def split: if_splits)
  then show ?thesis
    using assms(1,3) by (auto simp: expect_close_def split: if_splits list.splits)
qed

definition object_read :: "string list \<Rightarrow> decoder \<Rightarrow> decoder \<Rightarrow> bool" where
  "object_read seen d d' \<longleftrightarrow> (\<forall>st s stk ts. d = (st, s # stk, ts) \<longrightarrow> atom_tokens ts \<longrightarrow> st = ObjectStart \<or> st = ObjectComma \<longrightarrow>
     (\<exists>ms ts'. ts = items st (map member_toks ms) @ TRBrace # ts' \<and> d' = (valueEnd s, stk, ts') \<and>
        distinct (map fst ms) \<and> set seen \<inter> fst ` set ms = {} \<and> (\<forall>m\<in>set ms. unique_keys (snd m))))"

definition value_read :: "decoder \<Rightarrow> decoder \<Rightarrow> bool" where
  "value_read d d' \<longleftrightarrow> (\<forall>st stk ts. d = (st, stk, ts) \<longrightarrow> atom_tokens ts \<longrightarrow> st \<notin> {ObjectStart, ObjectComma, ObjectKey} \<longrightarrow>
     (\<exists>v ts'. ts = separator st @ toks v @ ts' \<and> d' = (valueEnd (opened st), stk, ts') \<and> unique_keys v))"

definition elements_read :: "decoder \<Rightarrow> decoder \<Rightarrow> bool" where
  "elements_read d d' \<longleftrightarrow> (\<forall>st s stk ts. d = (st, s # stk, ts) \<longrightarrow> atom_tokens ts \<longrightarrow> st = ArrayStart \<or> st = ArrayComma \<longrightarrow>
     (\<exists>vs ts'. ts = items st (map toks vs) @ TRBrack # ts' \<and> d' = (valueEnd s, stk, ts') \<and> (\<forall>v\<in>set vs. unique_keys v)))"

lemma walkElements_step:
  assumes "\<And>d1. walkValue n clean d = Inr d1 \<Longrightarrow> value_read d d1"
    "\<And>d1 d2. walkValue n clean d = Inr d1 \<Longrightarrow> walkElements n clean d1 = Inr d2 \<Longrightarrow> elements_read d1 d2"
    "walkElements (Suc n) clean d = Inr d'"
  shows "elements_read d d'"
  unfolding elements_read_def
proof (intro allI impI)
  fix st s stk ts assume d: "d = (st, s # stk, ts)" and at: "atom_tokens ts" and st: "st = ArrayStart \<or> st = ArrayComma"
  show "\<exists>vs ts'. ts = items st (map toks vs) @ TRBrack # ts' \<and> d' = (valueEnd s, stk, ts') \<and> (\<forall>v\<in>set vs. unique_keys v)"
  proof (cases "More clean d")
    case True
    then obtain d1 where d1: "walkValue n clean d = Inr d1" "walkElements n clean d1 = Inr d'" using assms(3) by auto
    have "st \<notin> {ObjectStart, ObjectComma, ObjectKey}" "valueEnd (opened st) = ArrayComma"
      using st by (auto simp: opened_def valueEnd_def)
    then obtain v ts1 where v: "ts = separator st @ toks v @ ts1" "d1 = (ArrayComma, s # stk, ts1)" "unique_keys v"
      using assms(1) [OF d1(1)] d at unfolding value_read_def by force
    then have "atom_tokens ts1" using at by simp
    then obtain vs ts' where "ts1 = items ArrayComma (map toks vs) @ TRBrack # ts'" "d' = (valueEnd s, stk, ts')" "\<forall>v\<in>set vs. unique_keys v"
      using assms(2) [OF d1] v(2) unfolding elements_read_def by blast
    then show ?thesis using v st by (intro exI [of _ "v # vs"] exI [of _ ts']) auto
  next
    case False
    then show ?thesis
      using assms(3) expect_close_sound [of clean TRBrack st "s # stk" ts] d by (cases d') (auto intro!: exI [of _ "[]"])
  qed
qed

lemma walkUniqueObject_step:
  assumes "\<And>d1 d2. walkValue n clean d1 = Inr d2 \<Longrightarrow> value_read d1 d2"
    "\<And>key d1 d2. walkUniqueObject n clean (key # seen) d1 = Inr d2 \<Longrightarrow> object_read (key # seen) d1 d2"
    "walkUniqueObject (Suc n) clean seen d = Inr d'"
  shows "object_read seen d d'"
  unfolding object_read_def
proof (intro allI impI)
  fix st s stk ts assume d: "d = (st, s # stk, ts)" and at: "atom_tokens ts" and st: "st = ObjectStart \<or> st = ObjectComma"
  show "\<exists>ms ts'. ts = items st (map member_toks ms) @ TRBrace # ts' \<and> d' = (valueEnd s, stk, ts') \<and>
        distinct (map fst ms) \<and> set seen \<inter> fst ` set ms = {} \<and> (\<forall>m\<in>set ms. unique_keys (snd m))"
  proof (cases "More clean d")
    case True
    then obtain key d1 d2 where w: "next_tok clean d = Inr (TAtom (JString key), d1)" "key \<notin> set seen"
      "walkValue n clean d1 = Inr d2" "walkUniqueObject n clean (key # seen) d2 = Inr d'"
      using assms(3) by (auto split: option.splits if_splits)
    obtain st1 stk1 ts1 where d1: "d1 = (st1, stk1, ts1)" by (cases d1)
    have "\<not> valueAllowed (opened st)" using st by (auto simp: opened_def valueAllowed_def)
    then have ts: "ts = separator st @ TAtom (JString key) # ts1" "st1 = ObjectColon" "stk1 = s # stk"
      using next_tok_sound [of clean st "s # stk" ts] w(1) d d1 at by auto
    then have "atom_tokens ts1" using at by (simp add: atom_tokens_Cons)
    then obtain v ts2 where v: "ts1 = TColon # toks v @ ts2" "d2 = (ObjectComma, s # stk, ts2)" "unique_keys v"
      using assms(1) [OF w(3)] d1 ts unfolding value_read_def
      by (force simp: separator_def opened_def valueEnd_def)
    then have "atom_tokens ts2" using at ts by (simp add: atom_tokens_Cons)
    then obtain ms ts' where "ts2 = items ObjectComma (map member_toks ms) @ TRBrace # ts'" "d' = (valueEnd s, stk, ts')"
      "distinct (map fst ms)" "set (key # seen) \<inter> fst ` set ms = {}" "\<forall>m\<in>set ms. unique_keys (snd m)"
      using assms(2) [OF w(4)] v(2) unfolding object_read_def by blast
    then show ?thesis using v ts w(2) st by (intro exI [of _ "(key, v) # ms"] exI [of _ ts']) auto
  next
    case False
    then show ?thesis
      using assms(3) expect_close_sound [of clean TRBrace st "s # stk" ts] d by (cases d') (auto intro!: exI [of _ "[]"])
  qed
qed

lemma walkValue_step:
  assumes "\<And>d1 d2. walkUniqueObject n clean [] d1 = Inr d2 \<Longrightarrow> object_read [] d1 d2"
    "\<And>d1 d2. walkElements n clean d1 = Inr d2 \<Longrightarrow> elements_read d1 d2"
    "walkValue (Suc n) clean d = Inr d'"
  shows "value_read d d'"
  unfolding value_read_def
proof (intro allI impI)
  fix st stk ts assume d: "d = (st, stk, ts)" and at: "atom_tokens ts" and st: "st \<notin> {ObjectStart, ObjectComma, ObjectKey}"
  obtain t st1 stk1 ts1 where t0: "next_tok clean (st, stk, ts) = Inr (t, st1, stk1, ts1)"
    using assms(3) d by auto
  have t: "next_tok clean (st, stk, ts) = Inr (t, st1, stk1, ts1)" "t \<noteq> TRBrack" "t \<noteq> TRBrace"
    using assms(3) d t0 by auto
  have op: "opened st \<notin> {ObjectStart, ObjectKey}" using st by (auto simp: opened_def)
  note nt = next_tok_sound [OF t at]
  then have at1: "atom_tokens ts1" using at by (auto simp: atom_tokens_Cons)
  consider (arr) "t = TLBrack" "st1 = ArrayStart" "stk1 = opened st # stk" "ts = separator st @ TLBrack # ts1"
    | (obj) "t = TLBrace" "st1 = ObjectStart" "stk1 = opened st # stk" "ts = separator st @ TLBrace # ts1"
    | (atom) v where "t = TAtom v" "is_atom v" "st1 = valueEnd (opened st)" "stk1 = stk" "ts = separator st @ TAtom v # ts1"
    using nt op by auto
  then show "\<exists>v ts'. ts = separator st @ toks v @ ts' \<and> d' = (valueEnd (opened st), stk, ts') \<and> unique_keys v"
  proof cases
    case arr
    then have "walkElements n clean (ArrayStart, opened st # stk, ts1) = Inr d'" using assms(3) d t by simp
    from assms(2) [OF this] at1 obtain vs ts' where
      "ts1 = items ArrayStart (map toks vs) @ TRBrack # ts'" "d' = (valueEnd (opened st), stk, ts')" "\<forall>v\<in>set vs. unique_keys v"
      unfolding elements_read_def by blast
    then show ?thesis using arr by (intro exI [of _ "JArray vs"] exI [of _ ts']) (simp add: commas_items list_all_iff)
  next
    case obj
    then have "walkUniqueObject n clean [] (ObjectStart, opened st # stk, ts1) = Inr d'" using assms(3) d t by simp
    from assms(1) [OF this] at1 obtain ms ts' where
      "ts1 = items ObjectStart (map member_toks ms) @ TRBrace # ts'" "d' = (valueEnd (opened st), stk, ts')"
      "distinct (map fst ms)" "\<forall>m\<in>set ms. unique_keys (snd m)"
      unfolding object_read_def by blast
    then show ?thesis using obj by (intro exI [of _ "JObject ms"] exI [of _ ts']) (auto simp: commas_items list_all_iff)
  next
    case atom
    then show ?thesis using assms(3) d t by (intro exI [of _ v] exI [of _ ts1]) (cases v; simp)
  qed
qed

lemma walk_sound:
  "(\<forall>seen d d'. walkUniqueObject n clean seen d = Inr d' \<longrightarrow> object_read seen d d') \<and>
   (\<forall>d d'. walkValue n clean d = Inr d' \<longrightarrow> value_read d d') \<and>
   (\<forall>d d'. walkElements n clean d = Inr d' \<longrightarrow> elements_read d d')"
proof (induction n)
  case (Suc n)
  note ih = this
  show ?case
  proof (intro conjI allI impI)
    fix seen d d' assume "walkUniqueObject (Suc n) clean seen d = Inr d'"
    then show "object_read seen d d'" by (rule walkUniqueObject_step [rotated 2]) (use ih in blast)+
  next
    fix d d' assume "walkValue (Suc n) clean d = Inr d'"
    then show "value_read d d'" by (rule walkValue_step [rotated 2]) (use ih in blast)+
  next
    fix d d' assume "walkElements (Suc n) clean d = Inr d'"
    then show "elements_read d d'" by (rule walkElements_step [rotated 2]) (use ih in blast)+
  qed
qed simp

section \<open>Acceptance of a text\<close>

lemma object_readD:
  "object_read seen (ObjectStart, s # stk, ts) d' \<Longrightarrow> atom_tokens ts \<Longrightarrow>
   \<exists>ms ts'. ts = items ObjectStart (map member_toks ms) @ TRBrace # ts' \<and> d' = (valueEnd s, stk, ts') \<and>
     distinct (map fst ms) \<and> (\<forall>m\<in>set ms. unique_keys (snd m))"
  by (auto simp: object_read_def)

declare next_tok.simps [simp del] walkUniqueObject.simps [simp del]

lemma ValidateUniqueObject_None:
  assumes "subject \<noteq> []"
  shows "ValidateUniqueObject raw subject = None \<longleftrightarrow>
    (\<exists>d d'. next_tok (lex_tokens raw \<noteq> None) (TopValue, [], lex_prefix raw) = Inr (TLBrace, d) \<and>
       walkUniqueObject (2 * length (lex_prefix raw) + 1) (lex_tokens raw \<noteq> None) [] d = Inr d' \<and>
       next_tok (lex_tokens raw \<noteq> None) d' = Inl JSONEnd)"
  using assms unfolding ValidateUniqueObject_def Let_def by (auto split: sum.splits if_splits)

lemma next_tok_TLBrace:
  "next_tok clean (TopValue, [], ts) = Inr (TLBrace, d) \<longleftrightarrow> (\<exists>us. ts = TLBrace # us \<and> d = (ObjectStart, [TopValue], us))"
  by (cases ts) (auto simp: next_tok.simps valueAllowed_def valueEnd_def split: token.splits list.splits)

lemma next_tok_end: "next_tok clean (TopValue, [], ts) = Inl JSONEnd \<longleftrightarrow> ts = [] \<and> clean"
  by (cases ts) (auto simp: next_tok.simps valueAllowed_def split: token.splits)

lemma ValidateUniqueObject_iff:
  assumes "subject \<noteq> []"
  shows "ValidateUniqueObject raw subject = None \<longleftrightarrow> (\<exists>ms. parse raw = Some (JObject ms) \<and> unique_keys (JObject ms))"
proof
  let ?ts = "lex_prefix raw" and ?clean = "lex_tokens raw \<noteq> None"
  assume "ValidateUniqueObject raw subject = None"
  then obtain us d' where us: "?ts = TLBrace # us"
    "walkUniqueObject (2 * length ?ts + 1) ?clean [] (ObjectStart, [TopValue], us) = Inr d'" "next_tok ?clean d' = Inl JSONEnd"
    using assms unfolding ValidateUniqueObject_None [OF assms] next_tok_TLBrace by blast
  have at: "atom_tokens us" using lex_prefix_atoms [of raw] us(1) by (simp add: atom_tokens_Cons)
  have "object_read [] (ObjectStart, [TopValue], us) d'"
    using walk_sound [of "2 * length ?ts + 1" ?clean] us(2) by blast
  from object_readD [OF this at]
  obtain ms ts' where ms: "us = items ObjectStart (map member_toks ms) @ TRBrace # ts'" "d' = (valueEnd TopValue, [], ts')"
    "distinct (map fst ms)" "\<forall>m\<in>set ms. unique_keys (snd m)"
    by blast
  have end_: "ts' = []" ?clean
    using us(3) next_tok_end [of ?clean ts'] unfolding ms(2) valueEnd_def by simp_all
  then obtain ts where "lex_tokens raw = Some ts" by blast
  moreover from lex_prefix_tokens [OF this] have "ts = toks (JObject ms)"
    using us(1) unfolding ms(1) end_(1) toks_items by simp
  ultimately have "lex_tokens raw = Some (toks (JObject ms))" by simp
  then show "\<exists>ms. parse raw = Some (JObject ms) \<and> unique_keys (JObject ms)"
    using ms(3,4) by (auto simp: parse_iff list_all_iff)
next
  let ?ts = "lex_prefix raw"
  assume "\<exists>ms. parse raw = Some (JObject ms) \<and> unique_keys (JObject ms)"
  then obtain ms where ms: "lex_tokens raw = Some (toks (JObject ms))" "unique_keys (JObject ms)"
    by (auto simp: parse_iff)
  have ts: "?ts = TLBrace # items ObjectStart (map member_toks ms) @ [TRBrace]"
    using lex_prefix_tokens [OF ms(1)] unfolding toks_items .
  have "\<forall>m\<in>set ms. walks (snd m)" using ms(2) walk_complete by (auto simp: list_all_iff)
  then have "walkUniqueObject (2 * length ?ts + 1) True [] (ObjectStart, [TopValue], items ObjectStart (map member_toks ms) @ [TRBrace]) =
      Inr (valueEnd TopValue, [], [])"
    using ms(2) unfolding ts by (intro walkUniqueObject_complete) auto
  then show "ValidateUniqueObject raw subject = None"
    unfolding ValidateUniqueObject_None [OF assms] next_tok_TLBrace
    using ms(1) ts by (auto simp: valueEnd_def next_tok_end)
qed

section \<open>Exact field names\<close>

text \<open>
  A Go type as far as the check inspects it; the flag says that the type or a pointer to it implements
  \<^verbatim>\<open>json.Unmarshaler\<close>. A field has its name, its \<^verbatim>\<open>json\<close> tag, whether it is exported
  and whether it is embedded. \<^verbatim>\<open>strings.EqualFold\<close> is a parameter. Types that contain themselves are
  represented by their unfolding to the depth of the value.
\<close>

datatype go_type =
    GoPointer go_type
  | GoStruct bool "go_field list"
  | GoSlice bool go_type
  | GoOther
and go_field = GoField (fld_Name: string) (fld_Tag: string) (fld_Exported: bool) (fld_Anonymous: bool) (fld_Type: go_type)

fun deref :: "go_type \<Rightarrow> go_type" where
  "deref (GoPointer t) = deref t"
| "deref t = t"

definition unmarshals :: "go_type \<Rightarrow> bool" where
  "unmarshals t = (case t of GoStruct b _ \<Rightarrow> b | GoSlice b _ \<Rightarrow> b | _ \<Rightarrow> False)"

definition tag_name :: "go_field \<Rightarrow> string" where
  "tag_name f = takeWhile (\<lambda>c. c \<noteq> CHR '','') (fld_Tag f)"

fun embedded_type :: "go_type \<Rightarrow> go_type" where
  "embedded_type (GoPointer t) = t"
| "embedded_type t = t"

definition is_struct :: "go_type \<Rightarrow> bool" where
  "is_struct t = (case t of GoStruct _ _ \<Rightarrow> True | _ \<Rightarrow> False)"

definition own_field :: "go_field \<Rightarrow> (string \<times> go_type) list" where
  "own_field f =
     (if \<not> fld_Exported f \<or> tag_name f = ''-'' then []
      else if fld_Anonymous f \<and> tag_name f = [] \<and> is_struct (embedded_type (fld_Type f)) then []
      else [(if tag_name f = [] then fld_Name f else tag_name f, fld_Type f)])"

definition promotes :: "go_field \<Rightarrow> bool" where
  "promotes f \<longleftrightarrow> fld_Exported f \<and> fld_Anonymous f \<and> tag_name f = [] \<and> is_struct (embedded_type (fld_Type f))"

lemma size_embedded_type: "size (embedded_type t) \<le> size t"
  by (cases t) auto

lemma size_go_field: "f \<in> set fs \<Longrightarrow> size (fld_Type f) < size (GoStruct b fs)"
proof -
  assume "f \<in> set fs"
  then have "size f \<le> size_list size fs" by (simp add: size_list_estimation')
  then show ?thesis by (cases f) simp
qed

function exactStructFields :: "go_type \<Rightarrow> (string \<times> go_type) list" where
  \<comment> \<open>the entries in the order in which they are written to the map; a later entry replaces an earlier one\<close>
  "exactStructFields t =
     (case t of
        GoStruct _ fs \<Rightarrow>
          concat (map (\<lambda>f. if promotes f then exactStructFields (embedded_type (fld_Type f)) else []) fs)
          @ concat (map own_field fs)
      | _ \<Rightarrow> [])"
  by pat_completeness auto
termination
proof (relation "measure size", goal_cases)
  case (2 t b fs f)
  then show ?case using le_less_trans [OF size_embedded_type size_go_field, of f fs b] by simp
qed simp

declare exactStructFields.simps [simp del]

definition struct_field :: "go_type \<Rightarrow> string \<rightharpoonup> go_type" where
  "struct_field t = map_of (rev (exactStructFields t))"

lemma first_err_cong [fundef_cong]: "xs = ys \<Longrightarrow> (\<And>x. x \<in> set ys \<Longrightarrow> f x = g x) \<Longrightarrow> first_err f xs = first_err g ys"
  by (induction xs arbitrary: ys) auto

function validateShape :: "(string \<Rightarrow> string \<Rightarrow> bool) \<Rightarrow> bool \<Rightarrow> json \<Rightarrow> go_type \<Rightarrow> exact_error option" where
  "validateShape EqualFold allowUnknown v target =
     (if v = JNull \<or> unmarshals (deref target) then None
      else case deref target of
        GoStruct _ _ \<Rightarrow>
          (case v of
             JObject ms \<Rightarrow>
               first_err (\<lambda>m.
                 case struct_field (deref target) (fst m) of
                   Some fieldType \<Rightarrow> validateShape EqualFold allowUnknown (snd m) fieldType
                 | None \<Rightarrow>
                     if allowUnknown
                     then map_option (\<lambda>r. InexactAlias (fst m) (fst r))
                       (first_with (\<lambda>r. EqualFold (fst m) (fst r)) (exactStructFields (deref target)))
                     else Some (UnknownField (fst m))) ms
           | _ \<Rightarrow> None)
      | GoSlice _ element \<Rightarrow>
          (case v of
             JArray vs \<Rightarrow> first_err (\<lambda>x. validateShape EqualFold allowUnknown x element) vs
           | _ \<Rightarrow> None)
      | _ \<Rightarrow> None)"
  by pat_completeness auto
termination
proof (relation "measure (\<lambda>(_, _, v, _). size v)", goal_cases)
  case (2 ef al v target b fs ms m ft)
  then have "size (snd m) < size (JObject ms)"
    by (cases m) (auto simp: size_list_estimation' less_Suc_eq_le)
  then show ?case using 2 by simp
next
  case (3 ef al v target b el vs x)
  then have "size x \<le> size_list size vs" by (simp add: size_list_estimation')
  then show ?case using 3 by simp
qed simp

declare validateShape.simps [simp del]

definition shape_of :: "(string \<Rightarrow> string \<Rightarrow> bool) \<Rightarrow> bool \<Rightarrow> string \<Rightarrow> go_type \<Rightarrow> exact_error option" where
  "shape_of EqualFold allowUnknown raw target =
     (case Decode raw of None \<Rightarrow> Some JSONSyntax | Some v \<Rightarrow> validateShape EqualFold allowUnknown v target)"

definition ValidateExactFields :: "(string \<Rightarrow> string \<Rightarrow> bool) \<Rightarrow> string \<Rightarrow> go_type option \<Rightarrow> string \<Rightarrow> exact_error option" where
  "ValidateExactFields EqualFold raw target subject =
     (case target of
        None \<Rightarrow> Some Uninitialized
      | Some t \<Rightarrow> if subject = [] then Some Uninitialized else shape_of EqualFold False raw t)"

definition ValidateObject :: "(string \<Rightarrow> string \<Rightarrow> bool) \<Rightarrow> string \<Rightarrow> go_type option \<Rightarrow> string \<Rightarrow> exact_error option" where
  "ValidateObject EqualFold raw target subject =
     or_else (ValidateUniqueObject raw subject) (ValidateExactFields EqualFold raw target subject)"

definition ValidateCompatibleObject :: "(string \<Rightarrow> string \<Rightarrow> bool) \<Rightarrow> string \<Rightarrow> go_type option \<Rightarrow> string \<Rightarrow> exact_error option" where
  "ValidateCompatibleObject EqualFold raw target subject =
     or_else (ValidateUniqueObject raw subject)
       (case target of
          None \<Rightarrow> Some Uninitialized
        | Some t \<Rightarrow> if subject = [] then Some Uninitialized else shape_of EqualFold True raw t)"

subsection \<open>What an accepted text cannot contain\<close>

text \<open>The positions of a value that the decoder fills from a type: the value there and its type.\<close>

inductive position :: "json \<Rightarrow> go_type \<Rightarrow> json \<Rightarrow> go_type \<Rightarrow> bool" for v t where
  here: "position v t v t"
| element: "position v t (JArray xs) u \<Longrightarrow> deref u = GoSlice False e \<Longrightarrow> x \<in> set xs \<Longrightarrow> position v t x e"
| field: "position v t (JObject ms) u \<Longrightarrow> deref u = GoStruct False fs \<Longrightarrow> (k, x) \<in> set ms \<Longrightarrow>
    struct_field (deref u) k = Some e \<Longrightarrow> position v t x e"

lemma validateShape_position:
  assumes "validateShape EqualFold allow v t = None" "position v t w u"
  shows "validateShape EqualFold allow w u = None"
  using assms(2)
proof induction
  case (element xs u e x)
  then show ?case by (subst (asm) validateShape.simps) (simp add: unmarshals_def)
next
  case (field ms u fs k x e)
  then show ?case by (subst (asm) validateShape.simps) (force simp: unmarshals_def)
qed (rule assms(1))

lemma validateShape_exact:
  assumes "validateShape EqualFold False v t = None" "position v t (JObject ms) u" "deref u = GoStruct False fs" "(k, x) \<in> set ms"
  shows "struct_field (deref u) k \<noteq> None"
  using validateShape_position [OF assms(1,2)] assms(3,4)
  by (subst (asm) validateShape.simps) (force simp: unmarshals_def split: option.splits)

lemma ValidateObject_accepts:
  assumes "ValidateObject EqualFold raw (Some t) subject = None"
  shows "(\<exists>ms. parse raw = Some (JObject ms) \<and> unique_keys (JObject ms)) \<and>
    (\<exists>v. Decode raw = Some v \<and> (\<forall>ms u fs k x. position v t (JObject ms) u \<longrightarrow> deref u = GoStruct False fs \<longrightarrow>
        (k, x) \<in> set ms \<longrightarrow> struct_field (deref u) k \<noteq> None))"
proof -
  have subject: "subject \<noteq> []" using assms by (auto simp: ValidateObject_def ValidateUniqueObject_def)
  then obtain v where v: "ValidateUniqueObject raw subject = None" "Decode raw = Some v" "validateShape EqualFold False v t = None"
    using assms by (auto simp: ValidateObject_def ValidateExactFields_def shape_of_def split: option.splits)
  then show ?thesis
    using ValidateUniqueObject_iff [OF subject] validateShape_exact [OF v(3)] by blast
qed

end
