(* ===== verification/Exact_Laws.thy ===== *)
theory Exact_Laws
  imports Exact_Fields
begin

text \<open>What the package \<^verbatim>\<open>exactjson\<close> guarantees about the texts it accepts and writes.\<close>


definition quoted :: "string \<Rightarrow> string" where
  "quoted s = CHR 0x22 # s @ [CHR 0x22]"

definition sample_text :: string where
  "sample_text = ''{ '' @ quoted ''b'' @ '' : [1, true], '' @ quoted ''a'' @ '':null } ''"

definition sample_canonical :: string where
  "sample_canonical = ''{'' @ quoted ''a'' @ '':null,'' @ quoted ''b'' @ '':[1,true]}''"


text \<open>C26. The check for unique members decides its property: a text passes exactly when it is one JSON object
  in which no object, at any depth, repeats a member name.\<close>

theorem ValidateUniqueObject_decides:
  assumes "subject \<noteq> []"
  shows "ValidateUniqueObject raw subject = None \<longleftrightarrow> (\<exists>ms. parse raw = Some (JObject ms) \<and> unique_keys (JObject ms))"
  using assms by (rule ValidateUniqueObject_iff)

definition sample_repeated :: string where
  "sample_repeated = ''{'' @ quoted ''a'' @ '':[{'' @ quoted ''b'' @ '':1,'' @ quoted ''b'' @ '':2}]}''"

theorem ValidateUniqueObject_decides_witness:
  "ValidateUniqueObject sample_text ''plan'' = None \<and> (\<exists>ms. parse sample_text = Some (JObject ms) \<and> unique_keys (JObject ms)) \<and>
   \<not> (\<exists>ms. parse sample_repeated = Some (JObject ms) \<and> unique_keys (JObject ms))"
proof -
  have "ValidateUniqueObject sample_text ''plan'' = None" "ValidateUniqueObject sample_repeated ''plan'' \<noteq> None"
    by code_simp+
  then show ?thesis
    using ValidateUniqueObject_decides [of "''plan''" sample_text] ValidateUniqueObject_decides [of "''plan''" sample_repeated] by simp
qed


definition sample_type :: go_type where
  "sample_type = GoStruct False [GoField ''A'' ''a,omitempty'' True False GoOther, GoField ''B'' ''b'' True False (GoSlice False GoOther)]"


end
