(* ===== verification/Coding_Contracts.thy ===== *)
theory Coding_Contracts
  imports Planning_Actions Exact_JSON
begin

text \<open>
  The boundary between the task authority and replaceable agents
  (\<^verbatim>\<open>internal/codingagent/contracts.go\<close>, \<^verbatim>\<open>ledger_contracts.go\<close>,
  \<^verbatim>\<open>validation.go\<close>, \<^verbatim>\<open>evidence.go\<close>, \<^verbatim>\<open>dispatch.go\<close>,
  \<^verbatim>\<open>assignment_context.go\<close>): routes and their validation, tasks, assignments and their
  scope, results and the journal entries.

  A \<^verbatim>\<open>json.RawMessage\<close> is its bytes. The phase of a journal entry is a string constant in the
  code; here it is a constructor per constant that the modelled code writes or reads.
\<close>

section \<open>Roles and routes\<close>

datatype Mode = Agents | ModeOther string

datatype Role =
    RoleNone
  | Plan
  | PlanningInitial
  | PlanningMutation
  | Execute
  | ExecutionResponse
  | Review
  | ReviewResponse
  | RoleOther string

definition IsPlanning :: "Role \<Rightarrow> bool" where
  "IsPlanning role \<longleftrightarrow> role \<in> {Plan, PlanningInitial, PlanningMutation}"

definition IsNative :: "Role \<Rightarrow> bool" where
  "IsNative role \<longleftrightarrow> role = Plan \<or> role = Execute \<or> role = Review"

record Route =
  rt_Provider :: string
  rt_Model :: string
  rt_Effort :: string
  rt_ServiceTier :: string

definition Route_zero :: Route where
  "Route_zero = \<lparr>rt_Provider = [], rt_Model = [], rt_Effort = [], rt_ServiceTier = []\<rparr>"

record Configuration =
  cfg_Mode :: Mode
  cfg_Planner :: Route
  cfg_LedgerParser :: Route
  cfg_Executor :: Route
  cfg_Reviewer :: Route

record RouteSet =
  rs_Planner :: Route
  rs_Executor :: Route
  rs_Reviewer :: Route

datatype RouteConfigurationState =
    RouteConfigurationProposed
  | RouteConfigurationFrozen
  | RouteConfigurationOther string

record RouteConfigurationRevision =
  rc_ID :: string
  rc_Revision :: int
  rc_BaseRevision :: int
  rc_LedgerID :: string
  rc_LedgerRevision :: int
  rc_OwnerTurnID :: string
  rc_State :: RouteConfigurationState
  rc_Routes :: RouteSet

datatype contract_error =
    UnknownMode
  | RouteNames
  | RouteOption
  | RouteOf string contract_error
  | RouteUnfrozen string
  | RouteIdentity
  | RouteState
  | RouteOwnerTurn
  | TaskIdentity
  | TaskReference
  | TaskRepeats string
  | ResultUnbound
  | ResultThread
  | PathInexact
  | PathExcluded
  | ContextReport
  | ContextInventory
  | ContextParser
  | ContextParent
  | ContextResponse
  | ContextReads
  | ContextUnrelated
  | ContextDeletes
  | ContextAuthority
  | ControllerAuthority
  | ControllerMode
  | ControllerProvider
  | RecapCounts

definition validateRoute :: "Route \<Rightarrow> contract_error option" where
  "validateRoute route =
     or_else (fail_if (blank (rt_Provider route) \<or> blank (rt_Model route)) RouteNames)
       (first_err (\<lambda>option. fail_if (TrimSpace option \<noteq> option \<or> ContainsAny option [CHR 0x00, CHR 0x0D, CHR 0x0A]) RouteOption)
         [rt_Effort route, rt_ServiceTier route])"

definition route_candidates :: "RouteSet \<Rightarrow> (string \<times> Route) list" where
  "route_candidates routes =
     [(''planner'', rs_Planner routes), (''executor'', rs_Executor routes), (''reviewer'', rs_Reviewer routes)]"

definition RouteSet_Validate :: "RouteSet \<Rightarrow> contract_error option" where
  "RouteSet_Validate routes =
     first_err (\<lambda>(name, route). map_option (RouteOf name) (validateRoute route)) (route_candidates routes)"

definition validateFrozen :: "RouteSet \<Rightarrow> contract_error option" where
  "validateFrozen routes =
     first_err (\<lambda>(name, route). fail_if (rt_Effort route = [] \<or> rt_ServiceTier route = []) (RouteUnfrozen name))
       (route_candidates routes)"

definition RouteConfigurationRevision_Validate :: "RouteConfigurationRevision \<Rightarrow> contract_error option" where
  "RouteConfigurationRevision_Validate c =
     or_else (fail_if (blank (rc_ID c) \<or> rc_Revision c < 1 \<or> rc_BaseRevision c < 0 \<or>
         rc_BaseRevision c \<noteq> int64 (rc_Revision c - 1) \<or> blank (rc_LedgerID c) \<or> rc_LedgerRevision c < 0) RouteIdentity)
    (or_else (fail_if (rc_State c \<notin> {RouteConfigurationProposed, RouteConfigurationFrozen}) RouteState)
    (or_else (fail_if (rc_Revision c > 1 \<and> blank (rc_OwnerTurnID c)) RouteOwnerTurn)
    (or_else (RouteSet_Validate (rc_Routes c))
     (if rc_State c = RouteConfigurationFrozen then validateFrozen (rc_Routes c) else None))))"

definition Configuration_Validate :: "Configuration \<Rightarrow> contract_error option" where
  "Configuration_Validate config =
     or_else (fail_if (cfg_Mode config \<noteq> Agents) UnknownMode)
    (or_else (if cfg_LedgerParser config \<noteq> Route_zero
              then map_option (RouteOf ''response parser'') (validateRoute (cfg_LedgerParser config)) else None)
     (RouteSet_Validate \<lparr>rs_Planner = cfg_Planner config, rs_Executor = cfg_Executor config,
        rs_Reviewer = cfg_Reviewer config\<rparr>))"

section \<open>Tasks, assignments, results and the journal\<close>

record Task =
  tk_Payload :: string
  tk_Objective :: string
  tk_OwnerContext :: "TaskContext list"
  tk_Constraints :: "string list"
  tk_FileResponsibilities :: "TaskFileResponsibility list"
  tk_Acceptance :: "TaskAcceptance list"
  tk_ID :: string
  tk_Goal :: string
  tk_ReadFiles :: "string list"
  tk_WriteFiles :: "string list"
  tk_DeleteFiles :: "string list"

definition Task_LedgerTask :: "Task \<Rightarrow> LedgerTask" where
  "Task_LedgerTask task =
     \<lparr>task_Item = LedgerItem_zero\<lparr>item_ID := tk_ID task\<rparr>, task_Goal = tk_Goal task, task_Objective = tk_Objective task,
      task_OwnerContext = tk_OwnerContext task, task_Constraints = tk_Constraints task,
      task_FileResponsibilities = tk_FileResponsibilities task, task_Acceptance = tk_Acceptance task,
      task_ReadFiles = tk_ReadFiles task, task_WriteFiles = tk_WriteFiles task, task_DeleteFiles = tk_DeleteFiles task\<rparr>"

definition Task_Instructions :: "Task \<Rightarrow> string" where
  "Task_Instructions task = Instructions (Task_LedgerTask task)"

record Objective =
  obj_Instruction :: string
  obj_Clarifications :: "string list"

record ConstructionFact =
  fact_Kind :: string
  fact_Quote :: string

record Finding =
  fd_TaskID :: string
  fd_File :: string
  fd_Observation :: string

datatype ExecutionResponseKind =
    ExecutionNone
  | ExecutionDone
  | ExecutionContinue
  | ExecutionQuestion
  | ExecutionPermission
  | ExecutionError
  | ExecutionOther string

record ReviewResult =
  rv_Findings :: "Finding list"
  rv_Verification :: string

record ReviewResponseResult =
  rr_Kind :: ExecutionResponseKind
  rr_ReviewResult :: ReviewResult

record ExecutionReport =
  er_CallID :: int
  er_Round :: int
  er_Response :: string

record ExecutionSession =
  es_ThreadID :: string
  es_TurnID :: string
  es_PreviousTurnID :: string
  es_State :: string

record TaskClarification =
  cl_QuestionCallID :: int
  cl_AnswerEvidenceID :: int
  cl_Question :: string
  cl_Answer :: string

record TaskContinuation =
  tc_LedgerRevision :: int
  tc_Task :: Task
  tc_Reason :: string
  tc_ThreadID :: string
  tc_TurnID :: string
  tc_Clarifications :: "TaskClarification list"

record PlanningMessage =
  msg_Role :: string
  msg_Text :: string

record Assignment =
  as_ExecutionReport :: "ExecutionReport option"
  as_JobID :: int
  as_Generation :: int
  as_Role :: Role
  as_Task :: "Task option"
  as_Objective :: "Objective option"
  as_ConstructionFacts :: "ConstructionFact list"
  as_Findings :: "Finding list"
  as_ValidationNotes :: "string list"
  as_Root :: string
  as_ReadFiles :: "string list"
  as_WriteFiles :: "string list"
  as_DeleteFiles :: "string list"
  as_Route :: Route
  as_PlanningQuestionID :: string
  as_PlanningBaseRevision :: int
  as_PlanningLedger :: "EngineeringLedger option"
  as_PrecedingIncompleteTasks :: "PlanningTaskPrerequisite list"
  as_PlanningConversation :: "PlanningMessage list"
  as_NewerOwnerDirection :: "PlanningDirection option"
  as_PlanningResponse :: string
  as_Response :: string
  as_Session :: "ExecutionSession option"
  as_Reply :: string
  as_Context :: string
  as_Continuation :: "TaskContinuation option"
  as_Clarifications :: "TaskClarification list"
  as_CompletedTaskIDs :: "string list"

definition Assignment_zero :: Assignment where
  "Assignment_zero =
     \<lparr>as_ExecutionReport = None, as_JobID = 0, as_Generation = 0, as_Role = RoleNone, as_Task = None,
      as_Objective = None, as_ConstructionFacts = [], as_Findings = [], as_ValidationNotes = [], as_Root = [],
      as_ReadFiles = [], as_WriteFiles = [], as_DeleteFiles = [], as_Route = Route_zero,
      as_PlanningQuestionID = [], as_PlanningBaseRevision = 0, as_PlanningLedger = None,
      as_PrecedingIncompleteTasks = [], as_PlanningConversation = [], as_NewerOwnerDirection = None,
      as_PlanningResponse = [], as_Response = [], as_Session = None, as_Reply = [], as_Context = [],
      as_Continuation = None, as_Clarifications = [], as_CompletedTaskIDs = []\<rparr>"

record Result =
  res_CallID :: int
  res_Provider :: string
  res_Model :: string
  res_ThreadID :: string
  res_TurnID :: string
  res_Completed :: bool
  res_Content :: string
  res_Evidence :: "string list"

record NativeInputRequest =
  ni_ID :: string
  ni_Method :: string
  ni_ThreadID :: string
  ni_TurnID :: string
  ni_Prompt :: string

record TaskOrderingEvidence =
  toe_Key :: string
  toe_OperationID :: string
  toe_Route :: Route
  toe_Prompt :: string
  toe_Response :: string
  toe_ElapsedMS :: int

datatype Phase =
    PhaseCallOpened
  | PhaseCallCompleted
  | PhaseCallFailed
  | PhaseTaskExecuting
  | PhaseExecutionResponse
  | PhaseExecutionReply
  | PhaseExecutionSession
  | PhaseExecutionNativeInput
  | PhaseReviewResponse
  | PhaseReviewParseRejected
  | PhaseTaskReviewed
  | PhaseTaskAccepted
  | PhaseTaskInterrupted
  | PhaseTaskIncomplete
  | PhaseTaskResume
  | PhaseResponseRecovery
  | PhaseFilesWritten
  | PhaseTaskOrdering
  | PhaseTaskOrderingFailed
  | PhasePlanningDraft
  | PhasePlanningResponse
  | PhasePlanningParseRejected
  | PhaseOther string

record Entry =
  en_PlanningProposal :: "EngineeringLedger option"
  en_TaskOrdering :: "TaskOrderingEvidence option"
  en_ID :: int
  en_Generation :: int
  en_Phase :: Phase
  en_TaskID :: string
  en_Round :: int
  en_CallID :: int
  en_Role :: Role
  en_Assignment :: "Assignment option"
  en_Result :: "Result option"
  en_Frame :: string
  en_Findings :: "Finding list"
  en_WrittenFiles :: "string list"
  en_Notes :: "string list"
  en_ConstructionFacts :: "ConstructionFact list"
  en_ResponseKind :: ExecutionResponseKind
  en_Session :: "ExecutionSession option"
  en_NativeInput :: "NativeInputRequest option"
  en_InputID :: int
  en_NativeReply :: string
  en_ParserCallID :: int
  en_ReviewResponse :: "ReviewResponseResult option"
  en_Continuation :: "TaskContinuation option"
  en_NewerOwnerDirection :: "PlanningDirection option"

definition Entry_zero :: Entry where
  "Entry_zero =
     \<lparr>en_PlanningProposal = None, en_TaskOrdering = None, en_ID = 0, en_Generation = 0, en_Phase = PhaseOther [],
      en_TaskID = [], en_Round = 0, en_CallID = 0, en_Role = RoleNone, en_Assignment = None, en_Result = None,
      en_Frame = [], en_Findings = [], en_WrittenFiles = [], en_Notes = [], en_ConstructionFacts = [],
      en_ResponseKind = ExecutionNone, en_Session = None, en_NativeInput = None, en_InputID = 0,
      en_NativeReply = [], en_ParserCallID = 0, en_ReviewResponse = None, en_Continuation = None,
      en_NewerOwnerDirection = None\<rparr>"

section \<open>Validation of tasks and results\<close>

fun task_files_error :: "string list \<Rightarrow> string list \<Rightarrow> contract_error option" where
  "task_files_error seen [] = None"
| "task_files_error seen (f # fs) =
     (if ValidateTaskFileReference f \<noteq> None then Some TaskReference
      else if f \<in> set seen then Some (TaskRepeats f)
      else task_files_error (f # seen) fs)"

definition Task_Validate :: "Task \<Rightarrow> contract_error option" where
  "Task_Validate task =
     or_else (fail_if (blank (tk_ID task) \<or> blank (tk_Goal task)) TaskIdentity)
       (first_err (task_files_error []) [tk_ReadFiles task, tk_WriteFiles task, tk_DeleteFiles task])"

definition json_Valid :: "string \<Rightarrow> bool" where
  \<comment> \<open>\<^verbatim>\<open>json.Valid\<close>: the text is one JSON value, of at most the depth the scanner admits\<close>
  "json_Valid s = (case parse s of Some v \<Rightarrow> depth v \<le> 10000 | None \<Rightarrow> False)"

definition ValidateFor :: "Result \<Rightarrow> Role \<Rightarrow> Route \<Rightarrow> contract_error option" where
  "ValidateFor result role route =
     or_else (fail_if (res_Provider result \<noteq> rt_Provider route \<or> res_Model result \<noteq> rt_Model route \<or>
         \<not> res_Completed result \<or> \<not> json_Valid (res_Content result)) ResultUnbound)
       (fail_if (IsNative role \<and> res_ThreadID result = []) ResultThread)"

definition decode_text :: "string \<Rightarrow> string option" where
  \<comment> \<open>\<^verbatim>\<open>json.Unmarshal(content, &response)\<close> for a string; a null keeps the zero value\<close>
  "decode_text content =
     (case parse content of Some (JString s) \<Rightarrow> Some s | Some JNull \<Rightarrow> Some [] | _ \<Rightarrow> None)"

section \<open>Paths\<close>

fun split_on :: "char \<Rightarrow> string \<Rightarrow> string list" where
  \<comment> \<open>\<^verbatim>\<open>strings.Split\<close> at a separator of one byte\<close>
  "split_on sep [] = [[]]"
| "split_on sep (c # cs) =
     (if c = sep then [] # split_on sep cs
      else case split_on sep cs of p # ps \<Rightarrow> (c # p) # ps | [] \<Rightarrow> [[c]])"

fun join_on :: "char \<Rightarrow> string list \<Rightarrow> string" where
  "join_on sep [] = []"
| "join_on sep [p] = p"
| "join_on sep (p # ps) = p @ sep # join_on sep ps"

fun clean_parts :: "bool \<Rightarrow> string list \<Rightarrow> string list \<Rightarrow> string list" where
  \<comment> \<open>the parts kept so far are reversed\<close>
  "clean_parts rooted kept [] = rev kept"
| "clean_parts rooted kept (p # ps) =
     (if p = [] \<or> p = ''.'' then clean_parts rooted kept ps
      else if p = ''..'' then
        (case kept of
           k # ks \<Rightarrow> if k \<noteq> ''..'' then clean_parts rooted ks ps else clean_parts rooted (p # kept) ps
         | [] \<Rightarrow> if rooted then clean_parts rooted [] ps else clean_parts rooted [p] ps)
      else clean_parts rooted (p # kept) ps)"

definition IsAbs :: "string \<Rightarrow> bool" where
  "IsAbs s \<longleftrightarrow> (case s of c # _ \<Rightarrow> c = CHR ''/'' | [] \<Rightarrow> False)"

definition Clean :: "string \<Rightarrow> string" where
  \<comment> \<open>\<^verbatim>\<open>path.Clean\<close>\<close>
  "Clean s =
     (if s = [] then ''.''
      else let out = join_on CHR ''/'' (clean_parts (IsAbs s) [] (split_on CHR ''/'' s)) in
        if IsAbs s then CHR ''/'' # out else if out = [] then ''.'' else out)"

definition HasPrefix :: "string \<Rightarrow> string \<Rightarrow> bool" where
  "HasPrefix s p \<longleftrightarrow> take (length p) s = p"

definition excluded_part :: "string \<Rightarrow> bool" where
  "excluded_part part \<longleftrightarrow>
     part = ''.git'' \<or> part = ''.codex'' \<or> part = ''.env'' \<or> HasPrefix part ''.env.'' \<or> part = ''node_modules'' \<or>
     part = ''.agent-cache'' \<or> part = ''bin''"

definition ValidatePath :: "string \<Rightarrow> contract_error option" where
  "ValidatePath v =
     or_else (fail_if (v = [] \<or> v = ''.'' \<or> IsAbs v \<or> Clean v \<noteq> v \<or>
         ContainsAny v [CHR 0x5C, CHR 0x00, CHR 0x0D, CHR 0x0A] \<or> v = ''..'' \<or> HasPrefix v ''../'') PathInexact)
       (first_err (\<lambda>part. fail_if (excluded_part part) PathExcluded) (split_on CHR ''/'' v))"

section \<open>The scope of an assignment\<close>

fun uniqueLoop :: "string list \<Rightarrow> string list \<Rightarrow> string list \<Rightarrow> string list" where
  "uniqueLoop seen acc [] = acc"
| "uniqueLoop seen acc (f # fs) =
     (if f \<notin> set seen then uniqueLoop (f # seen) (acc @ [f]) fs else uniqueLoop seen acc fs)"

definition uniqueFiles :: "string list \<Rightarrow> string list" where
  "uniqueFiles files = sort (uniqueLoop [] [] files)"

record Controller =
  ct_JobID :: int
  ct_Generation :: int
  ct_Root :: string
  ct_Configuration :: Configuration
  ct_Providers :: "string list" \<comment> \<open>the names with a registered provider\<close>
  ct_Environment :: bool \<comment> \<open>an environment is set\<close>
  ct_Evidence :: bool \<comment> \<open>an evidence store is set\<close>
  ct_CompletedTaskIDs :: "string list"

definition assignment :: "Controller \<Rightarrow> Role \<Rightarrow> Task option \<Rightarrow> Route \<Rightarrow> Assignment" where
  "assignment c role task route =
     (let call = Assignment_zero\<lparr>as_JobID := ct_JobID c, as_Generation := ct_Generation c, as_Root := ct_Root c,
                   as_Role := role, as_Task := task, as_Route := route\<rparr>
      in case task of
           None \<Rightarrow> call
         | Some t \<Rightarrow>
             (let call = call\<lparr>as_ReadFiles := uniqueFiles (tk_ReadFiles t @ tk_WriteFiles t)\<rparr>
              in if role = Execute
                 then call\<lparr>as_WriteFiles := tk_WriteFiles t, as_DeleteFiles := tk_DeleteFiles t,
                        as_ReadFiles := uniqueFiles (as_ReadFiles call @ tk_DeleteFiles t)\<rparr>
                 else call))"

definition recoverableSession :: "ExecutionSession option \<Rightarrow> bool" where
  "recoverableSession session =
     (case session of Some s \<Rightarrow> es_ThreadID s \<noteq> [] \<and> es_State s \<noteq> ''idle'' | None \<Rightarrow> False)"

definition contains :: "string list \<Rightarrow> string \<Rightarrow> bool" where
  "contains vals v \<longleftrightarrow> first_with (\<lambda>candidate. candidate = v) vals \<noteq> None"

definition parser_context_error :: "Assignment \<Rightarrow> contract_error option" where
  "parser_context_error call =
     fail_if (as_Task call = None \<or> as_Response call = [] \<or> as_Objective call \<noteq> None \<or>
       as_ConstructionFacts call \<noteq> [] \<or> as_PlanningLedger call \<noteq> None \<or> as_PlanningConversation call \<noteq> [] \<or>
       as_PlanningResponse call \<noteq> [] \<or> as_ReadFiles call \<noteq> [] \<or> as_WriteFiles call \<noteq> [] \<or>
       as_DeleteFiles call \<noteq> [] \<or> as_Findings call \<noteq> [] \<or> as_Session call \<noteq> None \<or> as_Reply call \<noteq> []) ContextParser"

definition file_scope_error :: "Assignment \<Rightarrow> Task \<Rightarrow> contract_error option" where
  "file_scope_error call task =
     (let allowed = uniqueFiles (tk_ReadFiles task @ tk_WriteFiles task);
          allowed = (if as_Role call = Execute then uniqueFiles (allowed @ tk_DeleteFiles task) else allowed)
      in or_else (fail_if (length (as_ReadFiles call) \<noteq> length allowed) ContextReads)
        (or_else (first_err (\<lambda>f. fail_if (\<not> contains allowed f) ContextUnrelated) (as_ReadFiles call))
         (if as_Role call = Execute
          then or_else (fail_if (length (as_DeleteFiles call) \<noteq> length (tk_DeleteFiles task)) ContextDeletes)
                 (first_err (\<lambda>f. fail_if (\<not> contains (tk_DeleteFiles task) f) ContextUnrelated) (as_DeleteFiles call))
          else fail_if (as_WriteFiles call \<noteq> [] \<or> as_DeleteFiles call \<noteq> []) ContextAuthority)))"

definition ValidateTaskContext :: "Assignment \<Rightarrow> contract_error option" where
  "ValidateTaskContext call =
     (if (as_Role call = Review \<or> as_Role call = ReviewResponse) \<and> as_Task call = None \<and> as_Objective call \<noteq> None
      then None
      else or_else (case as_ExecutionReport call of
             Some r \<Rightarrow> fail_if (as_Role call \<noteq> Review \<and> as_Role call \<noteq> Execute \<or> er_CallID r < 1 \<or> er_Response r = []) ContextReport
           | None \<Rightarrow> None)
       (or_else (fail_if (\<not> IsPlanning (as_Role call) \<and>
             (as_Continuation call \<noteq> None \<or> as_CompletedTaskIDs call \<noteq> [] \<or> as_NewerOwnerDirection call \<noteq> None)) ContextInventory)
        (if as_Role call = ReviewResponse \<or> as_Role call = ExecutionResponse then parser_context_error call
         else if as_Role call \<noteq> Execute \<and> as_Role call \<noteq> Review then None
         else case as_Task call of
           None \<Rightarrow> Some ContextParent
         | Some task \<Rightarrow>
             or_else (fail_if (as_Objective call \<noteq> None \<or> as_ConstructionFacts call \<noteq> [] \<or> as_PlanningLedger call \<noteq> None \<or>
                 as_PlanningConversation call \<noteq> [] \<or> as_PlanningResponse call \<noteq> []) ContextParent)
            (or_else (fail_if (as_Role call = Execute \<and> as_Response call \<noteq> [] \<or>
                 as_Role call = Review \<and>
                   (as_Session call \<noteq> None \<and> \<not> recoverableSession (as_Session call) \<and> as_Response call = [] \<or>
                    (as_Response call = []) \<noteq> (as_Reply call = []))) ContextResponse)
             (file_scope_error call task)))))"

section \<open>Recap of a completed ledger\<close>

fun recap_lines :: "int \<Rightarrow> string \<Rightarrow> bool \<Rightarrow> string list \<Rightarrow> string" where
  \<comment> \<open>\<open>output\<close> is the text so far; \<open>first\<close> says that no file was listed\<close>
  "recap_lines maxBytes output first [] = output"
| "recap_lines maxBytes output first (f # fs) =
     (let line = ''- '' @ f @ newline in
      if int (length output) + int (length line) + 96 > maxBytes
      then output @ Itoa (int (length (f # fs))) @ '' additional written files.'' @ newline
      else recap_lines maxBytes (output @ (if first then ''Written files:'' @ newline else []) @ line) False fs)"

definition written_files :: "Entry list \<Rightarrow> string list" where
  "written_files entries = concat (map (\<lambda>e. if en_Phase e = PhaseFilesWritten then en_WrittenFiles e else []) entries)"

definition recap_header :: "int \<Rightarrow> string" where
  "recap_header taskCount = ''Tasks completed: '' @ Itoa taskCount @ ''. Independent task reviews passed.'' @ newline"

definition TaskLedgerCompletionRecap :: "Entry list \<Rightarrow> int \<Rightarrow> int \<Rightarrow> contract_error + string" where
  "TaskLedgerCompletionRecap entries taskCount maxBytes =
     (if taskCount < 1 then Inl RecapCounts
      else Inr (TrimSpace (recap_lines maxBytes (recap_header taskCount) True (uniqueFiles (written_files entries)))))"

section \<open>Controllers\<close>

definition validatePlanning :: "Controller \<Rightarrow> contract_error option" where
  "validatePlanning c =
     or_else (fail_if (ct_JobID c < 1 \<or> ct_Generation c < 1 \<or> ct_Root c = [] \<or> \<not> ct_Environment c \<or> \<not> ct_Evidence c) ControllerAuthority)
    (or_else (Configuration_Validate (ct_Configuration c))
    (or_else (fail_if (cfg_Mode (ct_Configuration c) \<noteq> Agents) ControllerMode)
     (first_err (\<lambda>route. or_else (validateRoute route) (fail_if (rt_Provider route \<notin> set (ct_Providers c)) ControllerProvider))
       [cfg_Planner (ct_Configuration c), cfg_LedgerParser (ct_Configuration c)])))"

definition validateTaskExecution :: "Controller \<Rightarrow> contract_error option" where
  "validateTaskExecution c =
     or_else (fail_if (ct_JobID c < 1 \<or> ct_Generation c < 1 \<or> ct_Root c = [] \<or> \<not> ct_Environment c \<or> \<not> ct_Evidence c) ControllerAuthority)
    (or_else (Configuration_Validate (ct_Configuration c))
    (or_else (fail_if (cfg_Mode (ct_Configuration c) \<noteq> Agents) ControllerMode)
    (or_else (first_err (\<lambda>route. fail_if (rt_Provider route \<notin> set (ct_Providers c)) ControllerProvider)
       [cfg_Executor (ct_Configuration c), cfg_Reviewer (ct_Configuration c)])
    (or_else (validateRoute (cfg_LedgerParser (ct_Configuration c)))
     (fail_if (rt_Provider (cfg_LedgerParser (ct_Configuration c)) \<notin> set (ct_Providers c)) ControllerProvider)))))"

end
