(* ===== verification/Contract_Laws.thy ===== *)
theory Contract_Laws
  imports Coding_Contracts
begin

text \<open>
  What the boundary to the agents guarantees: which paths are exact, that the assignments of the
  controller stay in the scope of their task, and the size of the recap.
\<close>

section \<open>Paths\<close>

lemma split_on_nonempty [simp]: "split_on sep s \<noteq> []"
  by (induction s) (auto split: list.splits)

lemma split_on_no_sep: "p \<in> set (split_on sep s) \<Longrightarrow> sep \<notin> set p"
  by (induction s arbitrary: p) (auto split: if_splits list.splits)

lemma join_split [simp]: "join_on sep (split_on sep s) = s"
proof (induction s)
  case (Cons c cs)
  obtain p ps where s: "split_on sep cs = p # ps"
    by (cases "split_on sep cs") auto
  with Cons show ?case by (cases ps) auto
qed simp

lemma split_on_part: "sep \<notin> set p \<Longrightarrow> split_on sep p = [p]"
  by (induction p) auto

lemma split_on_append: "sep \<notin> set p \<Longrightarrow> split_on sep (p @ sep # s) = p # split_on sep s"
  by (induction p) auto

lemma split_join:
  assumes "ps \<noteq> []" "\<forall>p\<in>set ps. sep \<notin> set p"
  shows "split_on sep (join_on sep ps) = ps"
  using assms
proof (induction ps rule: join_on.induct)
  case (3 sep p q ps)
  then show ?case by (simp add: split_on_append)
qed (auto simp: split_on_part)

definition proper_part :: "string \<Rightarrow> bool" where
  "proper_part p \<longleftrightarrow> p \<noteq> [] \<and> p \<noteq> ''.'' \<and> p \<noteq> ''..''"

lemma clean_parts_proper: "\<forall>p\<in>set ps. proper_part p \<Longrightarrow> clean_parts rooted kept ps = rev kept @ ps"
  by (induction ps arbitrary: kept) (auto simp: proper_part_def)

abbreviation cleaned :: "string list \<Rightarrow> string list \<Rightarrow> bool" where
  "cleaned S r \<equiv> \<exists>n gs. r = replicate n ''..'' @ gs \<and> (\<forall>g\<in>set gs. proper_part g) \<and> set gs \<subseteq> set S"

lemma cleaned_mono: "cleaned S r \<Longrightarrow> set S \<subseteq> set T \<Longrightarrow> cleaned T r"
  by blast

lemma clean_parts_step:
  "proper_part p \<Longrightarrow> clean_parts rooted kept (p # ps) = clean_parts rooted (p # kept) ps"
  "p = [] \<or> p = ''.'' \<Longrightarrow> clean_parts rooted kept (p # ps) = clean_parts rooted kept ps"
  "proper_part k \<Longrightarrow> clean_parts rooted (k # ks) (''..'' # ps) = clean_parts rooted ks ps"
  "clean_parts rooted (replicate n ''..'') (''..'' # ps) =
     clean_parts rooted (replicate (if rooted \<and> n = 0 then 0 else Suc n) ''..'') ps"
  by (cases n; auto simp: proper_part_def)+

lemma clean_parts_shape:
  assumes "\<forall>g\<in>set gs. proper_part g"
  shows "cleaned (gs @ ps) (clean_parts rooted (rev gs @ replicate n ''..'') ps)"
  using assms
proof (induction ps arbitrary: gs n)
  case Nil
  then show ?case by (intro exI [of _ n] exI [of _ gs]) simp
next
  case (Cons p ps)
  consider "proper_part p" | "p = [] \<or> p = ''.''" | "p = ''..''" "gs = []" | hs h where "p = ''..''" "gs = hs @ [h]"
    unfolding proper_part_def by (metis append_butlast_last_id)
  then show ?case
  proof cases
    case 1
    then show ?thesis
      using Cons.IH [of "gs @ [p]" n] Cons.prems by (simp add: clean_parts_step(1) del: clean_parts.simps)
  next
    case 2
    show ?thesis
      unfolding clean_parts_step(2) [OF 2]
      by (rule cleaned_mono [OF Cons.IH [OF Cons.prems, of n]]) auto
  next
    case 3
    show ?thesis
      unfolding 3 rev.simps append_Nil clean_parts_step(4)
      by (rule cleaned_mono [OF Cons.IH [of "[]", unfolded rev.simps append_Nil]]) auto
  next
    case (4 hs h)
    then have "proper_part h" "\<forall>g\<in>set hs. proper_part g"
      using Cons.prems by auto
    then show ?thesis
      unfolding 4 rev_append rev.simps append_Nil append_Cons clean_parts_step(3) [OF \<open>proper_part h\<close>]
      by (intro cleaned_mono [OF Cons.IH]) auto
  qed
qed

lemma Clean_proper: "\<not> IsAbs v \<Longrightarrow> v \<noteq> [] \<Longrightarrow> \<forall>p\<in>set (split_on CHR ''/'' v). proper_part p \<Longrightarrow> Clean v = v"
  by (simp add: Clean_def clean_parts_proper)

lemma join_dots:
  "join_on CHR ''/'' (replicate (Suc n) ''..'' @ gs) = ''..'' \<or>
   HasPrefix (join_on CHR ''/'' (replicate (Suc n) ''..'' @ gs)) ''../''"
  by (cases "replicate n ''..'' @ gs") (auto simp: HasPrefix_def)

lemma Clean_fixed:
  assumes "Clean v = v" "\<not> IsAbs v" "v \<noteq> ''.''" "v \<noteq> ''..''" "\<not> HasPrefix v ''../''"
  shows "\<forall>p\<in>set (split_on CHR ''/'' v). proper_part p"
proof -
  obtain n gs where g: "clean_parts (IsAbs v) [] (split_on CHR ''/'' v) = replicate n ''..'' @ gs"
      "\<forall>g\<in>set gs. proper_part g" "set gs \<subseteq> set (split_on CHR ''/'' v)"
    using clean_parts_shape [of "[]" "IsAbs v" 0 "split_on CHR ''/'' v"] by auto
  then have v: "v = join_on CHR ''/'' (replicate n ''..'' @ gs)"
    using assms by (auto simp: Clean_def Let_def split: if_splits)
  then have "n = 0"
    using assms(4,5) join_dots [of "n - 1" gs] by (cases n) auto
  moreover have "gs \<noteq> []"
    using v \<open>n = 0\<close> assms(1) by (auto simp: Clean_def)
  moreover have "\<forall>g\<in>set gs. CHR ''/'' \<notin> set g"
    using g(3) split_on_no_sep by blast
  ultimately show ?thesis
    using v g(2) split_join [of gs "CHR ''/''"] by simp
qed

lemma HasPrefixD: "HasPrefix s p \<Longrightarrow> \<exists>r. s = p @ r"
  unfolding HasPrefix_def by (metis append_take_drop_id)

lemma proper_split_first:
  assumes "\<forall>p\<in>set (split_on CHR ''/'' v). proper_part p"
  shows "v \<noteq> []" "v \<noteq> ''.''" "v \<noteq> ''..''" "\<not> IsAbs v" "\<not> HasPrefix v ''../''"
proof -
  have not_self: "v \<noteq> w" if "split_on CHR ''/'' w = [w]" "\<not> proper_part w" for w
    using assms that by force
  show "v \<noteq> []" "v \<noteq> ''.''" "v \<noteq> ''..''"
    by (rule not_self; simp add: proper_part_def)+
  show "\<not> IsAbs v"
  proof
    assume "IsAbs v"
    then obtain r where "v = CHR ''/'' # r" by (auto simp: IsAbs_def split: list.splits)
    with assms show False by (simp add: proper_part_def)
  qed
  show "\<not> HasPrefix v ''../''"
  proof
    assume "HasPrefix v ''../''"
    then obtain r where "v = ''../'' @ r" by (blast dest: HasPrefixD)
    with assms show False by (simp add: proper_part_def)
  qed
qed

text \<open>C28. The paths that the boundary accepts are exactly the relative paths whose components are all
  proper: none is empty, a dot, a parent step or one of the excluded names, and no byte is a backslash, a
  zero byte or a line break. So no accepted path escapes the root or names version control, credentials or
  generated directories at any depth.\<close>

theorem ValidatePath_exact:
  "ValidatePath v = None \<longleftrightarrow>
     (\<forall>p\<in>set (split_on CHR ''/'' v). p \<notin> {[], ''.'', ''..'', ''.git'', ''.codex'', ''.env'', ''node_modules'', ''.agent-cache'', ''bin''} \<and>
        \<not> HasPrefix p ''.env.'') \<and>
     set v \<inter> {CHR 0x5C, CHR 0x00, CHR 0x0D, CHR 0x0A} = {}"
proof -
  have bad: "ContainsAny v [CHR 0x5C, CHR 0x00, CHR 0x0D, CHR 0x0A] \<longleftrightarrow> set v \<inter> {CHR 0x5C, CHR 0x00, CHR 0x0D, CHR 0x0A} \<noteq> {}"
    by (auto simp: ContainsAny_def)
  have exact: "v \<noteq> [] \<and> v \<noteq> ''.'' \<and> \<not> IsAbs v \<and> Clean v = v \<and> v \<noteq> ''..'' \<and> \<not> HasPrefix v ''../'' \<longleftrightarrow>
      (\<forall>p\<in>set (split_on CHR ''/'' v). proper_part p)"
    using Clean_fixed [of v] Clean_proper [of v] proper_split_first [of v] by blast
  have "ValidatePath v = None \<longleftrightarrow>
      (v \<noteq> [] \<and> v \<noteq> ''.'' \<and> \<not> IsAbs v \<and> Clean v = v \<and> v \<noteq> ''..'' \<and> \<not> HasPrefix v ''../'') \<and>
      \<not> ContainsAny v [CHR 0x5C, CHR 0x00, CHR 0x0D, CHR 0x0A] \<and> (\<forall>p\<in>set (split_on CHR ''/'' v). \<not> excluded_part p)"
    by (auto simp: ValidatePath_def)
  then show ?thesis
    unfolding exact bad by (auto simp: proper_part_def excluded_part_def)
qed

text \<open>An accepted path and two refused ones.\<close>

theorem ValidatePath_exact_witness:
  "ValidatePath ''internal/app.go'' = None \<and> ValidatePath ''a/../b'' \<noteq> None \<and> ValidatePath ''x/.git/config'' \<noteq> None"
  unfolding ValidatePath_exact by (simp add: HasPrefix_def)

section \<open>The scope of an assignment\<close>

lemma uniqueLoop_set: "set (uniqueLoop seen acc fs) = set acc \<union> (set fs - set seen)"
  by (induction seen acc fs rule: uniqueLoop.induct) auto

lemma uniqueLoop_distinct: "distinct acc \<Longrightarrow> set acc = set seen \<Longrightarrow> distinct (uniqueLoop seen acc fs)"
  by (induction seen acc fs rule: uniqueLoop.induct) auto

lemma uniqueFiles_set [simp]: "set (uniqueFiles fs) = set fs"
  by (simp add: uniqueFiles_def uniqueLoop_set)

lemma uniqueFiles_distinct [simp]: "distinct (uniqueFiles fs)"
  by (simp add: uniqueFiles_def uniqueLoop_distinct)

lemma uniqueFiles_length: "length (uniqueFiles fs) = card (set fs)"
  using distinct_card [of "uniqueFiles fs"] by simp

lemma uniqueFiles_sorted [simp]: "sorted (uniqueFiles fs)"
  by (simp add: uniqueFiles_def)

lemma uniqueFiles_eq: "set fs = set gs \<Longrightarrow> uniqueFiles fs = uniqueFiles gs"
  using sorted_distinct_set_unique [of "uniqueFiles fs" "uniqueFiles gs"] by simp

lemma contains_iff [simp]: "contains xs x \<longleftrightarrow> x \<in> set xs"
  by (auto simp: contains_def simp del: not_None_eq)

definition scope_files :: "Role \<Rightarrow> Task \<Rightarrow> string set" where
  "scope_files role t =
     set (tk_ReadFiles t) \<union> set (tk_WriteFiles t) \<union> (if role = Execute then set (tk_DeleteFiles t) else {})"

lemma file_scope_error_None:
  "file_scope_error call t = None \<longleftrightarrow>
     length (as_ReadFiles call) = card (scope_files (as_Role call) t) \<and> set (as_ReadFiles call) \<subseteq> scope_files (as_Role call) t \<and>
     (if as_Role call = Execute
      then length (as_DeleteFiles call) = length (tk_DeleteFiles t) \<and> set (as_DeleteFiles call) \<subseteq> set (tk_DeleteFiles t)
      else as_WriteFiles call = [] \<and> as_DeleteFiles call = [])"
  by (auto simp: file_scope_error_def scope_files_def Let_def Un_assoc uniqueFiles_length)

lemma assignment_fields [simp]:
  "as_Role (assignment c role (Some t) route) = role"
  "as_Task (assignment c role (Some t) route) = Some t"
  "as_ReadFiles (assignment c role (Some t) route) =
     (if role = Execute then uniqueFiles (tk_ReadFiles t @ tk_WriteFiles t @ tk_DeleteFiles t) else uniqueFiles (tk_ReadFiles t @ tk_WriteFiles t))"
  "as_WriteFiles (assignment c role (Some t) route) = (if role = Execute then tk_WriteFiles t else [])"
  "as_DeleteFiles (assignment c role (Some t) route) = (if role = Execute then tk_DeleteFiles t else [])"
  "as_ExecutionReport (assignment c role (Some t) route) = None" "as_Objective (assignment c role (Some t) route) = None"
  "as_ConstructionFacts (assignment c role (Some t) route) = []" "as_PlanningLedger (assignment c role (Some t) route) = None"
  "as_PlanningConversation (assignment c role (Some t) route) = []" "as_PlanningResponse (assignment c role (Some t) route) = []"
  "as_Continuation (assignment c role (Some t) route) = None" "as_CompletedTaskIDs (assignment c role (Some t) route) = []"
  "as_NewerOwnerDirection (assignment c role (Some t) route) = None" "as_Response (assignment c role (Some t) route) = []"
  "as_Reply (assignment c role (Some t) route) = []" "as_Session (assignment c role (Some t) route) = None"
  "as_Route (assignment c role (Some t) route) = route" "as_Root (assignment c role (Some t) route) = ct_Root c"
  by (auto simp: assignment_def Assignment_zero_def Let_def intro!: uniqueFiles_eq)

lemma assignment_file_scope:
  "as_Role call = role \<Longrightarrow> as_ReadFiles call = as_ReadFiles (assignment c role (Some t) route) \<Longrightarrow>
   as_WriteFiles call = as_WriteFiles (assignment c role (Some t) route) \<Longrightarrow>
   as_DeleteFiles call = as_DeleteFiles (assignment c role (Some t) route) \<Longrightarrow> file_scope_error call t = None"
  by (simp add: file_scope_error_None scope_files_def uniqueFiles_length Un_assoc)


definition sample_work :: Task where
  "sample_work =
     \<lparr>tk_Payload = [], tk_Objective = [], tk_OwnerContext = [], tk_Constraints = [], tk_FileResponsibilities = [],
      tk_Acceptance = [], tk_ID = ''task-1'', tk_Goal = ''Add a flag'', tk_ReadFiles = [''go.mod'', ''main.go''],
      tk_WriteFiles = [''main.go''], tk_DeleteFiles = [''old.go'']\<rparr>"

definition sample_route :: Route where
  "sample_route = \<lparr>rt_Provider = ''codex'', rt_Model = ''m'', rt_Effort = ''high'', rt_ServiceTier = ''fast''\<rparr>"

definition sample_controller :: Controller where
  "sample_controller =
     \<lparr>ct_JobID = 7, ct_Generation = 1, ct_Root = ''/work'',
      ct_Configuration = \<lparr>cfg_Mode = Agents, cfg_Planner = sample_route, cfg_LedgerParser = sample_route,
        cfg_Executor = sample_route, cfg_Reviewer = sample_route\<rparr>,
      ct_Providers = [''codex''], ct_Environment = True, ct_Evidence = True, ct_CompletedTaskIDs = []\<rparr>"



section \<open>The size of the recap\<close>

lemma decimal_length: "n < 10 ^ k \<Longrightarrow> 0 < k \<Longrightarrow> length (decimal n) \<le> k"
proof (induction k arbitrary: n)
  case (Suc k)
  show ?case
  proof (cases "n < 10")
    case False
    then have "0 < k" using Suc.prems by (cases k) auto
    moreover have "n div 10 < 10 ^ k" using Suc.prems by (simp add: less_mult_imp_div_less)
    ultimately have "length (decimal (n div 10)) \<le> k" by (rule Suc.IH [rotated])
    with False show ?thesis by (simp add: decimal.simps [of n])
  qed (simp add: decimal.simps [of n])
qed simp

lemma Itoa_length:
  assumes "0 \<le> i" "i < 2 ^ 63"
  shows "length (Itoa i) \<le> 19"
proof -
  have "(2::int) ^ 63 < 10 ^ 19" by simp
  then have "nat i < 10 ^ 19" using assms by (simp add: nat_less_iff)
  then show ?thesis using assms(1) decimal_length [of "nat i" 19] by (simp add: Itoa_def)
qed

lemma recap_lines_bound:
  assumes "int (length out) + 46 \<le> maxBytes" "int (length files) < 2 ^ 63"
  shows "int (length (recap_lines maxBytes out first files)) \<le> maxBytes"
  using assms
proof (induction maxBytes out first files rule: recap_lines.induct)
  case (2 maxBytes out first f fs)
  have "length (Itoa (int (length (f # fs)))) \<le> 19"
    using "2.prems"(2) by (intro Itoa_length) auto
  with 2 show ?case
    by (auto simp: Let_def)
qed auto

text \<open>C31. The recap of a completed ledger fits its limit, whatever the number and the length of the written
  files: with a limit of at least 120 bytes the text never exceeds it.\<close>

theorem recap_fits:
  assumes "TaskLedgerCompletionRecap entries taskCount maxBytes = Inr text" and "120 \<le> maxBytes"
    and "taskCount < 2 ^ 63" and "int (length (written_files entries)) < 2 ^ 63"
  shows "int (length text) \<le> maxBytes"
proof -
  let ?files = "uniqueFiles (written_files entries)"
  let ?out = "recap_lines maxBytes (recap_header taskCount) True ?files"
  have r: "\<not> taskCount < 1" "text = TrimSpace ?out"
    using assms(1) by (auto simp: TaskLedgerCompletionRecap_def split: if_splits)
  have "length (recap_header taskCount) \<le> 71"
    using r assms(3) Itoa_length [of taskCount] by (simp add: recap_header_def)
  moreover have "length ?files \<le> length (written_files entries)"
    using card_length [of "written_files entries"] distinct_card [of ?files] by simp
  ultimately have "int (length ?out) \<le> maxBytes"
    using assms(2,4) by (intro recap_lines_bound) auto
  then show ?thesis
    using r TrimSpace_not_longer [of ?out] by simp
qed

theorem recap_fits_witness:
  "\<exists>text. TaskLedgerCompletionRecap [Entry_zero\<lparr>en_Phase := PhaseFilesWritten, en_WrittenFiles := [''b.go'', ''a.go'', ''b.go'']\<rparr>] 2 200 = Inr text \<and>
     text = ''Tasks completed: 2. Independent task reviews passed.'' @ newline @ ''Written files:'' @ newline @ ''- a.go'' @ newline @ ''- b.go'' \<and>
     int (length text) \<le> 200"
proof -
  let ?es = "[Entry_zero\<lparr>en_Phase := PhaseFilesWritten, en_WrittenFiles := [''b.go'', ''a.go'', ''b.go'']\<rparr>]"
  let ?text = "''Tasks completed: 2. Independent task reviews passed.'' @ newline @ ''Written files:'' @ newline @ ''- a.go'' @ newline @ ''- b.go''"
  have t: "TaskLedgerCompletionRecap ?es 2 200 = Inr ?text"
    by code_simp
  have "int (length (written_files ?es)) < 2 ^ 63"
    by code_simp
  then have "int (length ?text) \<le> 200"
    by (intro recap_fits [OF t]) simp_all
  with t show ?thesis by blast
qed

end
