(* ===== verification/Ordering_Laws.thy ===== *)
theory Ordering_Laws
  imports Task_Ordering Contract_Laws Samples
begin

text \<open>
  What the order of a model's answer can and cannot do: it permutes the tasks it was asked about and
  changes nothing else, a recorded answer is used again, and the ranks of additions follow all others.
\<close>

section \<open>One answer\<close>

lemma order_input_error_None:
  "order_input_error seen ts = None \<longleftrightarrow>
     (\<forall>t\<in>set ts. \<not> blank (task_ID t)) \<and> distinct (map task_ID ts) \<and> task_ID ` set ts \<inter> set seen = {}"
  by (induction seen ts rule: order_input_error.induct) auto

lemma order_sequence_error_None:
  "order_sequence_error known seen is = None \<longleftrightarrow> set is \<subseteq> set known \<and> distinct is \<and> set is \<inter> set seen = {}"
  by (induction known seen "is" rule: order_sequence_error.induct) auto

lemma OrderUnorderedTasks_Inr:
  assumes "OrderUnorderedTasks cancelled ask ts = Inr ts'" "2 \<le> length ts"
  obtains send raw seq where "ask = Some send" "send (ordering_prompt ts) = Inr raw" "decode_sequence raw = Inr seq"
    "\<not> cancelled 0" "\<not> cancelled 1" "order_input_error [] ts = None" "length seq = length ts" "distinct seq"
    "set seq = task_ID ` set ts" "ts' = map (set_ranks (map_of (sequence_ranks seq))) ts"
proof -
  obtain send raw seq where s: "ask = Some send" "send (ordering_prompt ts) = Inr raw" "decode_sequence raw = Inr seq"
      "\<not> cancelled 0" "\<not> cancelled 1" "order_input_error [] ts = None" "length seq = length ts"
      "order_sequence_error (map task_ID ts) [] seq = None" "ts' = map (set_ranks (map_of (sequence_ranks seq))) ts"
    using assms by (auto simp: OrderUnorderedTasks_def split: if_splits option.splits)
  have d: "distinct seq" "set seq \<subseteq> set (map task_ID ts)" "distinct (map task_ID ts)"
    using s(6,8) by (auto simp: order_sequence_error_None order_input_error_None)
  then have "card (set seq) = card (set (map task_ID ts))"
    using s(7) by (simp only: distinct_card length_map)
  then have "set seq = set (map task_ID ts)"
    using d(2) by (intro card_subset_eq) auto
  then show ?thesis
    using that s d by auto
qed

lemma OrderUnorderedTasks_seq:
  assumes "OrderUnorderedTasks cancelled ask ts = Inr ts'" "2 \<le> length ts"
  shows "\<exists>seq. length seq = length ts \<and> distinct seq \<and> set seq = task_ID ` set ts \<and>
    ts' = map (set_ranks (map_of (sequence_ranks seq))) ts"
  by (rule OrderUnorderedTasks_Inr [OF assms]) blast

lemma OrderUnorderedTasks_answer:
  assumes "\<not> cancelled 0" "\<not> cancelled 1" "order_input_error [] ts = None" "2 \<le> length ts"
    "send (ordering_prompt ts) = Inr raw" "decode_sequence raw = Inr seq" "length seq = length ts" "distinct seq"
    "set seq = task_ID ` set ts"
  shows "OrderUnorderedTasks cancelled (Some send) ts = Inr (map (set_ranks (map_of (sequence_ranks seq))) ts)"
  using assms by (simp add: OrderUnorderedTasks_def order_sequence_error_None)

lemma sequence_rank_nth: "distinct seq \<Longrightarrow> k < length seq \<Longrightarrow> map_of (sequence_ranks seq) (seq ! k) = Some (int (Suc k))"
  unfolding sequence_ranks_def
  by (rule map_of_is_SomeI) (auto simp: set_zip nth_append simp del: upt_Suc intro!: exI [of _ k])

lemma sequence_rank_Some: "distinct seq \<Longrightarrow> i \<in> set seq \<Longrightarrow> \<exists>k<length seq. i = seq ! k \<and> map_of (sequence_ranks seq) i = Some (int (Suc k))"
  by (auto simp: in_set_conv_nth sequence_rank_nth)

lemma sort_by_sequence:
  assumes "distinct seq" "distinct (map task_ID ts)" "set seq = task_ID ` set ts" "length seq = length ts"
  shows "map task_ID (sort_key task_Rank (map (set_ranks (map_of (sequence_ranks seq))) ts)) = seq"
proof -
  let ?ts = "map (set_ranks (map_of (sequence_ranks seq))) ts"
  let ?r = "\<lambda>i. the (map_of (sequence_ranks seq) i)"
  let ?s = "sort_key task_Rank ?ts"
  have r: "?r (seq ! k) = int (Suc k)" if "k < length seq" for k
    using sequence_rank_nth [OF assms(1) that] by simp
  have inj: "inj_on ?r (set seq)"
    using r by (auto simp: inj_on_def in_set_conv_nth)
  have "task_Rank u = ?r (task_ID u)" if "u \<in> set ?ts" for u
    using that sequence_rank_Some [OF assms(1)] assms(3) by fastforce
  then have "map ?r (map task_ID ?s) = map task_Rank ?s"
    by simp
  then have sorted: "sorted (map ?r (map task_ID ?s))"
    by (simp only: sorted_sort_key)
  have ids: "mset (map task_ID ?s) = mset (map task_ID ts)"
    by (simp add: multiset.map_comp comp_def)
  then have "distinct (map task_ID ?s)" "set (map task_ID ?s) = set seq"
    using assms(2,3) mset_eq_imp_distinct_iff mset_eq_setD by (fastforce, metis list.set_map)
  moreover have "sorted (map ?r seq)"
    using r by (auto simp: sorted_iff_nth_mono)
  ultimately show ?thesis
    using inj sorted assms(1)
    by (intro map_sorted_distinct_set_unique [of ?r "map task_ID ?s" seq]) (simp_all only: distinct_map Un_absorb)
qed

lemma sequence_ranks_range:
  assumes "distinct seq"
  shows "(\<lambda>i. the (map_of (sequence_ranks seq) i)) ` set seq = {1..int (length seq)}"
proof -
  have "(\<lambda>i. the (map_of (sequence_ranks seq) i)) ` set seq = (\<lambda>k. int (Suc k)) ` {..<length seq}"
    unfolding set_conv_nth using sequence_rank_nth [OF assms] by (auto simp: image_def)
  also have "\<dots> = int ` Suc ` {..<length seq}"
    by (simp only: image_image)
  also have "\<dots> = int ` {1..length seq}"
    by (simp only: lessThan_atLeast0 image_Suc_atLeastLessThan atLeastLessThanSuc_atLeastAtMost One_nat_def)
  also have "\<dots> = {1..int (length seq)}"
    by (simp add: image_int_atLeastAtMost)
  finally show ?thesis .
qed

lemma ranks_after_order:
  assumes "distinct seq" "set seq = task_ID ` set ts"
  shows "set (map task_Rank (map (set_ranks (map_of (sequence_ranks seq))) ts)) = {1..int (length seq)}"
proof -
  have "task_Rank (set_ranks (map_of (sequence_ranks seq)) t) = the (map_of (sequence_ranks seq) (task_ID t))" if "t \<in> set ts" for t
    using that sequence_rank_Some [OF assms(1), of "task_ID t"] assms(2) by auto
  then have "set (map task_Rank (map (set_ranks (map_of (sequence_ranks seq))) ts)) =
      (\<lambda>i. the (map_of (sequence_ranks seq) i)) ` (task_ID ` set ts)"
    by (simp add: image_image del: set_ranks_fields)
  then show ?thesis
    using sequence_ranks_range [OF assms(1)] assms(2) by simp
qed

text \<open>C32. An order that is accepted is a permutation of the tasks that were asked about. Executing the tasks
  by their new ranks follows the answer exactly, the ranks are consecutive from one, and apart from the
  ranks nothing of any task and no position in the list changes.\<close>

theorem order_is_permutation:
  assumes "OrderUnorderedTasks cancelled (Some send) ts = Inr ts'" and "2 \<le> length ts"
  shows "\<exists>raw seq. send (ordering_prompt ts) = Inr raw \<and> decode_sequence raw = Inr seq \<and>
    distinct seq \<and> set seq = set (map task_ID ts) \<and>
    map task_ID (sort_key task_Rank ts') = seq \<and> set (map task_Rank ts') = {1..int (length ts)} \<and>
    map forget_rank ts' = map forget_rank ts"
proof -
  obtain raw seq where s: "send (ordering_prompt ts) = Inr raw" "decode_sequence raw = Inr seq"
      "order_input_error [] ts = None" "length seq = length ts" "distinct seq" "set seq = task_ID ` set ts"
      "ts' = map (set_ranks (map_of (sequence_ranks seq))) ts"
    using OrderUnorderedTasks_Inr [OF assms] by (metis option.inject)
  have "distinct (map task_ID ts)"
    using s(3) by (simp add: order_input_error_None)
  then have "map task_ID (sort_key task_Rank ts') = seq"
    unfolding s(7) using s(4,5,6) by (intro sort_by_sequence)
  moreover have "set (map task_Rank ts') = {1..int (length ts)}"
    unfolding s(7) using ranks_after_order [OF s(5,6)] s(4) by simp
  moreover have "map forget_rank ts' = map forget_rank ts"
    unfolding s(7) by simp
  moreover have "set seq = set (map task_ID ts)"
    using s(6) by simp
  ultimately show ?thesis
    using s(1,2,5) by blast
qed

definition sample_order :: "string \<Rightarrow> order_error + string" where
  "sample_order prompt = Inr (CHR ''['' # CHR 0x22 # ''b'' @ CHR 0x22 # '', '' @ CHR 0x22 # ''a'' @ CHR 0x22 # '']'')"

definition sample_ordered :: "LedgerTask list" where
  "sample_ordered = projr (OrderUnorderedTasks (\<lambda>_. False) (Some sample_order) [sample_a, sample_b])"

theorem order_is_permutation_witness:
  "OrderUnorderedTasks (\<lambda>_. False) (Some sample_order) [sample_a, sample_b] = Inr sample_ordered \<and>
     map task_Rank sample_ordered = [2, 1] \<and> map task_ID (sort_key task_Rank sample_ordered) = [''b'', ''a'']"
proof -
  have r: "OrderUnorderedTasks (\<lambda>_. False) (Some sample_order) [sample_a, sample_b] = Inr sample_ordered"
    "map task_Rank sample_ordered = [2, 1]"
    by code_simp+
  have "sample_order (ordering_prompt [sample_a, sample_b]) = sample_order []"
    by (simp add: sample_order_def)
  then have answer: "decode_sequence raw = Inr [''b'', ''a'']"
    if "sample_order (ordering_prompt [sample_a, sample_b]) = Inr raw" for raw
  proof -
    have "bind_res (sample_order []) decode_sequence = Inr [''b'', ''a'']"
      by code_simp
    with that \<open>_ = sample_order []\<close> show ?thesis by simp
  qed
  from order_is_permutation [OF r(1)] have "map task_ID (sort_key task_Rank sample_ordered) = [''b'', ''a'']"
    using answer by auto
  with r show ?thesis by blast
qed

section \<open>Recorded answers\<close>

lemma find_receipt_snoc:
  "find_receipt key (entries @ [entry]) =
     (case en_TaskOrdering entry of Some t \<Rightarrow> if toe_Key t = key then Some t else find_receipt key entries | None \<Rightarrow> find_receipt key entries)"
  by (simp add: find_receipt_def split: option.split)

lemma eligible_tasks_mset:
  assumes "mset us = mset ts" "distinct (map task_ID (eligible_tasks ts))"
  shows "eligible_tasks us = eligible_tasks ts"
proof -
  have m: "mset (eligible_tasks us) = mset (eligible_tasks ts)"
    using assms(1) by (simp add: eligible_tasks_def)
  then have "set (eligible_tasks us) = set (eligible_tasks ts)"
    by (rule mset_eq_setD)
  moreover have "distinct (map task_ID (eligible_tasks us))"
    using assms(2) m mset_eq_imp_distinct_iff [of "map task_ID (eligible_tasks us)" "map task_ID (eligible_tasks ts)"] by simp
  moreover have "sorted (map task_ID (eligible_tasks us))" "sorted (map task_ID (eligible_tasks ts))"
    by (simp_all add: eligible_tasks_def)
  ultimately show ?thesis
    using assms(2) by (intro map_sorted_distinct_set_unique [of task_ID]) (simp_all add: distinct_map)
qed

lemma assign_ranks_mset: "mset us = mset ts \<Longrightarrow> mset (assign_ranks ordered us) = mset (assign_ranks ordered ts)"
  by (simp add: assign_ranks_def)

abbreviation replays :: "(nat \<Rightarrow> bool) \<Rightarrow> string \<Rightarrow> LedgerTask list \<Rightarrow> LedgerTask list \<Rightarrow> bool" where
  "replays cancelled response ts ordered \<equiv>
     OrderUnorderedTasks cancelled (Some (\<lambda>_. Inr response)) ts = Inr ordered"

lemma order_replays:
  assumes "OrderUnorderedTasks cancelled (Some send) ts = Inr ordered" "2 \<le> length ts" "\<not> later 0" "\<not> later 1"
  obtains raw where "send (ordering_prompt ts) = Inr raw" "replays later raw ts ordered"
proof -
  obtain raw seq where s: "send (ordering_prompt ts) = Inr raw" "decode_sequence raw = Inr seq"
      "order_input_error [] ts = None" "length seq = length ts" "distinct seq" "set seq = task_ID ` set ts"
      "ordered = map (set_ranks (map_of (sequence_ranks seq))) ts"
    using OrderUnorderedTasks_Inr [OF assms(1,2)] by (metis option.inject)
  have "replays later raw ts ordered"
    unfolding s(7) using s assms by (intro OrderUnorderedTasks_answer) simp_all
  with s(1) show ?thesis by (rule that)
qed

lemma ordering_receipt:
  assumes "orderPlanningTasks c cancelled digest provider unreadable unsaved turn entries ts = (Inr ts1, saved)"
    and "2 \<le> length (eligible_tasks ts)" and later: "\<not> later 0" "\<not> later 1"
  obtains receipt ordered where
    "find_receipt (ordering_key digest (eligible_tasks ts)) (entries @ saved) = Some receipt"
    "replays later (toe_Response receipt) (eligible_tasks ts) ordered" "ts1 = assign_ranks ordered ts"
    "distinct (map task_ID (eligible_tasks ts))"
proof (cases "find_receipt (ordering_key digest (eligible_tasks ts)) entries")
  case (Some receipt)
  let ?e = "eligible_tasks ts"
  obtain ordered where o: "OrderUnorderedTasks cancelled (Some (\<lambda>_. Inr (toe_Response receipt))) ?e = Inr ordered"
      "ts1 = assign_ranks ordered ts" "saved = []"
    using assms(1,2) Some by (auto simp: orderPlanningTasks_def Let_def split: if_splits)
  have "distinct (map task_ID ?e)"
    using OrderUnorderedTasks_Inr [OF o(1) assms(2)] by (metis order_input_error_None)
  moreover have "replays later (toe_Response receipt) ?e ordered"
    using order_replays [OF o(1) assms(2) later] by auto
  ultimately show ?thesis
    using that Some o by simp
next
  case None
  let ?e = "eligible_tasks ts"
  let ?key = "ordering_key digest ?e"
  obtain p ordered where o: "OrderUnorderedTasks cancelled (Some (ordering_send p)) ?e = Inr ordered" "ts1 = assign_ranks ordered ts"
      "saved = [ordering_entry c (new_receipt p (cfg_LedgerParser (ct_Configuration c)) turn ?key ?e
          (\<not> cancelled 0 \<and> order_input_error [] ?e = None) False) False]"
    using assms(1,2) None by (auto simp: orderPlanningTasks_def Let_def split: if_splits option.splits sum.splits)
  have asked: "\<not> cancelled 0 \<and> order_input_error [] ?e = None"
    using OrderUnorderedTasks_Inr [OF o(1) assms(2)] by metis
  obtain raw where raw: "ordering_send p (ordering_prompt ?e) = Inr raw" "replays later raw ?e ordered"
    using order_replays [OF o(1) assms(2) later] by auto
  let ?r = "new_receipt p (cfg_LedgerParser (ct_Configuration c)) turn ?key ?e True False"
  have "find_receipt ?key (entries @ saved) = Some ?r"
    using asked by (simp add: o(3) find_receipt_snoc ordering_entry_def new_receipt_def)
  moreover have "toe_Response ?r = raw"
    using raw(1) by (simp add: new_receipt_def ordering_send_def split: if_splits)
  ultimately show ?thesis
    using that [of ?r ordered] raw(2) o(2) asked by (simp add: order_input_error_None)
qed

text \<open>C33. A resolved order is used again: once the ordering of some tasks succeeded, running it again on the
  journal it left, with the same tasks in any order, whatever provider is there or none, returns the same
  ranks, asks nobody and records nothing new. So a restart or a repeated turn cannot change an order that
  was resolved.\<close>

theorem resolved_order_replayed:
  assumes "orderPlanningTasks c cancelled digest provider unreadable unsaved turn entries ts = (Inr ts1, saved)"
    and "mset us = mset ts" and "\<not> later 0" and "\<not> later 1"
  shows "\<exists>us1. orderPlanningTasks c2 later digest provider2 False unsaved2 turn2 (entries @ saved) us = (Inr us1, []) \<and>
    mset us1 = mset ts1"
proof (cases "2 \<le> length (eligible_tasks ts)")
  case True
  obtain receipt ordered where r:
      "find_receipt (ordering_key digest (eligible_tasks ts)) (entries @ saved) = Some receipt"
      "replays later (toe_Response receipt) (eligible_tasks ts) ordered" "ts1 = assign_ranks ordered ts"
      "distinct (map task_ID (eligible_tasks ts))"
    using ordering_receipt [OF assms(1) True assms(3,4)] by blast
  have "eligible_tasks us = eligible_tasks ts"
    using assms(2) r(4) by (rule eligible_tasks_mset)
  then have "orderPlanningTasks c2 later digest provider2 False unsaved2 turn2 (entries @ saved) us = (Inr (assign_ranks ordered us), [])"
    using True r(1,2) by (simp add: orderPlanningTasks_def)
  then show ?thesis
    using r(3) assign_ranks_mset [OF assms(2)] by blast
next
  case False
  have "mset (eligible_tasks us) = mset (eligible_tasks ts)"
    using assms(2) by (simp add: eligible_tasks_def)
  then have "length (eligible_tasks us) = length (eligible_tasks ts)"
    by (rule mset_eq_length)
  then show ?thesis
    using False assms(1,2) by (simp add: orderPlanningTasks_def)
qed

definition sample_provider :: ordering_provider where
  "sample_provider prompt = \<lparr>oa_Content = projr (sample_order prompt), oa_ElapsedMS = 12, oa_Failed = False\<rparr>"

definition sample_turn :: PlanningTurn where
  "sample_turn = \<lparr>pt_ItemID = [], pt_OperationID = ''op-1'', pt_OwnerTurnID = ''turn-1'', pt_Text = ''go'',
     pt_ObservedRevision = 1, pt_NewerOwnerDirection = None\<rparr>"

definition sample_first_run :: "(order_error + LedgerTask list) \<times> Entry list" where
  "sample_first_run = orderPlanningTasks sample_controller (\<lambda>_. False) id (Some sample_provider) False False sample_turn [] [sample_a, sample_b]"

theorem resolved_order_replayed_witness:
  "\<exists>us1. orderPlanningTasks sample_controller (\<lambda>_. False) id None False False sample_turn (snd sample_first_run) [sample_b, sample_a] = (Inr us1, []) \<and>
     mset us1 = mset sample_ordered"
proof -
  have "sample_first_run = (Inr sample_ordered, snd sample_first_run)"
    by code_simp
  then have first: "orderPlanningTasks sample_controller (\<lambda>_. False) id (Some sample_provider) False False sample_turn [] [sample_a, sample_b] =
      (Inr sample_ordered, snd sample_first_run)"
    by (simp only: sample_first_run_def [symmetric])
  show ?thesis
    using resolved_order_replayed [OF first, of "[sample_b, sample_a]" "\<lambda>_. False" sample_controller None False sample_turn]
    by (simp add: add_mset_commute)
qed

section \<open>Additions\<close>

lemma max_rank_fold: "fold (\<lambda>t maximum. if task_Rank t > maximum then task_Rank t else maximum) ts m = Max (insert m (task_Rank ` set ts))"
proof (induction ts arbitrary: m)
  case (Cons t ts)
  have "Max (insert m (insert (task_Rank t) (task_Rank ` set ts))) = Max (insert (max (task_Rank t) m) (task_Rank ` set ts))"
    by (cases "task_Rank ` set ts = {}") (auto simp: max.commute max.left_commute)
  with Cons show ?case by (simp add: max_def)
qed simp

lemma max_rank_upper: "t \<in> set ts \<Longrightarrow> task_Rank t \<le> max_rank ts" "0 \<le> max_rank ts"
  by (simp_all add: max_rank_def max_rank_fold)

lemma added_tasks_rank:
  "added_tasks (map (rank_addition ranks) ops) =
     map (\<lambda>t. on_item (item_Rank_update (\<lambda>_. case_option 0 id (ranks (task_ID t)))) t) (added_tasks ops)"
proof (induction ops)
  case (Cons op ops)
  have "op_Payload (op\<lparr>op_Item := Some \<lparr>mi_Task = Some t\<rparr>\<rparr>) = Some t" for t
    by (simp add: op_Payload_def)
  with Cons show ?case
    by (cases "op_Payload op") (auto simp: added_tasks_def rank_addition_def)
qed (simp add: added_tasks_def)

lemma map_of_keyed: "distinct (map f ts) \<Longrightarrow> t \<in> set ts \<Longrightarrow> map_of (rev (map (\<lambda>t. (f t, g t)) ts)) (f t) = Some (g t)"
  by (intro map_of_is_SomeI) (auto simp: comp_def rev_map [symmetric])

lemma ordered_ranks:
  assumes "orderPlanningTasks c cancelled digest provider unreadable unsaved turn entries ts = (Inr ts', saved)"
    and "distinct (map task_ID ts)" "\<forall>t\<in>set ts. task_active t" "2 \<le> length ts"
  shows "map task_ID ts' = map task_ID ts" "length ts' = length ts" "set (map task_Rank ts') = {1..int (length ts)}"
proof -
  let ?e = "eligible_tasks ts"
  have e: "set ?e = set ts" "length ?e = length ts" "distinct (map task_ID ?e)"
    using assms(2,3) by (simp_all add: eligible_tasks_def distinct_map distinct_sort)
  have long: "2 \<le> length ?e" using e(2) assms(4) by simp
  have never: "\<not> False" by simp
  obtain receipt ordered where "find_receipt (ordering_key digest ?e) (entries @ saved) = Some receipt" and
      r: "replays (\<lambda>_. False) (toe_Response receipt) ?e ordered" "ts' = assign_ranks ordered ts" and "distinct (map task_ID ?e)"
    by (rule ordering_receipt [where later = "\<lambda>_. False", OF assms(1) long never never])
  obtain seq where
      s: "length seq = length ?e" "distinct seq" "set seq = task_ID ` set ?e"
      "ordered = map (set_ranks (map_of (sequence_ranks seq))) ?e"
    using OrderUnorderedTasks_seq [OF r(1) long] by blast
  let ?S = "map_of (sequence_ranks seq)"
  have "set_ranks (map_of (rev (map (\<lambda>t. (task_ID t, task_Rank t)) ordered))) t = set_ranks ?S t" if mem: "t \<in> set ts" for t
  proof -
    obtain k where k: "?S (task_ID t) = Some k"
      using sequence_rank_Some [OF s(2), of "task_ID t"] s(3) e(1) mem by auto
    have "map_of (rev (map (\<lambda>t. (task_ID t, task_Rank t)) ordered)) (task_ID (set_ranks ?S t)) = Some (task_Rank (set_ranks ?S t))"
      using e mem by (intro map_of_keyed) (simp_all add: s(4) comp_def)
    with k show ?thesis by (simp add: set_ranks_def)
  qed
  then have ts': "ts' = map (set_ranks ?S) ts"
    by (simp add: r(2) assign_ranks_def)
  show "map task_ID ts' = map task_ID ts" "length ts' = length ts"
    by (simp_all add: ts')
  show "set (map task_Rank ts') = {1..int (length ts)}"
    using ranks_after_order [OF s(2), of ts] s(1,3) e by (simp only: ts' e)
qed

lemma addition_rank:
  assumes "distinct (map task_ID ts)" "t \<in> set ts" "0 \<le> M" "M + int n < 2 ^ 63" "1 \<le> task_Rank t" "task_Rank t \<le> int n" "1 < length ts"
  shows "addition_ranks M ts (task_ID t) = Some (M + task_Rank t)"
  using map_of_keyed [OF assms(1,2), of "\<lambda>t. int64 (M + task_Rank t)"] assms
  by (simp add: addition_ranks_def is_int64_def)

lemma added_rank_range:
  assumes "orderPlanningTasks c cancelled digest provider unreadable unsaved turn entries ts = (Inr ts', saved)"
    and "distinct (map task_ID ts)" "\<forall>t\<in>set ts. task_active t" "max_rank cur + int (length ts) < 2 ^ 63" "ts \<noteq> []"
  shows "(\<lambda>t. case_option 0 id (addition_ranks (max_rank cur) ts' (task_ID t))) ` set ts =
    {max_rank cur + 1..max_rank cur + int (length ts)}"
proof (cases "2 \<le> length ts")
  case True
  let ?M = "max_rank cur"
  note r = ordered_ranks [OF assms(1-3) True]
  have d: "distinct (map task_ID ts')" using r(1) assms(2) by simp
  have "addition_ranks ?M ts' (task_ID t) = Some (?M + task_Rank t)" if "t \<in> set ts'" for t
  proof -
    have "task_Rank t \<in> {1..int (length ts)}" using that by (simp only: r(3) [symmetric]) simp
    then show ?thesis
      using that assms(4) max_rank_upper(2) [of cur] True r(2) by (intro addition_rank [OF d, where n = "length ts"]) auto
  qed
  then have "(\<lambda>t. case_option 0 id (addition_ranks ?M ts' (task_ID t))) ` set ts' = (\<lambda>k. ?M + k) ` set (map task_Rank ts')"
    by (simp add: image_image)
  also have "\<dots> = {?M + 1..?M + int (length ts)}"
    unfolding r(3) image_add_atLeastAtMost by (simp add: add.commute)
  finally show ?thesis
    using arg_cong [OF r(1), of "\<lambda>is. (\<lambda>i. case_option 0 id (addition_ranks ?M ts' i)) ` set is"] by (simp add: image_image)
next
  case False
  then obtain t where t: "ts = [t]"
    using assms(5) by (cases ts; cases "tl ts") auto
  then have "ts' = ts"
    using assms(1,3) by (simp add: orderPlanningTasks_def eligible_tasks_def)
  then show ?thesis
    using t assms(4) max_rank_upper(2) [of cur] by (simp add: addition_ranks_def is_int64_def)
qed


definition sample_addition :: "LedgerTask \<Rightarrow> LedgerMutationOperation" where
  "sample_addition t =
     \<lparr>op_Kind = LedgerMutationAdd, op_TargetID = [], op_Item = Some \<lparr>mi_Task = Some t\<rparr>,
      op_ReviewState = LedgerReviewNone, op_Rank = None, op_Rationale = []\<rparr>"

definition sample_additions :: LedgerMutation where
  "sample_additions = sample_mutation 3 [sample_addition sample_a, sample_addition sample_b]"

definition sample_cur :: EngineeringLedger where
  "sample_cur = sample_ledger\<lparr>led_Tasks := [on_item (item_Rank_update (\<lambda>_. 7)) sample_c]\<rparr>"

definition sample_ranked :: "(order_error + LedgerMutation) \<times> Entry list" where
  "sample_ranked =
     orderPlanningAdditions (orderPlanningTasks sample_controller (\<lambda>_. False) id (Some sample_provider) False False sample_turn [])
       sample_cur sample_additions"


section \<open>Publishing\<close>

text \<open>C35. A turn is published once: publishing it again, with whatever ledger and controller, leaves the
  journal as the first publication left it, and the first publication only appends.\<close>

theorem publish_once:
  "PublishPlanningLedger c2 turn ledger2 (PublishPlanningLedger c turn ledger entries) = PublishPlanningLedger c turn ledger entries \<and>
   (\<exists>new. PublishPlanningLedger c turn ledger entries = entries @ new)"
proof -
  have "\<exists>entry\<in>set (PublishPlanningLedger c turn ledger entries). turn_note PhasePlanningResponse (pt_OperationID turn) entry"
    by (simp add: PublishPlanningLedger_def) (simp add: turn_note_def)
  then show ?thesis
    by (auto simp: PublishPlanningLedger_def [of c2]) (simp add: PublishPlanningLedger_def)
qed

end
