(* ===== verification/Task_State.thy ===== *)
theory Task_State
  imports Coding_Contracts
begin

text \<open>
  The state of one task as the journal determines it (\<^verbatim>\<open>task.go\<close>,
  \<^verbatim>\<open>review_state.go\<close>, \<^verbatim>\<open>clarifications.go\<close>): \<open>projectTaskState\<close> folds the entries of
  the journal into the state with which a controller starts or restarts.

  A Go map with a zero default is a total function; deleting a key restores the default.
\<close>

section \<open>Errors that are results of a task\<close>

record ExecutionInputRequired =
  ir_TaskID :: string
  ir_Role :: Role
  ir_Kind :: ExecutionResponseKind
  ir_Text :: string

record IncompleteTaskError =
  in_Reason :: string
  in_ThreadID :: string
  in_TurnID :: string

section \<open>The state\<close>

record taskState =
  st_accepted :: "string \<Rightarrow> bool"
  st_findings :: "string \<Rightarrow> Finding list"
  st_tasks :: "string \<rightharpoonup> Task"
  st_started :: "string \<Rightarrow> bool"
  st_round :: int
  st_session :: "ExecutionSession option"
  st_reviewSession :: "ExecutionSession option"
  st_resumeIncomplete :: bool
  st_continueExecution :: bool
  st_reply :: string
  st_inputRequired :: "ExecutionInputRequired option"
  st_executionReport :: "ExecutionReport option"
  st_pendingResponse :: "Result option"
  st_pendingReview :: "Result option"
  st_reviewQuestion :: string
  st_reviewReply :: string
  st_incomplete :: "IncompleteTaskError option"

definition taskState_zero :: taskState where
  "taskState_zero =
     \<lparr>st_accepted = (\<lambda>_. False), st_findings = (\<lambda>_. []), st_tasks = Map.empty, st_started = (\<lambda>_. False), st_round = 0,
      st_session = None, st_reviewSession = None, st_resumeIncomplete = False, st_continueExecution = False,
      st_reply = [], st_inputRequired = None, st_executionReport = None, st_pendingResponse = None,
      st_pendingReview = None, st_reviewQuestion = [], st_reviewReply = [], st_incomplete = None\<rparr>"

definition idle_session :: "Result \<Rightarrow> ExecutionSession" where
  "idle_session result =
     \<lparr>es_ThreadID = res_ThreadID result, es_TurnID = res_TurnID result, es_PreviousTurnID = [], es_State = ''idle''\<rparr>"

definition asks_owner :: "ExecutionResponseKind \<Rightarrow> bool" where
  "asks_owner kind \<longleftrightarrow> kind = ExecutionQuestion \<or> kind = ExecutionPermission"

definition clear_review :: "taskState \<Rightarrow> taskState" where
  "clear_review state =
     state\<lparr>st_pendingReview := None, st_reviewSession := None, st_reviewQuestion := [], st_reviewReply := []\<rparr>"

definition projectReviewEntry :: "taskState \<Rightarrow> Entry \<Rightarrow> taskState" where
  "projectReviewEntry state entry =
     (case en_Phase entry of
        PhaseTaskExecuting \<Rightarrow> clear_review state
      | PhaseCallCompleted \<Rightarrow>
          if en_Role entry = Review \<and> en_Result entry \<noteq> None then state\<lparr>st_pendingReview := en_Result entry\<rparr> else state
      | PhaseReviewResponse \<Rightarrow>
          if length (en_Notes entry) \<noteq> 1 then state
          else
            (let state = (if en_ResponseKind entry = ExecutionError then state\<lparr>st_reviewQuestion := en_Notes entry ! 0\<rparr> else state)
             in if asks_owner (en_ResponseKind entry)
                then state\<lparr>st_reviewQuestion := en_Notes entry ! 0,
                       st_inputRequired := Some \<lparr>ir_TaskID = en_TaskID entry, ir_Role = Review, ir_Kind = en_ResponseKind entry,
                         ir_Text = en_Notes entry ! 0\<rparr>\<rparr>
                else state)
      | PhaseExecutionReply \<Rightarrow>
          if en_Role entry \<noteq> Review \<or> en_NativeInput entry \<noteq> None \<or> length (en_Notes entry) \<noteq> 2 then state
          else state\<lparr>st_reviewReply := en_Notes entry ! 1, st_pendingReview := None, st_reviewSession := None,
                 st_inputRequired := None\<rparr>
      | _ \<Rightarrow> state)"

definition project_acceptance :: "taskState \<Rightarrow> Entry \<Rightarrow> taskState" where
  \<comment> \<open>the part of the loop for entries of every task\<close>
  "project_acceptance state entry =
     (case en_Phase entry of
        PhaseTaskAccepted \<Rightarrow>
          state\<lparr>st_accepted := (st_accepted state)(en_TaskID entry := True),
            st_findings := (st_findings state)(en_TaskID entry := [])\<rparr>
      | PhaseTaskReviewed \<Rightarrow>
          state\<lparr>st_accepted := (st_accepted state)(en_TaskID entry := False),
            st_findings := (st_findings state)(en_TaskID entry := en_Findings entry)\<rparr>
      | _ \<Rightarrow> state)"

definition project_round :: "taskState \<Rightarrow> Entry \<Rightarrow> taskState" where
  "project_round state entry =
     (if en_Round entry > st_round state \<and>
         (en_Phase entry = PhaseCallCompleted \<and> en_Role entry = Execute \<or> en_Phase entry = PhaseExecutionResponse \<or>
          en_Phase entry = PhaseTaskReviewed \<or> en_Phase entry = PhaseTaskAccepted)
      then state\<lparr>st_round := en_Round entry\<rparr> else state)"

definition project_response :: "Task \<Rightarrow> taskState \<Rightarrow> Entry \<Rightarrow> taskState" where
  \<comment> \<open>the case \<^verbatim>\<open>execution_response\<close>\<close>
  "project_response task state entry =
     (let state = state\<lparr>st_pendingResponse := None\<rparr> in
      if length (en_Notes entry) \<noteq> 1 then state
      else
        (let kind = en_ResponseKind entry;
             state = state\<lparr>st_reply := [], st_started := (st_started state)(tk_ID task := kind = ExecutionDone),
                       st_continueExecution := (kind = ExecutionContinue)\<rparr>;
             state = (if kind = ExecutionDone \<or> kind = ExecutionContinue
                      then state\<lparr>st_executionReport := Some \<lparr>er_CallID = en_CallID entry, er_Round = en_Round entry,
                             er_Response = en_Notes entry ! 0\<rparr>\<rparr>
                      else state)
         in if asks_owner kind
            then state\<lparr>st_round := int64 (en_Round entry - 1),
                   st_inputRequired := Some \<lparr>ir_TaskID = tk_ID task, ir_Role = RoleNone, ir_Kind = kind, ir_Text = en_Notes entry ! 0\<rparr>\<rparr>
            else state))"

definition project_phase :: "Task \<Rightarrow> taskState \<Rightarrow> Entry \<Rightarrow> taskState" where
  "project_phase task state entry =
     (case en_Phase entry of
        PhaseResponseRecovery \<Rightarrow>
          if en_Result entry \<noteq> None \<and> length (en_Notes entry) = 1
          then
            (let state = state\<lparr>st_incomplete := None, st_resumeIncomplete := True\<rparr> in
             if en_Role entry = Review
             then state\<lparr>st_pendingReview := en_Result entry, st_reviewReply := en_Notes entry ! 0\<rparr>
             else state\<lparr>st_pendingResponse := en_Result entry, st_reply := en_Notes entry ! 0\<rparr>)
          else state
      | PhaseTaskResume \<Rightarrow>
          if en_Session entry \<noteq> None \<and> length (en_Notes entry) = 2
          then
            (let state = state\<lparr>st_incomplete := None, st_resumeIncomplete := True\<rparr> in
             if en_Role entry = Review
             then state\<lparr>st_pendingReview := None, st_reviewSession := en_Session entry,
                    st_reviewQuestion := en_Notes entry ! 0, st_reviewReply := en_Notes entry ! 1\<rparr>
             else state\<lparr>st_pendingResponse := None, st_session := en_Session entry, st_reply := en_Notes entry ! 1\<rparr>)
          else state
      | PhaseTaskInterrupted \<Rightarrow>
          (case en_Continuation entry of
             Some k \<Rightarrow> state\<lparr>st_incomplete := Some \<lparr>in_Reason = tc_Reason k, in_ThreadID = tc_ThreadID k, in_TurnID = tc_TurnID k\<rparr>\<rparr>
           | None \<Rightarrow> state)
      | PhaseTaskExecuting \<Rightarrow>
          state\<lparr>st_round := int64 (en_Round entry - 1), st_started := (st_started state)(en_TaskID entry := False)\<rparr>
      | PhaseTaskReviewed \<Rightarrow>
          state\<lparr>st_started := (st_started state)(en_TaskID entry := False), st_continueExecution := False, st_reply := []\<rparr>
      | PhaseExecutionSession \<Rightarrow>
          if en_Role entry = Review then state\<lparr>st_reviewSession := en_Session entry\<rparr> else state\<lparr>st_session := en_Session entry\<rparr>
      | PhaseCallCompleted \<Rightarrow>
          (case en_Result entry of
             Some result \<Rightarrow>
               if en_Role entry = Execute
               then state\<lparr>st_pendingResponse := Some result, st_session := Some (idle_session result)\<rparr> else state
           | None \<Rightarrow> state)
      | PhaseExecutionResponse \<Rightarrow> project_response task state entry
      | PhaseTaskIncomplete \<Rightarrow>
          if length (en_Notes entry) = 1
          then state\<lparr>st_inputRequired := Some \<lparr>ir_TaskID = tk_ID task, ir_Role = Plan, ir_Kind = ExecutionQuestion,
                 ir_Text = en_Notes entry ! 0\<rparr>\<rparr>
          else state
      | PhaseExecutionReply \<Rightarrow>
          if length (en_Notes entry) \<noteq> 2 \<or> en_NativeInput entry \<noteq> None \<or> en_Role entry = Review then state
          else state\<lparr>st_reply := en_Notes entry ! 1, st_inputRequired := None,
                 st_started := (st_started state)(tk_ID task := False)\<rparr>
      | _ \<Rightarrow> state)"

definition project_entry :: "Task \<Rightarrow> Entry \<Rightarrow> taskState \<Rightarrow> taskState" where
  "project_entry task entry state =
     (let state = project_acceptance state entry in
      if en_TaskID entry \<noteq> tk_ID task then state
      else project_phase task (project_round (projectReviewEntry state entry) entry) entry)"

definition projectTaskState :: "Task \<Rightarrow> Entry list \<Rightarrow> taskState" where
  "projectTaskState task entries = fold (project_entry task) entries (taskState_zero\<lparr>st_tasks := [tk_ID task \<mapsto> task]\<rparr>)"

definition recordExecutionResult :: "taskState \<Rightarrow> string \<Rightarrow> Result \<Rightarrow> int \<Rightarrow> ExecutionResponseKind \<Rightarrow> taskState option" where
  \<comment> \<open>none is the error of decoding the response\<close>
  "recordExecutionResult state taskID result round kind =
     map_option (\<lambda>response.
       clear_review (state\<lparr>st_executionReport := Some \<lparr>er_CallID = res_CallID result, er_Round = round, er_Response = response\<rparr>,
         st_continueExecution := (kind = ExecutionContinue), st_started := (st_started state)(taskID := kind = ExecutionDone),
         st_resumeIncomplete := False, st_session := Some (idle_session result), st_pendingResponse := None, st_reply := [],
         st_round := round\<rparr>)) (decode_text (res_Content result))"

section \<open>Clarifications\<close>

definition clarification_question :: "Entry \<Rightarrow> string option" where
  "clarification_question entry =
     (case en_Phase entry of
        PhaseExecutionNativeInput \<Rightarrow>
          (case en_NativeInput entry of
             Some request \<Rightarrow>
               if ni_Method request = ''item/tool/requestUserInput'' \<and> length (en_Notes entry) = 1 then Some (en_Notes entry ! 0) else None
           | None \<Rightarrow> None)
      | PhaseExecutionResponse \<Rightarrow>
          if length (en_Notes entry) = 1 \<and> (en_NativeInput entry \<noteq> None \<or> asks_owner (en_ResponseKind entry))
          then Some (en_Notes entry ! 0) else None
      | PhaseReviewResponse \<Rightarrow>
          if length (en_Notes entry) = 1 \<and> (en_NativeInput entry \<noteq> None \<or> asks_owner (en_ResponseKind entry))
          then Some (en_Notes entry ! 0) else None
      | _ \<Rightarrow> None)"

definition clarification_answer :: "(int \<Rightarrow> string) \<Rightarrow> Entry \<Rightarrow> TaskClarification option" where
  \<comment> \<open>\<open>questions\<close> maps a call to its question, the empty text when there is none\<close>
  "clarification_answer questions entry =
     (case en_Phase entry of
        PhaseResponseRecovery \<Rightarrow>
          (case en_Result entry of
             Some result \<Rightarrow>
               if length (en_Notes entry) = 1
               then Some \<lparr>cl_QuestionCallID = res_CallID result, cl_AnswerEvidenceID = en_ID entry,
                      cl_Question = ''Resume the interrupted task response.'', cl_Answer = en_Notes entry ! 0\<rparr>
               else None
           | None \<Rightarrow> None)
      | PhaseTaskResume \<Rightarrow>
          if en_Session entry \<noteq> None \<and> length (en_Notes entry) = 2
          then Some \<lparr>cl_QuestionCallID = en_CallID entry, cl_AnswerEvidenceID = en_ID entry,
                 cl_Question = en_Notes entry ! 0, cl_Answer = en_Notes entry ! 1\<rparr>
          else None
      | PhaseExecutionReply \<Rightarrow>
          if questions (en_CallID entry) \<noteq> [] \<and> length (en_Notes entry) = 2
          then Some \<lparr>cl_QuestionCallID = en_CallID entry, cl_AnswerEvidenceID = en_ID entry,
                 cl_Question = questions (en_CallID entry), cl_Answer = en_Notes entry ! 1\<rparr>
          else None
      | _ \<Rightarrow> None)"

fun clarification_loop :: "(int \<Rightarrow> string) \<Rightarrow> string \<Rightarrow> Entry list \<Rightarrow> TaskClarification list" where
  "clarification_loop questions taskID [] = []"
| "clarification_loop questions taskID (entry # entries) =
     (if en_TaskID entry \<noteq> taskID then clarification_loop questions taskID entries
      else
        (let rest = clarification_loop (case clarification_question entry of
                      Some q \<Rightarrow> questions(en_CallID entry := q) | None \<Rightarrow> questions) taskID entries
         in case clarification_answer questions entry of Some a \<Rightarrow> a # rest | None \<Rightarrow> rest))"

definition ExtractTaskClarifications :: "Entry list \<Rightarrow> string \<Rightarrow> TaskClarification list" where
  "ExtractTaskClarifications entries taskID = clarification_loop (\<lambda>_. []) taskID entries"

end
