(* ===== verification/Task_Controller.thy ===== *)
theory Task_Controller
  imports Task_State Exact_Fields
begin

text \<open>
  The controller of one task (\<^verbatim>\<open>controller.go\<close>, \<^verbatim>\<open>task.go\<close>,
  \<^verbatim>\<open>review.go\<close>, \<^verbatim>\<open>dispatch.go\<close>, \<^verbatim>\<open>execution_response.go\<close>,
  \<^verbatim>\<open>task_interruption.go\<close>, \<^verbatim>\<open>continuation.go\<close>): it executes the task, interprets the
  response, has the result reviewed and repeats until a review has no findings.

  Everything outside the controller is the argument \<open>env\<close>: the cancellation of the context, the
  attestation of the environment, the evidence store and the providers. Each interaction with it advances
  a clock, so that the environment can answer the same question differently at different times. The world
  is the journal and this clock. The journal is what \<^verbatim>\<open>Evidence.Read\<close> returns: the store appends,
  assigns the identity of an entry and returns all entries in order. While a provider runs, the store may
  receive entries from others (\<open>run_Journal\<close>).

  The two unbounded loops take fuel; no fuel left is \<open>None\<close>. The activity callbacks have no effect here.
\<close>

section \<open>World and environment\<close>

datatype task_error =
    ContextDone
  | EnvironmentFailed
  | StoreFailed
  | ClarificationsFailed
  | ProviderFailed
  | ParserFailure task_error
  | ParserUndecodable
  | ParserKind
  | ResponseUndecodable
  | ReviewBlank
  | InputRequired ExecutionInputRequired
  | Incomplete IncompleteTaskError
  | ContractFailed contract_error
  | JoinedErrors task_error task_error

record provider_run =
  run_Journal :: "Entry list"
  run_Result :: Result
  run_Error :: "task_error option"

record environment =
  env_Cancelled :: "nat \<Rightarrow> bool"
  env_Attest :: "nat \<Rightarrow> bool"
  env_Read :: "nat \<Rightarrow> bool"
  env_Append :: "nat \<Rightarrow> Entry \<Rightarrow> int option"
  env_Clarifications :: "nat \<Rightarrow> string \<Rightarrow> TaskClarification list option"
  env_Run :: "nat \<Rightarrow> Assignment \<Rightarrow> provider_run"

record world =
  w_Log :: "Entry list"
  w_Clock :: nat

type_synonym 'a outcome = "(task_error + 'a) \<times> world"

definition tick :: "world \<Rightarrow> world" where
  "tick w = w\<lparr>w_Clock := Suc (w_Clock w)\<rparr>"

definition and_then :: "'a outcome \<Rightarrow> ('a \<Rightarrow> world \<Rightarrow> 'b outcome) \<Rightarrow> 'b outcome" where
  \<comment> \<open>\<^verbatim>\<open>x, err := f(); if err != nil { return err }\<close>\<close>
  "and_then r f = (case r of (Inl e, w) \<Rightarrow> (Inl e, w) | (Inr x, w) \<Rightarrow> f x w)"

definition ctx_done :: "environment \<Rightarrow> world \<Rightarrow> bool \<times> world" where
  "ctx_done env w = (env_Cancelled env (w_Clock w), tick w)"

definition attest :: "environment \<Rightarrow> world \<Rightarrow> unit outcome" where
  "attest env w = (if env_Attest env (w_Clock w) then Inr () else Inl EnvironmentFailed, tick w)"

definition append_entry :: "environment \<Rightarrow> Entry \<Rightarrow> world \<Rightarrow> int outcome" where
  "append_entry env entry w =
     (case env_Append env (w_Clock w) entry of
        None \<Rightarrow> (Inl StoreFailed, tick w)
      | Some i \<Rightarrow> (Inr i, tick w\<lparr>w_Log := w_Log w @ [entry\<lparr>en_ID := i\<rparr>]\<rparr>))"

definition read_entries :: "environment \<Rightarrow> world \<Rightarrow> Entry list outcome" where
  "read_entries env w = (if env_Read env (w_Clock w) then Inr (w_Log w) else Inl StoreFailed, tick w)"

definition taskClarifications :: "environment \<Rightarrow> string \<Rightarrow> world \<Rightarrow> TaskClarification list outcome" where
  "taskClarifications env taskID w =
     (case env_Clarifications env (w_Clock w) taskID of
        None \<Rightarrow> (Inl ClarificationsFailed, tick w)
      | Some cs \<Rightarrow> (Inr cs, tick w))"

section \<open>Errors\<close>

fun as_incomplete :: "task_error \<Rightarrow> IncompleteTaskError option" where
  \<comment> \<open>\<^verbatim>\<open>errors.As\<close> with an \<^verbatim>\<open>*IncompleteTaskError\<close>\<close>
  "as_incomplete (Incomplete f) = Some f"
| "as_incomplete (ParserFailure e) = as_incomplete e"
| "as_incomplete (JoinedErrors e f) = (case as_incomplete e of Some i \<Rightarrow> Some i | None \<Rightarrow> as_incomplete f)"
| "as_incomplete _ = None"

fun as_parser_failure :: "task_error \<Rightarrow> bool" where
  "as_parser_failure (ParserFailure e) = True"
| "as_parser_failure (JoinedErrors e f) = (as_parser_failure e \<or> as_parser_failure f)"
| "as_parser_failure _ = False"

definition join_errors :: "task_error \<Rightarrow> 'a outcome \<Rightarrow> task_error \<times> world" where
  \<comment> \<open>\<^verbatim>\<open>errors.Join\<close> with the error of a last append\<close>
  "join_errors e r = (case r of (Inl f, w) \<Rightarrow> (JoinedErrors e f, w) | (Inr _, w) \<Rightarrow> (e, w))"

section \<open>Decoding of the parsers' answers\<close>

definition fold_char :: "char \<Rightarrow> char" where
  "fold_char c = (if 65 \<le> byte c \<and> byte c \<le> 90 then char_of (byte c + 32) else c)"

fun fold_name :: "string \<Rightarrow> string" where
  \<comment> \<open>the case folding of member names in \<^verbatim>\<open>encoding/json\<close>; the Kelvin sign and the long s fold to ASCII\<close>
  "fold_name [] = []"
| "fold_name (a # b # c # s) =
     (if a = CHR 0xE2 \<and> b = CHR 0x84 \<and> c = CHR 0xAA then CHR ''k'' # fold_name s
      else if a = CHR 0xC5 \<and> b = CHR 0xBF then CHR ''s'' # fold_name (c # s)
      else fold_char a # fold_name (b # c # s))"
| "fold_name [a, b] = (if a = CHR 0xC5 \<and> b = CHR 0xBF then ''s'' else [fold_char a, fold_char b])"
| "fold_name [a] = [fold_char a]"

definition response_kind :: "string \<Rightarrow> ExecutionResponseKind" where
  "response_kind s =
     (if s = [] then ExecutionNone else if s = ''done'' then ExecutionDone else if s = ''continue'' then ExecutionContinue
      else if s = ''question'' then ExecutionQuestion else if s = ''permission'' then ExecutionPermission
      else if s = ''error'' then ExecutionError else ExecutionOther s)"

definition decode_string :: "string \<Rightarrow> json \<Rightarrow> string option" where
  \<comment> \<open>a string member; a null keeps the value before\<close>
  "decode_string old v = (case v of JString s \<Rightarrow> Some s | JNull \<Rightarrow> Some old | _ \<Rightarrow> None)"

fun decode_members :: "(string \<Rightarrow> json \<Rightarrow> 'a \<Rightarrow> 'a option) \<Rightarrow> (string \<times> json) list \<Rightarrow> 'a \<Rightarrow> 'a option" where
  "decode_members f [] x = Some x"
| "decode_members f ((k, v) # ms) x = (case f (fold_name k) v x of Some y \<Rightarrow> decode_members f ms y | None \<Rightarrow> None)"

definition decode_object :: "(string \<Rightarrow> json \<Rightarrow> 'a \<Rightarrow> 'a option) \<Rightarrow> 'a \<Rightarrow> json \<Rightarrow> 'a option" where
  "decode_object f zero v = (case v of JObject ms \<Rightarrow> decode_members f ms zero | JNull \<Rightarrow> Some zero | _ \<Rightarrow> None)"

definition decode_outcome :: "string \<Rightarrow> ExecutionResponseKind option" where
  \<comment> \<open>\<^verbatim>\<open>json.Unmarshal\<close> into the struct with the member \<^verbatim>\<open>kind\<close>; other members are ignored\<close>
  "decode_outcome content =
     (case parse content of
        Some v \<Rightarrow>
          if depth v > 10000 then None
          else map_option response_kind (decode_object (\<lambda>k v old. if k = ''kind'' then decode_string old v else Some old) [] v)
      | None \<Rightarrow> None)"

definition decode_finding :: "string \<Rightarrow> json \<Rightarrow> Finding \<Rightarrow> Finding option" where
  "decode_finding k v f =
     (if k = ''task_id'' then map_option (\<lambda>s. f\<lparr>fd_TaskID := s\<rparr>) (decode_string (fd_TaskID f) v)
      else if k = ''file'' then map_option (\<lambda>s. f\<lparr>fd_File := s\<rparr>) (decode_string (fd_File f) v)
      else if k = ''observation'' then map_option (\<lambda>s. f\<lparr>fd_Observation := s\<rparr>) (decode_string (fd_Observation f) v)
      else None)"

fun decode_findings :: "json list \<Rightarrow> Finding list option" where
  "decode_findings [] = Some []"
| "decode_findings (v # vs) =
     (case decode_object decode_finding \<lparr>fd_TaskID = [], fd_File = [], fd_Observation = []\<rparr> v of
        Some f \<Rightarrow> map_option ((#) f) (decode_findings vs)
      | None \<Rightarrow> None)"

definition decode_review_member :: "string \<Rightarrow> json \<Rightarrow> string \<times> ReviewResult \<Rightarrow> (string \<times> ReviewResult) option" where
  "decode_review_member k v r =
     (case r of (kind, result) \<Rightarrow>
        if k = ''kind'' then map_option (\<lambda>s. (s, result)) (decode_string kind v)
        else if k = ''verification'' then map_option (\<lambda>s. (kind, result\<lparr>rv_Verification := s\<rparr>)) (decode_string (rv_Verification result) v)
        else if k = ''findings'' then
          (case v of
             JNull \<Rightarrow> Some (kind, result\<lparr>rv_Findings := []\<rparr>)
           | JArray vs \<Rightarrow> map_option (\<lambda>fs. (kind, result\<lparr>rv_Findings := fs\<rparr>)) (decode_findings vs)
           | _ \<Rightarrow> None)
        else None)"

definition decode_review :: "string \<Rightarrow> ReviewResponseResult option" where
  \<comment> \<open>\<^verbatim>\<open>decodeContract\<close> at the type of a review: one value without repeated members, known members only.
     A text that spells one member in two letter cases is read by its last spelling.\<close>
  "decode_review content =
     (case parse content of
        Some v \<Rightarrow>
          if \<not> unique_keys v \<or> depth v > 10000 then None
          else map_option (\<lambda>(kind, result). \<lparr>rr_Kind = response_kind kind, rr_ReviewResult = result\<rparr>)
                 (decode_object decode_review_member ([], \<lparr>rv_Findings = [], rv_Verification = []\<rparr>) v)
      | None \<Rightarrow> None)"

section \<open>Calls\<close>

definition call_task :: "Assignment \<Rightarrow> string" where
  "call_task call = (case as_Task call of Some t \<Rightarrow> tk_ID t | None \<Rightarrow> [])"

definition call_entry :: "Controller \<Rightarrow> Phase \<Rightarrow> Assignment \<Rightarrow> int \<Rightarrow> Entry" where
  "call_entry c phase call round =
     Entry_zero\<lparr>en_Generation := ct_Generation c, en_Phase := phase, en_TaskID := call_task call, en_Round := round,
       en_Role := as_Role call\<rparr>"

definition run_provider :: "environment \<Rightarrow> Assignment \<Rightarrow> world \<Rightarrow> provider_run \<times> world" where
  "run_provider env call w =
     (let run = env_Run env (w_Clock w) call in (run, tick w\<lparr>w_Log := w_Log w @ run_Journal run\<rparr>))"

definition call_failed :: "environment \<Rightarrow> Controller \<Rightarrow> Assignment \<Rightarrow> int \<Rightarrow> int \<Rightarrow> task_error \<Rightarrow> world \<Rightarrow> Result outcome" where
  "call_failed env c call round callID err w =
     (let (saved, w) = append_entry env ((call_entry c PhaseCallFailed call round)\<lparr>en_CallID := callID\<rparr>) w;
          (stopped, w) = (if IsNative (as_Role call) then (True, w) else ctx_done env w);
          (joined, w) = join_errors (if stopped then err else ParserFailure err) (saved, w)
      in (Inl joined, w))"

definition call_completed :: "environment \<Rightarrow> Controller \<Rightarrow> Assignment \<Rightarrow> int \<Rightarrow> Result \<Rightarrow> world \<Rightarrow> Result outcome" where
  "call_completed env c call round result w =
     and_then (append_entry env ((call_entry c PhaseCallCompleted call round)
         \<lparr>en_CallID := res_CallID result, en_Result := Some result\<rparr>) w) (\<lambda>_ w. (Inr result, w))"

definition invoke :: "environment \<Rightarrow> Controller \<Rightarrow> Assignment \<Rightarrow> int \<Rightarrow> world \<Rightarrow> Result outcome" where
  "invoke env c call round w =
     and_then (append_entry env ((call_entry c PhaseCallOpened call round)\<lparr>en_Assignment := Some call\<rparr>) w) (\<lambda>callID w.
       let (run, w) = run_provider env call w in
       case run_Error run of
         Some err \<Rightarrow> call_failed env c call round callID err w
       | None \<Rightarrow> call_completed env c call round ((run_Result run)\<lparr>res_CallID := callID, res_Evidence := []\<rparr>) w)"

section \<open>Execution\<close>

definition response_call :: "Controller \<Rightarrow> Task \<Rightarrow> string \<Rightarrow> TaskClarification list \<Rightarrow> Assignment" where
  "response_call c task response clarifications =
     (assignment c ExecutionResponse None (cfg_LedgerParser (ct_Configuration c)))
       \<lparr>as_Task := Some task, as_Response := response, as_Clarifications := clarifications\<rparr>"

definition response_entry :: "Controller \<Rightarrow> Task \<Rightarrow> Result \<Rightarrow> int \<Rightarrow> string \<Rightarrow> ExecutionResponseKind \<Rightarrow> Entry" where
  "response_entry c task result round response kind =
     Entry_zero\<lparr>en_Generation := ct_Generation c, en_Phase := PhaseExecutionResponse, en_TaskID := tk_ID task,
       en_CallID := res_CallID result, en_Round := round, en_ResponseKind := kind, en_Notes := [response]\<rparr>"

definition response_outcome :: "Task \<Rightarrow> Result \<Rightarrow> string \<Rightarrow> ExecutionResponseKind \<Rightarrow> task_error + ExecutionResponseKind" where
  "response_outcome task result response kind =
     (if asks_owner kind
      then Inl (InputRequired \<lparr>ir_TaskID = tk_ID task, ir_Role = RoleNone, ir_Kind = kind, ir_Text = response\<rparr>)
      else if kind = ExecutionError
      then Inl (Incomplete \<lparr>in_Reason = ''Execution is incomplete: '' @ response, in_ThreadID = res_ThreadID result,
             in_TurnID = res_TurnID result\<rparr>)
      else Inr kind)"

definition record_response ::
    "environment \<Rightarrow> Controller \<Rightarrow> Task \<Rightarrow> Result \<Rightarrow> int \<Rightarrow> string \<Rightarrow> string \<Rightarrow> world \<Rightarrow> ExecutionResponseKind outcome" where
  \<comment> \<open>from the answer of the parser on\<close>
  "record_response env c task result round response content w =
     (case decode_outcome content of
        None \<Rightarrow> (Inl (ParserFailure ParserUndecodable), w)
      | Some kind \<Rightarrow>
          if kind \<notin> {ExecutionDone, ExecutionContinue, ExecutionQuestion, ExecutionPermission, ExecutionError}
          then (Inl (ParserFailure ParserKind), w)
          else and_then (append_entry env (response_entry c task result round response kind) w)
                 (\<lambda>_ w. (response_outcome task result response kind, w)))"

definition handleExecutionResponse :: "environment \<Rightarrow> Controller \<Rightarrow> Task \<Rightarrow> Result \<Rightarrow> int \<Rightarrow> world \<Rightarrow> ExecutionResponseKind outcome" where
  "handleExecutionResponse env c task result round w =
     (case decode_text (res_Content result) of
        None \<Rightarrow> (Inl ResponseUndecodable, w)
      | Some response \<Rightarrow>
          and_then (taskClarifications env (tk_ID task) w) (\<lambda>clarifications w.
          and_then (invoke env c (response_call c task response clarifications) round w) (\<lambda>parsed w.
          record_response env c task result round response (res_Content parsed) w)))"

definition execution_call :: "Controller \<Rightarrow> Task \<Rightarrow> taskState \<Rightarrow> TaskClarification list \<Rightarrow> Assignment" where
  "execution_call c task state clarifications =
     (let call = (assignment c Execute (Some task) (cfg_Executor (ct_Configuration c)))
            \<lparr>as_Clarifications := clarifications, as_Session := st_session state, as_Reply := st_reply state\<rparr>;
          call = (if st_continueExecution state then call\<lparr>as_ExecutionReport := st_executionReport state\<rparr> else call);
          call = (case as_Session call of
                    Some s \<Rightarrow>
                      if es_State s = ''idle'' \<and> \<not> st_resumeIncomplete state \<and> \<not> st_continueExecution state
                      then call\<lparr>as_Session := None\<rparr> else call
                  | None \<Rightarrow> call)
      in call\<lparr>as_Findings := st_findings state (tk_ID task)\<rparr>)"

definition executeTaskTurn :: "environment \<Rightarrow> Controller \<Rightarrow> Task \<Rightarrow> taskState \<Rightarrow> world \<Rightarrow> taskState outcome" where
  "executeTaskTurn env c task state w =
     and_then (attest env w) (\<lambda>_ w.
     and_then (append_entry env (Entry_zero\<lparr>en_Generation := ct_Generation c, en_Phase := PhaseTaskExecuting,
                 en_TaskID := tk_ID task, en_Round := int64 (st_round state + 1)\<rparr>) w) (\<lambda>_ w.
     and_then (taskClarifications env (tk_ID task) w) (\<lambda>clarifications w.
     and_then (invoke env c (execution_call c task state clarifications) (int64 (st_round state + 1)) w) (\<lambda>result w.
     and_then (handleExecutionResponse env c task result (int64 (st_round state + 1)) w) (\<lambda>kind w.
     case recordExecutionResult state (tk_ID task) result (int64 (st_round state + 1)) kind of
       None \<Rightarrow> (Inl ResponseUndecodable, w)
     | Some state' \<Rightarrow> (Inr state', w))))))"

fun executeTask :: "nat \<Rightarrow> environment \<Rightarrow> Controller \<Rightarrow> Task \<Rightarrow> taskState \<Rightarrow> world \<Rightarrow> taskState outcome option" where
  "executeTask 0 env c task state w = None"
| "executeTask (Suc fuel) env c task state w =
     (let (stopped, w) = ctx_done env w in
      if stopped then Some (Inl ContextDone, w)
      else case executeTaskTurn env c task state w of
        (Inl e, w) \<Rightarrow> Some (Inl e, w)
      | (Inr state', w) \<Rightarrow>
          if \<not> st_continueExecution state' then Some (Inr state', w) else executeTask fuel env c task state' w)"

section \<open>Review\<close>

definition reviewTaskResult :: "string \<Rightarrow> ReviewResponseResult \<Rightarrow> string \<Rightarrow> ReviewResult" where
  "reviewTaskResult taskID review response =
     (if rr_Kind review = ExecutionError \<and> rv_Findings (rr_ReviewResult review) = []
      then \<lparr>rv_Findings = [\<lparr>fd_TaskID = taskID, fd_File = [], fd_Observation = response\<rparr>], rv_Verification = response\<rparr>
      else rr_ReviewResult review)"

definition recorded_review :: "int \<Rightarrow> string \<Rightarrow> Entry \<Rightarrow> ReviewResponseResult option" where
  \<comment> \<open>the interpretation of this very response that the journal already holds\<close>
  "recorded_review callID response entry =
     (if en_Phase entry = PhaseReviewResponse \<and> en_CallID entry = callID \<and>
         (en_ResponseKind entry = ExecutionDone \<or> en_ResponseKind entry = ExecutionError) \<and>
         length (en_Notes entry) = 1 \<and> en_Notes entry ! 0 = response
      then en_ReviewResponse entry else None)"

fun scan_reviews :: "int \<Rightarrow> string \<Rightarrow> string list \<Rightarrow> Entry list \<Rightarrow> ReviewResponseResult + string list" where
  \<comment> \<open>a recorded review, or the notes of the last rejected interpretation\<close>
  "scan_reviews callID response notes [] = Inr notes"
| "scan_reviews callID response notes (entry # entries) =
     (case recorded_review callID response entry of
        Some review \<Rightarrow> Inl review
      | None \<Rightarrow>
          scan_reviews callID response
            (if en_Phase entry = PhaseReviewParseRejected \<and> en_CallID entry = callID then en_Notes entry else notes) entries)"

definition settle_review :: "string \<Rightarrow> string \<Rightarrow> ReviewResponseResult \<Rightarrow> task_error + ReviewResponseResult" where
  "settle_review taskID response review =
     (if rr_Kind review = ExecutionDone \<or> rr_Kind review = ExecutionError
      then Inr (review\<lparr>rr_ReviewResult := reviewTaskResult taskID review response\<rparr>)
      else if asks_owner (rr_Kind review) then Inr review
      else Inl ParserKind)"

definition interpret_review :: "string \<Rightarrow> string \<Rightarrow> string \<Rightarrow> task_error + ReviewResponseResult" where
  "interpret_review taskID response content =
     (case decode_review content of None \<Rightarrow> Inl ParserUndecodable | Some review \<Rightarrow> settle_review taskID response review)"

definition review_entry :: "Controller \<Rightarrow> string \<Rightarrow> Result \<Rightarrow> Result \<Rightarrow> int \<Rightarrow> Entry" where
  "review_entry c taskID result parsed round =
     Entry_zero\<lparr>en_Generation := ct_Generation c, en_TaskID := taskID, en_CallID := res_CallID result,
       en_ParserCallID := res_CallID parsed, en_Round := round\<rparr>"

definition parse_review ::
    "environment \<Rightarrow> Controller \<Rightarrow> (task_error \<Rightarrow> string) \<Rightarrow> Assignment \<Rightarrow> Result \<Rightarrow> string \<Rightarrow> int \<Rightarrow> world \<Rightarrow> ReviewResult outcome" where
  \<comment> \<open>from the call of the parser to the end of \<^verbatim>\<open>review\<close>; \<open>message\<close> is the text of an error\<close>
  "parse_review env c message parser result response round w =
     and_then (invoke env c parser round w) (\<lambda>parsed w.
       case interpret_review (call_task parser) response (res_Content parsed) of
         Inl err \<Rightarrow>
           and_then (append_entry env ((review_entry c (call_task parser) result parsed round)
               \<lparr>en_Phase := PhaseReviewParseRejected, en_Role := ReviewResponse, en_Notes := [message err]\<rparr>) w)
             (\<lambda>_ w. (Inl (ParserFailure err), w))
       | Inr review \<Rightarrow>
           and_then (append_entry env ((review_entry c (call_task parser) result parsed round)
               \<lparr>en_Phase := PhaseReviewResponse, en_Role := Review, en_ResponseKind := rr_Kind review,
                en_ReviewResponse := Some review, en_Notes := [response]\<rparr>) w)
             (\<lambda>_ w.
               if asks_owner (rr_Kind review)
               then (Inl (InputRequired \<lparr>ir_TaskID = call_task parser, ir_Role = Review, ir_Kind = rr_Kind review, ir_Text = response\<rparr>), w)
               else (Inr (rr_ReviewResult review), w)))"

definition review_parser :: "Controller \<Rightarrow> Assignment \<Rightarrow> string \<Rightarrow> string list \<Rightarrow> Assignment" where
  "review_parser c scope response notes =
     (assignment c ReviewResponse None (cfg_LedgerParser (ct_Configuration c)))
       \<lparr>as_Task := as_Task scope, as_Objective := as_Objective scope, as_Response := response,
        as_Clarifications := as_Clarifications scope, as_ValidationNotes := notes\<rparr>"

definition review_result :: "environment \<Rightarrow> Controller \<Rightarrow> Assignment \<Rightarrow> int \<Rightarrow> Result option \<Rightarrow> world \<Rightarrow> Result outcome" where
  \<comment> \<open>the pending result, or a new native review\<close>
  "review_result env c scope round pending w =
     (case pending of Some result \<Rightarrow> (Inr result, w) | None \<Rightarrow> invoke env c scope round w)"

definition review ::
    "environment \<Rightarrow> Controller \<Rightarrow> (task_error \<Rightarrow> string) \<Rightarrow> Assignment \<Rightarrow> int \<Rightarrow> Result option \<Rightarrow> world \<Rightarrow> (ReviewResult \<times> Result) outcome" where
  "review env c message scope round pending w =
     and_then (review_result env c scope round pending w) (\<lambda>result w.
       case decode_text (res_Content result) of
         None \<Rightarrow> (Inl ReviewBlank, w)
       | Some response \<Rightarrow>
           if blank response then (Inl ReviewBlank, w)
           else and_then (read_entries env w) (\<lambda>entries w.
             case scan_reviews (res_CallID result) response [] entries of
               Inl recorded \<Rightarrow> (Inr (reviewTaskResult (call_task scope) recorded response, result), w)
             | Inr notes \<Rightarrow>
                 and_then (parse_review env c message (review_parser c scope response notes) result response round w)
                   (\<lambda>r w. (Inr (r, result), w))))"

section \<open>The loop of a task\<close>

definition review_call :: "Controller \<Rightarrow> Task \<Rightarrow> taskState \<Rightarrow> TaskClarification list \<Rightarrow> Assignment" where
  "review_call c task state clarifications =
     (assignment c Review (Some task) (cfg_Reviewer (ct_Configuration c)))
       \<lparr>as_ExecutionReport := st_executionReport state, as_Findings := st_findings state (tk_ID task),
        as_Session := st_reviewSession state, as_Response := st_reviewQuestion state, as_Reply := st_reviewReply state,
        as_Clarifications := clarifications\<rparr>"

definition review_turn ::
    "environment \<Rightarrow> Controller \<Rightarrow> (task_error \<Rightarrow> string) \<Rightarrow> Task \<Rightarrow> taskState \<Rightarrow> world \<Rightarrow> (taskState \<times> bool) outcome" where
  \<comment> \<open>one pass of the loop of \<^verbatim>\<open>runTask\<close> up to the next execution; the flag says that the task was accepted\<close>
  "review_turn env c message task state w =
     and_then (attest env w) (\<lambda>_ w.
     and_then (taskClarifications env (tk_ID task) w) (\<lambda>clarifications w.
     and_then (review env c message (review_call c task state clarifications) (st_round state) (st_pendingReview state) w) (\<lambda>(verdict, result) w.
     let state = state\<lparr>st_resumeIncomplete := False\<rparr> in
     if rv_Findings verdict = []
     then and_then (append_entry env (Entry_zero\<lparr>en_Generation := ct_Generation c, en_Phase := PhaseTaskAccepted, en_TaskID := tk_ID task,
                 en_CallID := res_CallID result, en_Round := st_round state\<rparr>) w)
            (\<lambda>_ w. (Inr (state\<lparr>st_accepted := (st_accepted state)(tk_ID task := True)\<rparr>, True), w))
     else and_then (append_entry env (Entry_zero\<lparr>en_Generation := ct_Generation c, en_Phase := PhaseTaskReviewed, en_TaskID := tk_ID task,
                 en_Round := st_round state, en_Findings := rv_Findings verdict\<rparr>) w)
            (\<lambda>_ w. (Inr (state\<lparr>st_findings := (st_findings state)(tk_ID task := rv_Findings verdict)\<rparr>, False), w)))))"

fun review_loop ::
    "nat \<Rightarrow> environment \<Rightarrow> Controller \<Rightarrow> (task_error \<Rightarrow> string) \<Rightarrow> Task \<Rightarrow> taskState \<Rightarrow> world \<Rightarrow> unit outcome option" where
  "review_loop 0 env c message task state w = None"
| "review_loop (Suc fuel) env c message task state w =
     (let (stopped, w) = ctx_done env w in
      if stopped then Some (Inl ContextDone, w)
      else case review_turn env c message task state w of
        (Inl e, w) \<Rightarrow> Some (Inl e, w)
      | (Inr (state', accepted), w) \<Rightarrow>
          if accepted then Some (Inr (), w)
          else (case executeTask fuel env c task state' w of
                  None \<Rightarrow> None
                | Some (Inl e, w) \<Rightarrow> Some (Inl e, w)
                | Some (Inr state'', w) \<Rightarrow> review_loop fuel env c message task state'' w))"

definition runTask ::
    "nat \<Rightarrow> environment \<Rightarrow> Controller \<Rightarrow> (task_error \<Rightarrow> string) \<Rightarrow> Task \<Rightarrow> taskState \<Rightarrow> world \<Rightarrow> unit outcome option" where
  "runTask fuel env c message task state w =
     (case st_inputRequired state of
        Some request \<Rightarrow> Some (Inl (InputRequired request), w)
      | None \<Rightarrow>
          if st_started state (tk_ID task) then review_loop fuel env c message task state w
          else (case executeTask fuel env c task (state\<lparr>st_started := (st_started state)(tk_ID task := True)\<rparr>) w of
                  None \<Rightarrow> None
                | Some (Inl e, w) \<Rightarrow> Some (Inl e, w)
                | Some (Inr state', w) \<Rightarrow> review_loop fuel env c message task state' w))"

definition must_stop :: "taskState \<Rightarrow> IncompleteTaskError option" where
  "must_stop state =
     (if st_inputRequired state = None \<and> st_pendingResponse state = None \<and> st_pendingReview state = None \<and>
         \<not> recoverableSession (st_session state) \<and> \<not> recoverableSession (st_reviewSession state)
      then st_incomplete state else None)"

definition settle_pending :: "environment \<Rightarrow> Controller \<Rightarrow> Task \<Rightarrow> taskState \<Rightarrow> world \<Rightarrow> taskState outcome" where
  \<comment> \<open>the interpretation of a native result that the journal holds without one\<close>
  "settle_pending env c task state w =
     (case st_pendingResponse state of
        None \<Rightarrow> (Inr state, w)
      | Some pending \<Rightarrow>
          (case handleExecutionResponse env c task pending (st_round state) w of
             (Inl e, w) \<Rightarrow>
               (case (if st_resumeIncomplete state then as_incomplete e else None) of
                  None \<Rightarrow> (Inl e, w)
                | Some f \<Rightarrow>
                    (Inr (state\<lparr>st_session := Some \<lparr>es_ThreadID = in_ThreadID f, es_TurnID = in_TurnID f, es_PreviousTurnID = [],
                            es_State = ''interrupted''\<rparr>, st_pendingResponse := None\<rparr>), w))
           | (Inr kind, w) \<Rightarrow>
               (case recordExecutionResult state (tk_ID task) pending (st_round state) kind of
                  None \<Rightarrow> (Inl ResponseUndecodable, w)
                | Some state' \<Rightarrow> (Inr state', w))))"

definition resumeTask ::
    "nat \<Rightarrow> environment \<Rightarrow> Controller \<Rightarrow> (task_error \<Rightarrow> string) \<Rightarrow> Task \<Rightarrow> world \<Rightarrow> unit outcome option" where
  "resumeTask fuel env c message task w =
     (case or_else (validateTaskExecution c) (Task_Validate task) of
        Some e \<Rightarrow> Some (Inl (ContractFailed e), w)
      | None \<Rightarrow>
          (case read_entries env w of
             (Inl e, w) \<Rightarrow> Some (Inl e, w)
           | (Inr entries, w) \<Rightarrow>
               (let state = projectTaskState task entries in
                if st_accepted state (tk_ID task) then Some (Inr (), w)
                else case must_stop state of
                  Some f \<Rightarrow> Some (Inl (Incomplete f), w)
                | None \<Rightarrow>
                    (case settle_pending env c task state w of
                       (Inl e, w) \<Rightarrow> Some (Inl e, w)
                     | (Inr state', w) \<Rightarrow> runTask fuel env c message task state' w))))"

fun already_interrupted :: "string \<Rightarrow> Entry list \<Rightarrow> bool" where
  \<comment> \<open>the loop over the entries from the last one: a handoff of this task after its last resumption\<close>
  "already_interrupted taskID [] = False"
| "already_interrupted taskID (entry # entries) =
     (if en_TaskID entry = taskID \<and> (en_Phase entry = PhaseTaskResume \<or> en_Phase entry = PhaseResponseRecovery) then False
      else if en_Phase entry = PhaseTaskInterrupted \<and> en_TaskID entry = taskID \<and> en_Continuation entry \<noteq> None then True
      else already_interrupted taskID entries)"

definition interruption :: "Controller \<Rightarrow> Task \<Rightarrow> IncompleteTaskError \<Rightarrow> Entry" where
  "interruption c task f =
     Entry_zero\<lparr>en_Generation := ct_Generation c, en_Phase := PhaseTaskInterrupted, en_TaskID := tk_ID task,
       en_Continuation := Some \<lparr>tc_LedgerRevision = 0, tc_Task = task, tc_Reason = in_Reason f, tc_ThreadID = in_ThreadID f,
         tc_TurnID = in_TurnID f, tc_Clarifications = []\<rparr>\<rparr>"

definition record_interruption :: "environment \<Rightarrow> Controller \<Rightarrow> Task \<Rightarrow> task_error \<Rightarrow> IncompleteTaskError \<Rightarrow> world \<Rightarrow> unit outcome" where
  "record_interruption env c task e f w =
     (case read_entries env w of
        (Inl readErr, w) \<Rightarrow> (Inl (JoinedErrors e readErr), w)
      | (Inr entries, w) \<Rightarrow>
          if already_interrupted (tk_ID task) (rev entries) then (Inl e, w)
          else (let (joined, w) = join_errors e (append_entry env (interruption c task f) w) in (Inl joined, w)))"

definition RunTask ::
    "nat \<Rightarrow> environment \<Rightarrow> Controller \<Rightarrow> (task_error \<Rightarrow> string) \<Rightarrow> Task \<Rightarrow> world \<Rightarrow> unit outcome option" where
  "RunTask fuel env c message task w =
     (case resumeTask fuel env c message task w of
        None \<Rightarrow> None
      | Some (Inr u, w) \<Rightarrow> Some (Inr u, w)
      | Some (Inl e, w) \<Rightarrow>
          (case as_incomplete e of
             None \<Rightarrow> Some (Inl e, w)
           | Some f \<Rightarrow> Some (record_interruption env c task e f w)))"

section \<open>The final review and continuation planning\<close>

definition goal_state :: "Entry list \<Rightarrow> taskState" where
  "goal_state entries = fold (\<lambda>entry state. if en_TaskID entry = [] then projectReviewEntry state entry else state) entries taskState_zero"

definition ReviewGoal :: "environment \<Rightarrow> Controller \<Rightarrow> (task_error \<Rightarrow> string) \<Rightarrow> Objective \<Rightarrow> world \<Rightarrow> unit outcome" where
  "ReviewGoal env c message objective w =
     and_then (read_entries env w) (\<lambda>entries w.
       let state = goal_state entries in
       case st_inputRequired state of
         Some request \<Rightarrow> (Inl (InputRequired request), w)
       | None \<Rightarrow>
           (let call = (assignment c Review None (cfg_Reviewer (ct_Configuration c)))
                  \<lparr>as_Objective := Some objective, as_Session := st_reviewSession state,
                   as_Response := st_reviewQuestion state, as_Reply := st_reviewReply state\<rparr>
            in and_then (review env c message call 0 (st_pendingReview state) w) (\<lambda>(verdict, result) w.
                 if rv_Findings verdict \<noteq> []
                 then (Inl (Incomplete \<lparr>in_Reason = rv_Verification verdict, in_ThreadID = res_ThreadID result, in_TurnID = res_TurnID result\<rparr>), w)
                 else (Inr (), w))))"

end
