(* ===== verification/Journal_Rules.thy ===== *)
theory Journal_Rules
  imports Task_Controller
begin

text \<open>
  Rules that every entry of the journal obeys. A rule says which entry may follow which journal, together
  with a condition of the journal at which native work may start. The locale states what a rule has to
  know about single entries; inside it the rule is proved once for everything a run of a task appends.
\<close>

section \<open>Growth of the journal\<close>

fun lawful :: "(Entry list \<Rightarrow> Entry \<Rightarrow> bool) \<Rightarrow> Entry list \<Rightarrow> Entry list \<Rightarrow> bool" where
  "lawful allowed log [] = True"
| "lawful allowed log (e # es) = (allowed log e \<and> lawful allowed (log @ [e]) es)"

lemma lawful_append [simp]: "lawful allowed log (es @ fs) \<longleftrightarrow> lawful allowed log es \<and> lawful allowed (log @ es) fs"
  by (induction es arbitrary: log) auto

definition grows :: "(Entry list \<Rightarrow> Entry \<Rightarrow> bool) \<Rightarrow> world \<Rightarrow> world \<Rightarrow> bool" where
  "grows allowed w w' \<longleftrightarrow> (\<exists>new. w_Log w' = w_Log w @ new \<and> lawful allowed (w_Log w) new)"

lemma grows_same: "w_Log w' = w_Log w \<Longrightarrow> grows allowed w w'"
  by (simp add: grows_def)

lemma grows_trans [trans]: "grows allowed u v \<Longrightarrow> grows allowed v w \<Longrightarrow> grows allowed u w"
  by (auto simp: grows_def)

lemma and_thenE:
  assumes "and_then r f = (x, w)"
  obtains e where "r = (Inl e, w)" "x = Inl e" | y v where "r = (Inr y, v)" "f y v = (x, w)"
  using assms by (auto simp: and_then_def split: prod.splits sum.splits)

lemma w_Log_tick [simp]: "w_Log (tick w) = w_Log w" "w_Clock (tick w) = Suc (w_Clock w)"
  by (simp_all add: tick_def)

lemma quiet_ops:
  "attest env w = (r, w') \<Longrightarrow> w_Log w' = w_Log w"
  "read_entries env w = (s, w') \<Longrightarrow> w_Log w' = w_Log w"
  "taskClarifications env i w = (t, w') \<Longrightarrow> w_Log w' = w_Log w"
  "ctx_done env w = (b, w') \<Longrightarrow> w_Log w' = w_Log w"
  by (auto simp: attest_def read_entries_def taskClarifications_def ctx_done_def split: option.splits)

lemma append_entryE:
  assumes "append_entry env e w = (r, w')"
  obtains "r = Inl StoreFailed" "w_Log w' = w_Log w" | i where "r = Inr i" "w_Log w' = w_Log w @ [e\<lparr>en_ID := i\<rparr>]"
  using assms by (auto simp: append_entry_def split: option.splits)

lemma call_failedE:
  assumes "call_failed env c call round callID err w = (r, w')"
    and "append_entry env ((call_entry c PhaseCallFailed call round)\<lparr>en_CallID := callID\<rparr>) w = (saved, v)"
  shows "w_Log w' = w_Log v \<and> (\<exists>e. r = Inl e \<and> as_incomplete e = as_incomplete err)"
proof -
  have store: "saved = Inl e \<Longrightarrow> e = StoreFailed" for e
    using assms(2) by (auto elim: append_entryE)
  have "as_incomplete (JoinedErrors e StoreFailed) = as_incomplete e" for e
    by (simp split: option.split)
  then show ?thesis
    using assms store by (cases saved) (auto simp: call_failed_def Let_def join_errors_def ctx_done_def split: if_splits)
qed

section \<open>Rules\<close>

text \<open>Entries that no rule restricts.\<close>

definition ordinary :: "Entry \<Rightarrow> bool" where
  "ordinary e \<longleftrightarrow> en_Phase e \<notin> {PhaseTaskAccepted, PhaseResponseRecovery} \<and>
     \<not> (en_Phase e \<in> {PhaseCallOpened, PhaseCallCompleted} \<and> en_Role e = Execute)"

definition opens_execution :: "Entry \<Rightarrow> bool" where
  "opens_execution e \<longleftrightarrow> en_Phase e = PhaseCallOpened \<and> en_Role e = Execute"

definition completes_execution :: "Entry \<Rightarrow> bool" where
  "completes_execution e \<longleftrightarrow> en_Phase e = PhaseCallCompleted \<and> en_Role e = Execute"

text \<open>A review that found nothing, which an acceptance names by its call.\<close>

definition clean_review :: "int \<Rightarrow> Entry \<Rightarrow> bool" where
  "clean_review callID e \<longleftrightarrow> en_Phase e = PhaseReviewResponse \<and> en_CallID e = callID \<and> en_ResponseKind e \<in> {ExecutionDone, ExecutionError} \<and>
     (\<exists>r. en_ReviewResponse e = Some r \<and> rr_Kind r \<noteq> ExecutionError \<and> rv_Findings (rr_ReviewResult r) = [])"

definition responds :: "Task \<Rightarrow> Entry \<Rightarrow> bool" where
  "responds task e \<longleftrightarrow> en_Phase e = PhaseExecutionResponse \<and> en_TaskID e = tk_ID task"

lemma scan_recorded: "scan_reviews callID response ns entries = Inl rr \<Longrightarrow> \<exists>e\<in>set entries. recorded_review callID response e = Some rr"
  by (induction callID response ns entries rule: scan_reviews.induct) (auto split: option.splits)

lemma recorded_clean:
  assumes "recorded_review callID response e = Some rr" "rv_Findings (reviewTaskResult taskID rr response) = []"
  shows "clean_review callID e"
  using assms by (auto simp: recorded_review_def reviewTaskResult_def clean_review_def split: if_splits)

lemma interpreted_clean:
  assumes "interpret_review taskID response content = Inr rr" "\<not> asks_owner (rr_Kind rr)" "rv_Findings (rr_ReviewResult rr) = []"
  shows "rr_Kind rr = ExecutionDone"
  using assms by (auto simp: interpret_review_def settle_review_def reviewTaskResult_def split: option.splits if_splits)

locale journal_rule =
  fixes task :: Task and env :: environment
    and allowed :: "Entry list \<Rightarrow> Entry \<Rightarrow> bool" and ready :: "Entry list \<Rightarrow> bool"
  assumes journal: "e \<in> set (run_Journal (env_Run env n call)) \<Longrightarrow> ordinary e"
    and parsers: "run_Error (env_Run env n call) = Some err \<Longrightarrow> \<not> IsNative (as_Role call) \<Longrightarrow> as_incomplete err = None"
    and allowed_ordinary: "ordinary e \<Longrightarrow> allowed log e"
    and ready_ordinary: "ordinary e \<Longrightarrow> ready log \<Longrightarrow> ready (log @ [e])"
    and allowed_open: "opens_execution e \<Longrightarrow> ready log \<Longrightarrow> allowed log e"
    and ready_open: "opens_execution e \<Longrightarrow> ready log \<Longrightarrow> ready (log @ [e])"
    and allowed_complete: "completes_execution e \<Longrightarrow> allowed log e"
    and ready_response: "responds task e \<Longrightarrow> ready (log @ [e])"
    and allowed_accept: "en_Phase e = PhaseTaskAccepted \<Longrightarrow> r \<in> set log \<Longrightarrow> clean_review (en_CallID e) r \<Longrightarrow> allowed log e"
    and ready_accept: "en_Phase e = PhaseTaskAccepted \<Longrightarrow> ready log \<Longrightarrow> ready (log @ [e])"
    and ready_projected: "st_pendingResponse (projectTaskState task log) = None \<Longrightarrow> ready log"
begin

definition keeps :: "world \<Rightarrow> world \<Rightarrow> bool" where
  "keeps w w' \<longleftrightarrow> grows allowed w w' \<and> (ready (w_Log w) \<longrightarrow> ready (w_Log w'))"

lemma keeps_same: "w_Log w' = w_Log w \<Longrightarrow> keeps w w'"
  by (simp add: keeps_def grows_same)

lemma keeps_trans: "keeps u v \<Longrightarrow> keeps v w \<Longrightarrow> keeps u w"
  unfolding keeps_def using grows_trans by blast

lemma append_ordinary:
  assumes "append_entry env e w = (r, w')" "ordinary e"
  shows "keeps w w'"
proof (cases rule: append_entryE [OF assms(1)])
  case (2 i)
  moreover have "ordinary (e\<lparr>en_ID := i\<rparr>)" using assms(2) by (simp add: ordinary_def)
  ultimately show ?thesis
    using allowed_ordinary ready_ordinary by (simp add: keeps_def grows_def)
qed (simp add: keeps_same)

lemma ordinary_list: "(\<And>e. e \<in> set es \<Longrightarrow> ordinary e) \<Longrightarrow> lawful allowed log es \<and> (ready log \<longrightarrow> ready (log @ es))"
proof (induction es arbitrary: log)
  case (Cons e es)
  then show ?case
    using Cons.IH [of "log @ [e]"] allowed_ordinary [of e] ready_ordinary [of e] by simp
qed simp

lemma run_provider_keeps: "run_provider env call w = (run, w') \<Longrightarrow> keeps w w'"
  using ordinary_list [of "run_Journal (env_Run env (w_Clock w) call)" "w_Log w"] journal
  by (auto simp: run_provider_def keeps_def grows_def Let_def)

lemma append_allowed:
  assumes "append_entry env e w = (r, w')" "\<And>i. allowed (w_Log w) (e\<lparr>en_ID := i\<rparr>)"
  shows "grows allowed w w'"
  by (cases rule: append_entryE [OF assms(1)]) (simp_all add: grows_def assms(2))

lemma call_failed_keeps:
  assumes "call_failed env c call round callID err w = (r, w')"
  shows "keeps w w'"
proof -
  obtain saved v where v: "append_entry env ((call_entry c PhaseCallFailed call round)\<lparr>en_CallID := callID\<rparr>) w = (saved, v)"
    by (cases "append_entry env ((call_entry c PhaseCallFailed call round)\<lparr>en_CallID := callID\<rparr>) w") auto
  then have "keeps w v"
    by (rule append_ordinary) (simp add: ordinary_def call_entry_def)
  moreover have "w_Log w' = w_Log v"
    using call_failedE [OF assms v] by blast
  ultimately show ?thesis
    using keeps_trans keeps_same by blast
qed

lemma call_completed_keeps:
  assumes "call_completed env c call round result w = (r, w')" "as_Role call \<noteq> Execute"
  shows "keeps w w'"
  using assms(1) unfolding call_completed_def
proof (cases rule: and_thenE)
  case (1 e)
  then show ?thesis
    using assms(2) by (intro append_ordinary [OF 1(1)]) (simp add: ordinary_def call_entry_def)
next
  case (2 y v)
  then have "keeps w v"
    using assms(2) by (intro append_ordinary [OF 2(1)]) (simp add: ordinary_def call_entry_def)
  then show ?thesis using 2 by simp
qed

lemma call_completed_grows:
  assumes "call_completed env c call round result w = (r, w')"
  shows "grows allowed w w'"
proof (cases "as_Role call = Execute")
  case True
  have *: "grows allowed w v" if "append_entry env ((call_entry c PhaseCallCompleted call round)
      \<lparr>en_CallID := res_CallID result, en_Result := Some result\<rparr>) w = (x, v)" for x v
    using that by (rule append_allowed) (simp add: allowed_complete completes_execution_def call_entry_def True)
  from assms show ?thesis
    unfolding call_completed_def by (cases rule: and_thenE) (auto dest: *)
next
  case False
  then show ?thesis
    using call_completed_keeps [OF assms] by (simp add: keeps_def)
qed

lemma invoke_keeps:
  assumes "invoke env c call round w = (r, w')" "as_Role call \<noteq> Execute"
  shows "keeps w w'"
  using assms(1) unfolding invoke_def
proof (cases rule: and_thenE)
  case (1 e)
  then show ?thesis
    using assms(2) by (intro append_ordinary [OF 1(1)]) (simp add: ordinary_def call_entry_def)
next
  case (2 callID v)
  have "keeps w v"
    using assms(2) by (intro append_ordinary [OF 2(1)]) (simp add: ordinary_def call_entry_def)
  moreover obtain run u where u: "run_provider env call v = (run, u)"
    by (cases "run_provider env call v")
  moreover have "keeps u w'"
    using 2(2) u call_failed_keeps call_completed_keeps [OF _ assms(2)] by (auto split: option.splits)
  ultimately show ?thesis
    using run_provider_keeps keeps_trans by blast
qed

lemma invoke_execution:
  assumes "invoke env c call round w = (r, w')" "as_Role call = Execute" "ready (w_Log w)"
  shows "grows allowed w w'"
  using assms(1) unfolding invoke_def
proof (cases rule: and_thenE)
  case (1 e)
  then show ?thesis
    using assms(2,3) by (intro append_allowed [OF 1(1)] allowed_open) (simp_all add: opens_execution_def call_entry_def)
next
  case (2 callID v)
  have "grows allowed w v"
    using assms(2,3) by (intro append_allowed [OF 2(1)] allowed_open) (simp_all add: opens_execution_def call_entry_def)
  moreover obtain run u where u: "run_provider env call v = (run, u)"
    by (cases "run_provider env call v")
  moreover have "grows allowed u w'"
    using 2(2) u call_failed_keeps call_completed_grows by (auto simp: keeps_def split: option.splits)
  ultimately show ?thesis
    using run_provider_keeps grows_trans unfolding keeps_def by blast
qed

lemma invoke_parser_error:
  assumes "invoke env c call round w = (Inl e, w')" "\<not> IsNative (as_Role call)"
  shows "as_incomplete e = None"
  using assms(1) unfolding invoke_def
proof (cases rule: and_thenE)
  case (1 e')
  then show ?thesis by (auto elim: append_entryE)
next
  case (2 callID v)
  obtain run u where u: "run_provider env call v = (run, u)" "run = env_Run env (w_Clock v) call"
    by (cases "run_provider env call v") (auto simp: run_provider_def Let_def)
  show ?thesis
  proof (cases "run_Error run")
    case None
    then show ?thesis
      using 2(2) u by (auto simp: call_completed_def elim!: and_thenE append_entryE)
  next
    case (Some err)
    then have "call_failed env c call round callID err u = (Inl e, w')"
      using 2(2) u by simp
    then obtain saved x where x: "append_entry env ((call_entry c PhaseCallFailed call round)\<lparr>en_CallID := callID\<rparr>) u = (saved, x)"
      by (cases "append_entry env ((call_entry c PhaseCallFailed call round)\<lparr>en_CallID := callID\<rparr>) u") auto
    have "as_incomplete e = as_incomplete err"
      using call_failedE [OF \<open>call_failed env c call round callID err u = (Inl e, w')\<close> x] by auto
    then show ?thesis
      using parsers [of "w_Clock v" call err] Some u(2) assms(2) by simp
  qed
qed

lemma attest_keeps: "attest env w = (r, w') \<Longrightarrow> keeps w w'"
  by (rule keeps_same) (rule quiet_ops)

lemma read_keeps: "read_entries env w = (r, w') \<Longrightarrow> keeps w w'"
  by (rule keeps_same) (rule quiet_ops)

lemma clarifications_keep: "taskClarifications env i w = (r, w') \<Longrightarrow> keeps w w'"
  by (rule keeps_same) (rule quiet_ops)

lemma record_response_keeps:
  assumes "record_response env c task result round response content w = (r, w')"
  shows "keeps w w' \<and> (ready (w_Log w') \<or> (\<exists>e. r = Inl e \<and> as_incomplete e = None))"
proof -
  consider (none) "decode_outcome content = None"
    | (bad) kind where "decode_outcome content = Some kind"
        "kind \<notin> {ExecutionDone, ExecutionContinue, ExecutionQuestion, ExecutionPermission, ExecutionError}"
    | (ok) kind where "and_then (append_entry env (response_entry c task result round response kind) w)
        (\<lambda>_ w. (response_outcome task result response kind, w)) = (r, w')"
    using assms by (cases "decode_outcome content") (auto simp: record_response_def split: if_splits)
  then show ?thesis
  proof cases
    case ok
    have ord: "ordinary (response_entry c task result round response kind)"
      by (simp add: ordinary_def response_entry_def)
    from ok show ?thesis
    proof (cases rule: and_thenE)
      case (1 e)
      then show ?thesis
        using append_ordinary [OF 1(1) ord] by (auto elim: append_entryE)
    next
      case (2 i v)
      then have "w_Log v = w_Log w @ [(response_entry c task result round response kind)\<lparr>en_ID := i\<rparr>]"
        by (auto elim: append_entryE)
      then have "ready (w_Log v)"
        by (simp add: ready_response responds_def response_entry_def)
      then show ?thesis
        using append_ordinary [OF 2(1) ord] 2(2) by simp
    qed
  qed (use assms in \<open>auto simp: record_response_def keeps_same\<close>)
qed

lemma handle_keeps:
  assumes "handleExecutionResponse env c task result round w = (r, w')"
  shows "keeps w w' \<and> (ready (w_Log w') \<or> (\<exists>e. r = Inl e \<and> as_incomplete e = None))"
proof (cases "decode_text (res_Content result)")
  case None
  then show ?thesis using assms by (auto simp: handleExecutionResponse_def keeps_same)
next
  case (Some response)
  have role: "as_Role (response_call c task response cs) = ExecutionResponse" for cs
    by (simp add: response_call_def assignment_def Assignment_zero_def)
  from assms have "and_then (taskClarifications env (tk_ID task) w) (\<lambda>clarifications w.
      and_then (invoke env c (response_call c task response clarifications) round w) (\<lambda>parsed w.
      record_response env c task result round response (res_Content parsed) w)) = (r, w')"
    by (simp add: handleExecutionResponse_def Some)
  then show ?thesis
  proof (elim and_thenE, goal_cases)
    case (1 e)
    then show ?case
      using clarifications_keep [OF 1(1)] by (auto simp: taskClarifications_def split: option.splits)
  next
    case (2 cs v e)
    then show ?case
      using keeps_trans [OF clarifications_keep [OF 2(1)] invoke_keeps [OF 2(2)]] invoke_parser_error [OF 2(2)] role
      by (simp add: IsNative_def)
  next
    case (3 cs v parsed u)
    then show ?case
      using keeps_trans [OF keeps_trans [OF clarifications_keep [OF 3(1)] invoke_keeps [OF 3(2)]]]
        record_response_keeps [OF 3(3)] role by simp
  qed
qed

lemma turn_keeps:
  assumes "executeTaskTurn env c task state w = (r, w')" "ready (w_Log w)"
  shows "grows allowed w w' \<and> (\<forall>s. r = Inr s \<longrightarrow> ready (w_Log w'))"
proof -
  let ?round = "int64 (st_round state + 1)"
  let ?opening = "Entry_zero\<lparr>en_Generation := ct_Generation c, en_Phase := PhaseTaskExecuting, en_TaskID := tk_ID task, en_Round := ?round\<rparr>"
  have role: "as_Role (execution_call c task state cs) = Execute" for cs
    by (simp add: execution_call_def assignment_def Assignment_zero_def Let_def split: option.split)
  have start: "append_entry env ?opening v = (x, u) \<Longrightarrow> keeps v u" for v u x
    by (erule append_ordinary) (simp add: ordinary_def)
  note prepare = keeps_trans [OF attest_keeps keeps_trans [OF start clarifications_keep]]
  have native: "grows allowed w s" if "keeps w t" "invoke env c (execution_call c task state cs) ?round t = (x, s)" for t s cs x
    using that(1) invoke_execution [OF that(2) role] assms(2) grows_trans unfolding keeps_def by blast
  from assms(1) show ?thesis
    unfolding executeTaskTurn_def
  proof (elim and_thenE, goal_cases)
    case (1 e)
    then show ?case using attest_keeps [OF 1(1)] by (simp add: keeps_def)
  next
    case (2 x v e)
    then show ?case using keeps_trans [OF attest_keeps [OF 2(1)] start [OF 2(2)]] by (simp add: keeps_def)
  next
    case (3 x v i u e)
    then show ?case using prepare [OF 3(1-3)] by (simp add: keeps_def)
  next
    case (4 x v i u cs t e)
    then show ?case using native [OF prepare [OF 4(1-3)] 4(4)] by simp
  next
    case (5 x v i u cs t result s e)
    then show ?case
      using native [OF prepare [OF 5(1-3)] 5(4)] handle_keeps [OF 5(5)] grows_trans unfolding keeps_def by blast
  next
    case (6 x v i u cs t result s kind q)
    have "grows allowed w q \<and> ready (w_Log q)"
      using native [OF prepare [OF 6(1-3)] 6(4)] handle_keeps [OF 6(5)] grows_trans unfolding keeps_def by blast
    moreover have "w' = q" using 6(6) by (auto split: option.splits)
    ultimately show ?case by blast
  qed
qed

lemma execute_keeps:
  assumes "executeTask fuel env c task state w = Some (r, w')" "ready (w_Log w)"
  shows "grows allowed w w' \<and> (\<forall>s. r = Inr s \<longrightarrow> ready (w_Log w'))"
  using assms
proof (induction fuel arbitrary: state w)
  case (Suc fuel)
  let ?v = "tick w"
  have log: "w_Log ?v = w_Log w" by simp
  show ?case
  proof (cases "env_Cancelled env (w_Clock w)")
    case True
    then show ?thesis using Suc.prems by (auto simp: ctx_done_def grows_same)
  next
    case False
    obtain x u where x: "executeTaskTurn env c task state ?v = (x, u)" by fastforce
    have turn: "grows allowed w u \<and> (\<forall>s. x = Inr s \<longrightarrow> ready (w_Log u))"
      using turn_keeps [OF x] Suc.prems(2) by (simp add: grows_def)
    show ?thesis
    proof (cases x)
      case (Inl e)
      then show ?thesis using Suc.prems(1) False x turn by (auto simp: ctx_done_def)
    next
      case (Inr s)
      show ?thesis
      proof (cases "st_continueExecution s")
        case True
        then have "executeTask fuel env c task s u = Some (r, w')"
          using Suc.prems(1) False x Inr by (simp add: ctx_done_def)
        then show ?thesis
          using Suc.IH turn Inr grows_trans by blast
      next
        case stop: False
        then show ?thesis using Suc.prems(1) False x turn Inr by (auto simp: ctx_done_def)
      qed
    qed
  qed
qed simp

lemma parse_review_keeps:
  assumes "parse_review env c message parser result response round w = (r, w')" "as_Role parser = ReviewResponse"
  shows "keeps w w' \<and> (\<forall>v. r = Inr v \<longrightarrow> rv_Findings v = [] \<longrightarrow> (\<exists>e\<in>set (w_Log w'). clean_review (res_CallID result) e))"
proof -
  from assms(1) show ?thesis
    unfolding parse_review_def
  proof (elim and_thenE, goal_cases)
    case (1 e)
    then show ?case using invoke_keeps [OF 1(1)] assms(2) by simp
  next
    case (2 parsed u)
    have u: "keeps w u" using invoke_keeps [OF 2(1)] assms(2) by simp
    show ?case
    proof (cases "interpret_review (call_task parser) response (res_Content parsed)")
      case (Inl err)
      let ?e = "(review_entry c (call_task parser) result parsed round)
          \<lparr>en_Phase := PhaseReviewParseRejected, en_Role := ReviewResponse, en_Notes := [message err]\<rparr>"
      have "ordinary ?e" by (simp add: ordinary_def)
      then have "append_entry env ?e u = (x, v) \<Longrightarrow> keeps w v" for x v
        using append_ordinary keeps_trans [OF u] by blast
      then show ?thesis
        using 2(2) Inl by (auto elim!: and_thenE)
    next
      case (Inr rr)
      let ?e = "(review_entry c (call_task parser) result parsed round)
          \<lparr>en_Phase := PhaseReviewResponse, en_Role := Review, en_ResponseKind := rr_Kind rr,
           en_ReviewResponse := Some rr, en_Notes := [response]\<rparr>"
      have "ordinary ?e" by (simp add: ordinary_def)
      then have app: "append_entry env ?e u = (x, v) \<Longrightarrow> keeps w v" for x v
        using append_ordinary keeps_trans [OF u] by blast
      have "\<exists>e\<in>set (w_Log v). clean_review (res_CallID result) e"
        if "append_entry env ?e u = (Inr i, v)" "\<not> asks_owner (rr_Kind rr)" "rv_Findings (rr_ReviewResult rr) = []" for i v
        using that(1) interpreted_clean [OF Inr that(2,3)] that(3)
        by (auto simp: clean_review_def review_entry_def elim!: append_entryE)
      then show ?thesis
        using 2(2) Inr by (auto elim!: and_thenE dest: app split: if_splits)
    qed
  qed
qed

lemma review_keeps:
  assumes "review env c message scope round pending w = (r, w')" "as_Role scope \<noteq> Execute"
  shows "keeps w w' \<and> (\<forall>v res. r = Inr (v, res) \<longrightarrow> rv_Findings v = [] \<longrightarrow> (\<exists>e\<in>set (w_Log w'). clean_review (res_CallID res) e))"
proof -
  have first: "keeps w v" if "review_result env c scope round pending w = (x, v)" for x v
    using that invoke_keeps [OF _ assms(2)] by (auto simp: review_result_def keeps_same split: option.splits)
  from assms(1) show ?thesis
    unfolding review_def
  proof (elim and_thenE, goal_cases)
    case (1 e)
    then show ?case using first by auto
  next
    case (2 result u)
    note u = first [OF 2(1)]
    show ?case
    proof (cases "decode_text (res_Content result)")
      case None
      then show ?thesis using 2(2) u by auto
    next
      case (Some response)
      show ?thesis
      proof (cases "blank response")
        case True
        then show ?thesis using 2(2) u Some by auto
      next
        case False
        let ?rest = "\<lambda>entries w. case scan_reviews (res_CallID result) response [] entries of
            Inl recorded \<Rightarrow> (Inr (reviewTaskResult (call_task scope) recorded response, result), w)
          | Inr notes \<Rightarrow>
              and_then (parse_review env c message (review_parser c scope response notes) result response round w)
                (\<lambda>r w. (Inr (r, result), w))"
        have "and_then (read_entries env u) ?rest = (r, w')"
          using 2(2) Some False by simp
        then show ?thesis
        proof (cases rule: and_thenE)
          case (1 e)
          then show ?thesis using keeps_trans [OF u read_keeps [OF 1(1)]] by simp
        next
          case read: (2 entries v)
          have v: "keeps w v" "entries = w_Log v"
            using keeps_trans [OF u read_keeps [OF read(1)]] read(1) by (auto simp: read_entries_def split: if_splits)
          show ?thesis
          proof (cases "scan_reviews (res_CallID result) response [] entries")
            case (Inl recorded)
            then have "r = Inr (reviewTaskResult (call_task scope) recorded response, result)" "w' = v"
              using read(2) by auto
            then show ?thesis
              using v scan_recorded [OF Inl] by (auto dest: recorded_clean)
          next
            case (Inr ns)
            have role: "as_Role (review_parser c scope response ns) = ReviewResponse"
              by (simp add: review_parser_def assignment_def Assignment_zero_def)
            from read(2) Inr have "and_then (parse_review env c message (review_parser c scope response ns) result response round v)
                (\<lambda>r w. (Inr (r, result), w)) = (r, w')" by simp
            then show ?thesis
            proof (cases rule: and_thenE)
              case (1 e)
              then show ?thesis using keeps_trans [OF v(1)] parse_review_keeps [OF 1(1) role] by simp
            next
              case (2 y x)
              then show ?thesis using keeps_trans [OF v(1)] parse_review_keeps [OF 2(1) role] by auto
            qed
          qed
        qed
      qed
    qed
  qed
qed

lemma review_turn_keeps:
  assumes "review_turn env c message task state w = (r, w')"
  shows "keeps w w'"
proof -
  have role: "as_Role (review_call c task state cs) \<noteq> Execute" for cs
    by (simp add: review_call_def assignment_def Assignment_zero_def Let_def)
  have clean: "ready (w_Log v) \<longrightarrow> ready (w_Log u)" "grows allowed v u"
    if "append_entry env e v = (x, u)" "en_Phase e = PhaseTaskAccepted" "\<exists>r\<in>set (w_Log v). clean_review (en_CallID e) r" for e v x u
  proof -
    have ok: "en_Phase (e\<lparr>en_ID := i\<rparr>) = PhaseTaskAccepted" "en_CallID (e\<lparr>en_ID := i\<rparr>) = en_CallID e" for i
      using that(2) by simp_all
    show "grows allowed v u"
      using that(3) by (intro append_allowed [OF that(1)]) (metis allowed_accept ok)
    show "ready (w_Log v) \<longrightarrow> ready (w_Log u)"
      using that(1) by (cases rule: append_entryE) (simp_all add: ready_accept ok)
  qed
  from assms show ?thesis
    unfolding review_turn_def
  proof (elim and_thenE, goal_cases)
    case (1 e)
    then show ?case using attest_keeps by blast
  next
    case (2 x v e)
    then show ?case using keeps_trans [OF attest_keeps [OF 2(1)] clarifications_keep [OF 2(2)]] by simp
  next
    case (3 x v cs u e)
    then show ?case
      using keeps_trans [OF keeps_trans [OF attest_keeps [OF 3(1)] clarifications_keep [OF 3(2)]]] review_keeps [OF 3(3) role] by blast
  next
    case (4 x v cs u vr s)
    obtain verdict result where vr: "vr = (verdict, result)" by (cases vr)
    have s: "keeps w s" "rv_Findings verdict = [] \<longrightarrow> (\<exists>e\<in>set (w_Log s). clean_review (res_CallID result) e)"
      using keeps_trans [OF keeps_trans [OF attest_keeps [OF 4(1)] clarifications_keep [OF 4(2)]]] review_keeps [OF 4(3) role] vr by blast+
    show ?case
    proof (cases "rv_Findings verdict = []")
      case True
      have "keeps s q" if "append_entry env (Entry_zero\<lparr>en_Generation := ct_Generation c, en_Phase := PhaseTaskAccepted,
          en_TaskID := tk_ID task, en_CallID := res_CallID result, en_Round := st_round state\<rparr>) s = (y, q)" for y q
        using clean [OF that] s(2) True by (simp add: keeps_def)
      then show ?thesis
        using 4(4) True vr keeps_trans [OF s(1)] by (auto simp: Let_def elim!: and_thenE)
    next
      case False
      have "keeps s q" if "append_entry env (Entry_zero\<lparr>en_Generation := ct_Generation c, en_Phase := PhaseTaskReviewed,
          en_TaskID := tk_ID task, en_Round := st_round state, en_Findings := rv_Findings verdict\<rparr>) s = (y, q)" for y q
        using append_ordinary [OF that] by (simp add: ordinary_def)
      then show ?thesis
        using 4(4) False vr keeps_trans [OF s(1)] by (auto simp: Let_def elim!: and_thenE)
    qed
  qed
qed

lemma review_loop_grows:
  assumes "review_loop fuel env c message task state w = Some (r, w')" "ready (w_Log w)"
  shows "grows allowed w w'"
  using assms
proof (induction fuel arbitrary: state w)
  case (Suc fuel)
  show ?case
  proof (cases "env_Cancelled env (w_Clock w)")
    case True
    then show ?thesis using Suc.prems by (auto simp: ctx_done_def grows_same)
  next
    case False
    obtain x u where x: "review_turn env c message task state (tick w) = (x, u)" by fastforce
    have turn: "grows allowed w u" "ready (w_Log u)"
      using review_turn_keeps [OF x] Suc.prems(2) by (auto simp: keeps_def grows_def)
    show ?thesis
    proof (cases "\<exists>s. x = Inr (s, False)")
      case True
      then obtain s where s: "x = Inr (s, False)" ..
      obtain y v where y: "executeTask fuel env c task s u = Some (y, v)"
        using Suc.prems(1) False x s by (auto simp: ctx_done_def split: option.splits)
      note e = execute_keeps [OF y turn(2)]
      show ?thesis
      proof (cases y)
        case (Inl err)
        then show ?thesis using Suc.prems(1) False x s y e grows_trans [OF turn(1)] by (simp add: ctx_done_def)
      next
        case (Inr s')
        then have "review_loop fuel env c message task s' v = Some (r, w')"
          using Suc.prems(1) False x s y by (simp add: ctx_done_def)
        then show ?thesis
          using Suc.IH e Inr grows_trans [OF turn(1)] grows_trans by blast
      qed
    next
      case no: False
      then show ?thesis
        using Suc.prems(1) False x turn(1) by (auto simp: ctx_done_def split: sum.splits if_splits)
    qed
  qed
qed simp

lemma runTask_grows:
  assumes "runTask fuel env c message task state w = Some (r, w')" "ready (w_Log w)"
  shows "grows allowed w w'"
proof (cases "st_inputRequired state")
  case (Some request)
  then show ?thesis using assms(1) by (simp add: runTask_def grows_same)
next
  case None
  show ?thesis
  proof (cases "st_started state (tk_ID task)")
    case True
    then show ?thesis using assms None by (simp add: runTask_def review_loop_grows)
  next
    case False
    let ?s = "state\<lparr>st_started := (st_started state)(tk_ID task := True)\<rparr>"
    obtain y v where y: "executeTask fuel env c task ?s w = Some (y, v)"
      using assms(1) None False by (auto simp: runTask_def split: option.splits)
    note e = execute_keeps [OF y assms(2)]
    show ?thesis
    proof (cases y)
      case (Inl err)
      then show ?thesis using assms(1) None False y e by (simp add: runTask_def)
    next
      case (Inr s')
      then have "review_loop fuel env c message task s' v = Some (r, w')"
        using assms(1) None False y by (simp add: runTask_def)
      then show ?thesis
        using review_loop_grows e Inr grows_trans by blast
    qed
  qed
qed

lemma settle_pending_keeps:
  assumes "settle_pending env c task (projectTaskState task (w_Log w)) w = (r, w')"
  shows "grows allowed w w' \<and> (\<forall>s. r = Inr s \<longrightarrow> ready (w_Log w'))"
proof (cases "st_pendingResponse (projectTaskState task (w_Log w))")
  case None
  then show ?thesis using assms ready_projected [OF None] by (auto simp: settle_pending_def grows_same)
next
  case (Some pending)
  let ?s = "projectTaskState task (w_Log w)"
  obtain x u where x: "handleExecutionResponse env c task pending (st_round ?s) w = (x, u)" by fastforce
  note h = handle_keeps [OF x]
  show ?thesis
  proof (cases x)
    case (Inl e)
    then show ?thesis
      using assms Some x h by (auto simp: settle_pending_def keeps_def split: option.splits if_splits)
  next
    case (Inr kind)
    then show ?thesis
      using assms Some x h by (auto simp: settle_pending_def keeps_def split: option.splits)
  qed
qed

lemma resumeTask_grows:
  assumes "resumeTask fuel env c message task w = Some (r, w')"
  shows "grows allowed w w'"
proof (cases "or_else (validateTaskExecution c) (Task_Validate task)")
  case (Some e)
  then show ?thesis using assms by (simp add: resumeTask_def grows_same)
next
  case None
  obtain x u where x: "read_entries env w = (x, u)" by fastforce
  have u: "w_Log u = w_Log w" using quiet_ops(2) [OF x] .
  show ?thesis
  proof (cases x)
    case (Inl e)
    then show ?thesis using assms None x u by (simp add: resumeTask_def grows_same)
  next
    case (Inr entries)
    let ?s = "projectTaskState task entries"
    have entries: "entries = w_Log u" using x Inr by (auto simp: read_entries_def split: if_splits)
    show ?thesis
    proof (cases "st_accepted ?s (tk_ID task) \<or> must_stop ?s \<noteq> None")
      case True
      then show ?thesis using assms None x u Inr by (auto simp: resumeTask_def grows_same Let_def split: if_splits)
    next
      case False
      obtain y v where y: "settle_pending env c task ?s u = (y, v)" by fastforce
      note s = settle_pending_keeps [OF y [unfolded entries]]
      show ?thesis
      proof (cases y)
        case (Inl e)
        then show ?thesis using assms None x u Inr False y s by (simp add: resumeTask_def grows_def)
      next
        case Inr': (Inr s')
        then have "runTask fuel env c message task s' v = Some (r, w')"
          using assms None x Inr False y by (simp add: resumeTask_def)
        then have "grows allowed u w'"
          using runTask_grows s Inr' grows_trans by blast
        then show ?thesis using u by (simp add: grows_def)
      qed
    qed
  qed
qed

lemma record_interruption_keeps:
  assumes "record_interruption env c task e f w = (r, w')"
  shows "keeps w w'"
proof -
  obtain x u where x: "read_entries env w = (x, u)" by fastforce
  have "ordinary (interruption c task f)" by (simp add: ordinary_def interruption_def)
  then have "append_entry env (interruption c task f) u = (y, v) \<Longrightarrow> keeps u v" for y v
    by (rule append_ordinary [rotated])
  moreover have "w' = u \<or> (\<exists>y. append_entry env (interruption c task f) u = (y, w'))"
    using assms x by (auto simp: record_interruption_def join_errors_def Let_def split: sum.splits if_splits prod.splits)
  ultimately show ?thesis
    using read_keeps [OF x] keeps_trans by blast
qed

lemma RunTask_grows:
  assumes "RunTask fuel env c message task w = Some (r, w')"
  shows "grows allowed w w'"
proof -
  obtain x u where x: "resumeTask fuel env c message task w = Some (x, u)"
    using assms by (auto simp: RunTask_def split: option.splits)
  note u = resumeTask_grows [OF x]
  show ?thesis
  proof (cases "\<exists>e f. x = Inl e \<and> as_incomplete e = Some f")
    case True
    then obtain e f where "x = Inl e" "as_incomplete e = Some f" by blast
    then have "record_interruption env c task e f u = (r, w')"
      using assms x by (simp add: RunTask_def)
    then show ?thesis
      using record_interruption_keeps u grows_trans unfolding keeps_def by blast
  next
    case False
    then have "w' = u" using assms x by (auto simp: RunTask_def split: sum.splits option.splits)
    then show ?thesis using u by simp
  qed
qed

end

section \<open>The two rules\<close>

text \<open>The environments in which others append only ordinary entries while a provider runs, and in which a
  parser never reports an incomplete task. \<open>calm\<close> makes an environment such a one.\<close>

definition calm :: "environment \<Rightarrow> environment" where
  "calm env = env\<lparr>env_Run := \<lambda>n call.
     let run = env_Run env n call in
     run\<lparr>run_Journal := filter ordinary (run_Journal run),
       run_Error := (case run_Error run of
          Some err \<Rightarrow> if \<not> IsNative (as_Role call) \<and> as_incomplete err \<noteq> None then Some ProviderFailed else Some err
        | None \<Rightarrow> None)\<rparr>\<rparr>"

definition quiet :: "environment \<Rightarrow> bool" where
  "quiet env \<longleftrightarrow> (\<forall>n call. (\<forall>e\<in>set (run_Journal (env_Run env n call)). ordinary e) \<and>
     (\<forall>err. run_Error (env_Run env n call) = Some err \<longrightarrow> \<not> IsNative (as_Role call) \<longrightarrow> as_incomplete err = None))"

lemma calm_quiet: "quiet env \<Longrightarrow> calm env = env"
  by (cases env) (auto simp: calm_def quiet_def Let_def fun_eq_iff filter_id_conv split: option.split)

text \<open>An acceptance follows a review without findings, of the call it names.\<close>

definition acceptance_rule :: "Entry list \<Rightarrow> Entry \<Rightarrow> bool" where
  "acceptance_rule log e \<longleftrightarrow> (en_Phase e = PhaseTaskAccepted \<longrightarrow> (\<exists>r\<in>set log. clean_review (en_CallID e) r))"

text \<open>A native execution of the task starts only when no native result waits for its interpretation.\<close>

definition settled :: "Task \<Rightarrow> Entry list \<Rightarrow> bool" where
  "settled task log \<longleftrightarrow> st_pendingResponse (projectTaskState task log) = None"

definition execution_rule :: "Task \<Rightarrow> Entry list \<Rightarrow> Entry \<Rightarrow> bool" where
  "execution_rule task log e \<longleftrightarrow> (opens_execution e \<longrightarrow> settled task log)"

lemma project_snoc: "projectTaskState task (log @ [e]) = project_entry task e (projectTaskState task log)"
  by (simp add: projectTaskState_def)

lemma clear_review_pending [simp]: "st_pendingResponse (clear_review s) = st_pendingResponse s"
  by (simp add: clear_review_def)

lemma projectReviewEntry_pending [simp]: "st_pendingResponse (projectReviewEntry s e) = st_pendingResponse s"
  by (simp add: projectReviewEntry_def Let_def split: Phase.split)

lemma project_acceptance_pending [simp]: "st_pendingResponse (project_acceptance s e) = st_pendingResponse s"
  by (simp add: project_acceptance_def split: Phase.split)

lemma project_round_pending [simp]: "st_pendingResponse (project_round s e) = st_pendingResponse s"
  by (simp add: project_round_def)

lemma project_response_pending [simp]: "st_pendingResponse (project_response task s e) = None"
  by (simp add: project_response_def Let_def)

lemma project_phase_pending:
  "en_Phase e \<noteq> PhaseResponseRecovery \<Longrightarrow> \<not> completes_execution e \<Longrightarrow> st_pendingResponse s = None \<Longrightarrow>
   st_pendingResponse (project_phase task s e) = None"
  by (auto simp: project_phase_def completes_execution_def Let_def split: Phase.split option.split)

lemma settled_snoc:
  "en_Phase e \<noteq> PhaseResponseRecovery \<Longrightarrow> \<not> completes_execution e \<Longrightarrow> settled task log \<Longrightarrow> settled task (log @ [e])"
  by (simp add: settled_def project_snoc project_entry_def Let_def project_phase_pending)

lemma settled_response: "responds task e \<Longrightarrow> settled task (log @ [e])"
  by (simp add: settled_def project_snoc project_entry_def Let_def responds_def project_phase_def)

interpretation acceptance: journal_rule task "calm env" acceptance_rule "\<lambda>_. True" for task env
proof
  fix e n call and log :: "Entry list"
  show "e \<in> set (run_Journal (env_Run (calm env) n call)) \<Longrightarrow> ordinary e"
    by (simp add: calm_def Let_def)
  show "run_Error (env_Run (calm env) n call) = Some err \<Longrightarrow> \<not> IsNative (as_Role call) \<Longrightarrow> as_incomplete err = None" for err
    by (auto simp: calm_def Let_def split: option.splits if_splits)
qed (auto simp: acceptance_rule_def ordinary_def opens_execution_def completes_execution_def)

interpretation execution: journal_rule task "calm env" "execution_rule task" "settled task" for task env
proof
  fix e and log :: "Entry list"
  show "ordinary e \<Longrightarrow> settled task log \<Longrightarrow> settled task (log @ [e])"
    by (rule settled_snoc) (auto simp: ordinary_def completes_execution_def)
  show "opens_execution e \<Longrightarrow> settled task log \<Longrightarrow> settled task (log @ [e])"
    by (rule settled_snoc) (auto simp: opens_execution_def completes_execution_def)
  show "en_Phase e = PhaseTaskAccepted \<Longrightarrow> settled task log \<Longrightarrow> settled task (log @ [e])"
    by (rule settled_snoc) (auto simp: completes_execution_def)
  show "responds task e \<Longrightarrow> settled task (log @ [e])"
    by (rule settled_response)
  show "e \<in> set (run_Journal (env_Run (calm env) n call)) \<Longrightarrow> ordinary e" for n call
    by (rule acceptance.journal)
  show "run_Error (env_Run (calm env) n call) = Some err \<Longrightarrow> \<not> IsNative (as_Role call) \<Longrightarrow> as_incomplete err = None" for n call err
    by (rule acceptance.parsers)
qed (auto simp: execution_rule_def settled_def ordinary_def opens_execution_def completes_execution_def)

end
