(* ===== verification/Controller_Laws.thy ===== *)
theory Controller_Laws
  imports Journal_Rules Contract_Laws Exact_Laws
begin

text \<open>
  What a run of a task guarantees: acceptance only after a review without findings, and no second native
  execution of a result that waits for its interpretation. Both follow from rules of the journal.
\<close>

section \<open>A sample run\<close>

definition sample_answer :: "Role \<Rightarrow> string" where
  "sample_answer role =
     (if role = ExecutionResponse then ''{'' @ quoted ''kind'' @ '':'' @ quoted ''done'' @ ''}''
      else if role = ReviewResponse
      then ''{'' @ quoted ''kind'' @ '':'' @ quoted ''done'' @ '','' @ quoted ''findings'' @ '':[],'' @ quoted ''verification'' @ '':'' @ quoted ''ok'' @ ''}''
      else quoted ''finished'')"

definition sample_env :: environment where
  "sample_env =
     \<lparr>env_Cancelled = (\<lambda>_. False), env_Attest = (\<lambda>_. True), env_Read = (\<lambda>_. True),
      env_Append = (\<lambda>n _. Some (int n + 1)), env_Clarifications = (\<lambda>_ _. Some []),
      env_Run = (\<lambda>_ call. \<lparr>run_Journal = [], run_Result = \<lparr>res_CallID = 0, res_Provider = ''codex'', res_Model = ''m'',
          res_ThreadID = ''thread'', res_TurnID = ''turn'', res_Completed = True, res_Content = sample_answer (as_Role call),
          res_Evidence = []\<rparr>, run_Error = None\<rparr>)\<rparr>"

definition sample_run :: "unit outcome option" where
  "sample_run = RunTask 1 sample_env sample_controller (\<lambda>_. ''rejected'') sample_work \<lparr>w_Log = [], w_Clock = 0\<rparr>"

definition sample_world :: world where
  "sample_world = snd (the sample_run)"

lemma sample_quiet: "quiet sample_env"
  by (simp add: quiet_def sample_env_def)

lemma sample_decodes:
  "decode_text (quoted ''finished'') = Some ''finished''"
  "decode_outcome (sample_answer ExecutionResponse) = Some ExecutionDone"
  "interpret_review tid response (sample_answer ReviewResponse) = Inr \<lparr>rr_Kind = ExecutionDone, rr_ReviewResult = \<lparr>rv_Findings = [], rv_Verification = ''ok''\<rparr>\<rparr>"
proof -
  have r: "decode_review (sample_answer ReviewResponse) = Some \<lparr>rr_Kind = ExecutionDone, rr_ReviewResult = \<lparr>rv_Findings = [], rv_Verification = ''ok''\<rparr>\<rparr>"
    by code_simp
  show "interpret_review tid response (sample_answer ReviewResponse) = Inr \<lparr>rr_Kind = ExecutionDone, rr_ReviewResult = \<lparr>rv_Findings = [], rv_Verification = ''ok''\<rparr>\<rparr>"
    by (simp add: interpret_review_def r settle_review_def reviewTaskResult_def)
qed code_simp+

lemma sample_ops:
  "ctx_done sample_env w = (False, tick w)" "attest sample_env w = (Inr (), tick w)"
  "read_entries sample_env w = (Inr (w_Log w), tick w)" "taskClarifications sample_env i w = (Inr [], tick w)"
  "append_entry sample_env e w = (Inr (int (w_Clock w) + 1), tick (w\<lparr>w_Log := w_Log w @ [e\<lparr>en_ID := int (w_Clock w) + 1\<rparr>]\<rparr>))"
  "run_provider sample_env call w = (env_Run sample_env 0 call, tick w)"
  by (simp_all add: ctx_done_def attest_def read_entries_def taskClarifications_def append_entry_def run_provider_def sample_env_def tick_def)

definition sample_result :: "int \<Rightarrow> Role \<Rightarrow> Result" where
  "sample_result i role =
     \<lparr>res_CallID = i, res_Provider = ''codex'', res_Model = ''m'', res_ThreadID = ''thread'', res_TurnID = ''turn'',
      res_Completed = True, res_Content = sample_answer role, res_Evidence = []\<rparr>"

lemma sample_provider_run:
  "run_Error (env_Run sample_env n call) = None"
  "(run_Result (env_Run sample_env n call))\<lparr>res_CallID := i, res_Evidence := []\<rparr> = sample_result i (as_Role call)"
  by (simp_all add: sample_env_def sample_result_def)

lemma sample_invoke:
  "invoke sample_env c call round w =
     (Inr (sample_result (int (w_Clock w) + 1) (as_Role call)),
      w\<lparr>w_Log := w_Log w @ [(call_entry c PhaseCallOpened call round)\<lparr>en_Assignment := Some call, en_ID := int (w_Clock w) + 1\<rparr>,
          (call_entry c PhaseCallCompleted call round)\<lparr>en_CallID := int (w_Clock w) + 1,
             en_Result := Some (sample_result (int (w_Clock w) + 1) (as_Role call)), en_ID := int (w_Clock w) + 3\<rparr>],
        w_Clock := w_Clock w + 3\<rparr>)"
proof -
  have "res_CallID (sample_result i role) = i" for i role
    by (simp add: sample_result_def)
  then show ?thesis
    by (simp add: invoke_def sample_ops and_then_def call_completed_def sample_provider_run tick_def)
qed

lemmas sample_eval = sample_ops sample_invoke and_then_def sample_decodes asks_owner_def Let_def tick_def

lemma sample_turn_run:
  "\<exists>s v. executeTaskTurn sample_env c task state w = (Inr s, v) \<and> \<not> st_continueExecution s \<and> st_pendingReview s = None \<and>
     (\<forall>e\<in>set (w_Log v). e \<in> set (w_Log w) \<or> en_Phase e \<notin> {PhaseReviewResponse, PhaseReviewParseRejected}) \<and>
     (\<exists>a b rest. w_Log v = w_Log w @ a # b # rest \<and> opens_execution b)"
proof -
  have "as_Role (execution_call c task state cs) = Execute" for cs
    by (simp add: execution_call_def assignment_def Assignment_zero_def Let_def split: option.split)
  moreover have "as_Role (response_call c task response cs) = ExecutionResponse" for response cs
    by (simp add: response_call_def assignment_def Assignment_zero_def)
  moreover have "res_Content (sample_result i Execute) = quoted ''finished''"
    "res_Content (sample_result i ExecutionResponse) = sample_answer ExecutionResponse" for i
    by (simp_all add: sample_result_def sample_answer_def)
  ultimately show ?thesis
    by (auto simp: executeTaskTurn_def handleExecutionResponse_def record_response_def response_outcome_def
        recordExecutionResult_def clear_review_def call_entry_def response_entry_def opens_execution_def sample_eval)
qed

lemma scan_nothing:
  "\<forall>e\<in>set entries. en_Phase e \<notin> {PhaseReviewResponse, PhaseReviewParseRejected} \<Longrightarrow> scan_reviews callID response ns entries = Inr ns"
  by (induction entries) (auto simp: recorded_review_def)

lemma sample_review_run:
  assumes "\<forall>e\<in>set (w_Log w). en_Phase e \<notin> {PhaseReviewResponse, PhaseReviewParseRejected}" "st_pendingReview state = None"
  shows "\<exists>s v. review_turn sample_env c message task state w = (Inr (s, True), v) \<and> w_Log v \<noteq> [] \<and> en_Phase (last (w_Log v)) = PhaseTaskAccepted"
proof -
  have "as_Role (review_call c task state cs) = Review" for cs
    by (simp add: review_call_def assignment_def Assignment_zero_def Let_def)
  moreover have "as_Role (review_parser c scope response ns) = ReviewResponse" for scope response ns
    by (simp add: review_parser_def assignment_def Assignment_zero_def)
  moreover have "res_Content (sample_result i Review) = quoted ''finished''"
    "res_Content (sample_result i ReviewResponse) = sample_answer ReviewResponse" for i
    by (simp_all add: sample_result_def sample_answer_def)
  moreover have "\<not> blank ''finished''" by code_simp
  moreover have "scan_reviews i response [] (w_Log w @ [(call_entry c PhaseCallOpened call round)\<lparr>en_Assignment := a, en_ID := j\<rparr>,
      (call_entry c PhaseCallCompleted call round)\<lparr>en_CallID := k, en_Result := r, en_ID := l\<rparr>]) = Inr []" for i response call round a j k r l
    using assms(1) by (intro scan_nothing) (auto simp: call_entry_def)
  ultimately show ?thesis
    using assms(2) by (simp add: review_turn_def review_def review_result_def parse_review_def sample_eval)
qed

lemma sample_run_accepts:
  "sample_run = Some (Inr (), sample_world)" "w_Log sample_world \<noteq> []" "en_Phase (last (w_Log sample_world)) = PhaseTaskAccepted"
  "\<exists>a b rest. w_Log sample_world = a # b # rest \<and> opens_execution b"
proof -
  let ?w = "\<lparr>w_Log = [], w_Clock = 0\<rparr>"
  have valid: "or_else (validateTaskExecution sample_controller) (Task_Validate sample_work) = None"
    by code_simp
  let ?s = "taskState_zero\<lparr>st_tasks := [tk_ID sample_work \<mapsto> sample_work]\<rparr>"
  let ?t = "?s\<lparr>st_started := (\<lambda>_. False)(tk_ID sample_work := True)\<rparr>"
  obtain s v where turn: "executeTaskTurn sample_env sample_controller sample_work ?t (tick (tick ?w)) = (Inr s, v)" "\<not> st_continueExecution s"
      "st_pendingReview s = None" "\<forall>e\<in>set (w_Log v). en_Phase e \<notin> {PhaseReviewResponse, PhaseReviewParseRejected}"
      "\<exists>a b rest. w_Log v = a # b # rest \<and> opens_execution b"
    using sample_turn_run [of sample_controller sample_work ?t "tick (tick ?w)"] by auto
  obtain s' u where rev: "review_turn sample_env sample_controller (\<lambda>_. ''rejected'') sample_work s (tick v) = (Inr (s', True), u)"
      "w_Log u \<noteq> []" "en_Phase (last (w_Log u)) = PhaseTaskAccepted"
    using sample_review_run [of "tick v" s sample_controller "\<lambda>_. ''rejected''" sample_work] turn(3,4) by auto
  have fields: "st_inputRequired ?s = None" "st_started ?s = (\<lambda>_. False)" "st_accepted ?s = (\<lambda>_. False)"
    "st_pendingResponse ?s = None" "st_incomplete ?s = None"
    by (simp_all add: taskState_zero_def)
  have exec: "executeTask (Suc 0) sample_env sample_controller sample_work ?t (tick ?w) = Some (Inr s, v)"
    using turn(1,2) by (simp add: sample_ops)
  have loop: "review_loop (Suc 0) sample_env sample_controller (\<lambda>_. ''rejected'') sample_work s v = Some (Inr (), u)"
    using rev(1) by (simp add: sample_ops)
  have "runTask (Suc 0) sample_env sample_controller (\<lambda>_. ''rejected'') sample_work ?s (tick ?w) = Some (Inr (), u)"
    unfolding runTask_def fields option.case using exec loop by simp
  moreover have "settle_pending sample_env sample_controller sample_work ?s (tick ?w) = (Inr ?s, tick ?w)" "must_stop ?s = None"
    by (simp_all add: settle_pending_def must_stop_def fields del: taskState.ext_inject)
  ultimately have "resumeTask (Suc 0) sample_env sample_controller (\<lambda>_. ''rejected'') sample_work ?w = Some (Inr (), u)"
    unfolding resumeTask_def valid option.case sample_ops(3) prod.case sum.case Let_def world.simps projectTaskState_def fold.simps id_apply
    by (simp add: fields)
  then have run: "sample_run = Some (Inr (), u)"
    by (simp add: sample_run_def RunTask_def)
  then have "sample_world = u"
    unfolding sample_world_def run by simp
  then show "sample_run = Some (Inr (), sample_world)" "w_Log sample_world \<noteq> []" "en_Phase (last (w_Log sample_world)) = PhaseTaskAccepted"
    using run rev by simp_all
  have "grows acceptance_rule (tick v) u"
    using acceptance.review_turn_keeps [of sample_env, unfolded calm_quiet [OF sample_quiet], OF rev(1)] acceptance.keeps_def by blast
  then show "\<exists>a b rest. w_Log sample_world = a # b # rest \<and> opens_execution b"
    using turn(5) \<open>sample_world = u\<close> by (auto simp: grows_def)
qed

section \<open>Rules of the journal\<close>

lemma lawful_split: "lawful allowed log new \<Longrightarrow> new = pre @ e # post \<Longrightarrow> allowed (log @ pre) e"
  by simp





end
