(* ===== verification/Controller_Progress.thy ===== *)
theory Controller_Progress
  imports Controller_Laws
begin

text \<open>Termination of a run, what a second run finds, and the handoff of an incomplete task.\<close>

section \<open>The clock\<close>

lemma clock_ops:
  "attest env w = (r, w') \<Longrightarrow> w_Clock w \<le> w_Clock w'"
  "read_entries env w = (r2, w') \<Longrightarrow> w_Clock w \<le> w_Clock w'"
  "taskClarifications env i w = (r3, w') \<Longrightarrow> w_Clock w \<le> w_Clock w'"
  "append_entry env e w = (r4, w') \<Longrightarrow> w_Clock w \<le> w_Clock w'"
  "run_provider env call w = (r5, w') \<Longrightarrow> w_Clock w \<le> w_Clock w'"
  "ctx_done env w = (r6, w') \<Longrightarrow> w_Clock w \<le> w_Clock w'"
  by (auto simp: attest_def read_entries_def taskClarifications_def append_entry_def run_provider_def ctx_done_def Let_def
      tick_def split: option.splits)

lemma and_then_clock:
  assumes "and_then r f = (x, w')" "\<And>y v. r = (y, v) \<Longrightarrow> w_Clock w \<le> w_Clock v"
    and "\<And>y v. r = (Inr y, v) \<Longrightarrow> f y v = (x, w') \<Longrightarrow> w_Clock v \<le> w_Clock w'"
  shows "w_Clock w \<le> w_Clock w'"
  using assms(1)
proof (cases rule: and_thenE)
  case (2 y v)
  then show ?thesis using assms(2) [OF 2(1)] assms(3) [OF 2] by simp
qed (simp add: assms(2))

lemma call_failed_clock: "call_failed env c call round callID err w = (r, w') \<Longrightarrow> w_Clock w \<le> w_Clock w'"
  by (auto simp: call_failed_def Let_def join_errors_def split: prod.splits sum.splits if_splits dest!: clock_ops)

lemma invoke_clock: "invoke env c call round w = (r, w') \<Longrightarrow> w_Clock w \<le> w_Clock w'"
  unfolding invoke_def
proof (erule and_then_clock)
  fix y v
  assume "(let (run, w) = run_provider env call v in
      case run_Error run of None \<Rightarrow> call_completed env c call round ((run_Result run)\<lparr>res_CallID := y, res_Evidence := []\<rparr>) w
      | Some err \<Rightarrow> call_failed env c call round y err w) = (r, w')"
  then show "w_Clock v \<le> w_Clock w'"
    by (auto simp: call_completed_def split: prod.splits option.splits dest!: call_failed_clock clock_ops(5) elim!: and_thenE)
      (metis clock_ops(4) le_trans)+
qed (erule clock_ops)

lemma handle_clock:
  assumes "handleExecutionResponse env c task result round w = (r, w')"
  shows "w_Clock w \<le> w_Clock w'"
proof -
  have rec: "w_Clock v \<le> w_Clock u" if "record_response env c task result round response content v = (x, u)" for v u x response content
    using that by (auto simp: record_response_def split: option.splits if_splits elim!: and_thenE dest: clock_ops(4))
  from assms show ?thesis
    unfolding handleExecutionResponse_def
    by (cases "decode_text (res_Content result)")
      (auto elim!: and_thenE dest!: clock_ops(3) invoke_clock rec)
qed

lemma turn_clock:
  assumes "executeTaskTurn env c task state w = (r, w')"
  shows "w_Clock w \<le> w_Clock w'"
  using assms unfolding executeTaskTurn_def
  by (auto elim!: and_thenE dest!: clock_ops(1,3,4) invoke_clock handle_clock split: option.splits)

lemma parse_review_clock: "parse_review env c message parser result response round w = (r, w') \<Longrightarrow> w_Clock w \<le> w_Clock w'"
  unfolding parse_review_def
  by (auto elim!: and_thenE dest!: clock_ops(4) invoke_clock split: sum.splits if_splits)

lemma review_clock: "review env c message scope round pending w = (r, w') \<Longrightarrow> w_Clock w \<le> w_Clock w'"
  unfolding review_def review_result_def
  by (auto elim!: and_thenE dest!: clock_ops(2) invoke_clock parse_review_clock split: option.splits sum.splits if_splits)

lemma review_turn_clock: "review_turn env c message task state w = (r, w') \<Longrightarrow> w_Clock w \<le> w_Clock w'"
  unfolding review_turn_def
  by (auto elim!: and_thenE dest!: clock_ops(1,3,4) review_clock simp: Let_def split: if_splits)

section \<open>Termination\<close>

lemma executeTask_returns:
  assumes "\<And>n. N \<le> n \<Longrightarrow> env_Cancelled env n" "N < w_Clock w + fuel" "0 < fuel"
  shows "\<exists>r w'. executeTask fuel env c task state w = Some (r, w') \<and> w_Clock w < w_Clock w'"
  using assms(2,3)
proof (induction fuel arbitrary: state w)
  case (Suc fuel)
  show ?case
  proof (cases "env_Cancelled env (w_Clock w)")
    case True
    then show ?thesis by (simp add: ctx_done_def)
  next
    case False
    then have "w_Clock w < N" using assms(1) [of "w_Clock w"] by force
    then have fuel: "0 < fuel" using Suc.prems by simp
    obtain x v where x: "executeTaskTurn env c task state (tick w) = (x, v)" by fastforce
    have clock: "w_Clock w < w_Clock v" using turn_clock [OF x] by simp
    show ?thesis
    proof (cases "\<exists>s. x = Inr s \<and> st_continueExecution s")
      case True
      then obtain s where s: "x = Inr s" "st_continueExecution s" by blast
      have "N < w_Clock v + fuel" using clock Suc.prems(1) by simp
      then obtain r w' where "executeTask fuel env c task s v = Some (r, w')" "w_Clock v < w_Clock w'"
        using Suc.IH fuel by blast
      then show ?thesis
        using False x s clock by (auto simp: ctx_done_def)
    next
      case stop: False
      then show ?thesis
        using False x clock by (cases x) (auto simp: ctx_done_def)
    qed
  qed
qed simp

lemma review_loop_returns:
  assumes "\<And>n. N \<le> n \<Longrightarrow> env_Cancelled env n" "N < w_Clock w + fuel" "0 < fuel"
  shows "\<exists>r w'. review_loop fuel env c message task state w = Some (r, w')"
  using assms(2,3)
proof (induction fuel arbitrary: state w)
  case (Suc fuel)
  show ?case
  proof (cases "env_Cancelled env (w_Clock w)")
    case True
    then show ?thesis by (simp add: ctx_done_def)
  next
    case False
    then have "w_Clock w < N" using assms(1) [of "w_Clock w"] by force
    then have fuel: "0 < fuel" using Suc.prems by simp
    obtain x v where x: "review_turn env c message task state (tick w) = (x, v)" by fastforce
    have clock: "w_Clock w < w_Clock v" using review_turn_clock [OF x] by simp
    show ?thesis
    proof (cases "\<exists>s. x = Inr (s, False)")
      case True
      then obtain s where s: "x = Inr (s, False)" by blast
      have "N < w_Clock v + fuel" using clock Suc.prems(1) by simp
      then obtain y u where y: "executeTask fuel env c task s v = Some (y, u)" "w_Clock v < w_Clock u"
        using executeTask_returns [OF assms(1) _ fuel] by blast
      then have "N < w_Clock u + fuel" using clock Suc.prems(1) by simp
      then have "\<exists>r w'. review_loop fuel env c message task s' u = Some (r, w')" for s'
        using Suc.IH fuel by blast
      then show ?thesis
        using False x s y by (cases y) (auto simp: ctx_done_def)
    next
      case stop: False
      then show ?thesis
        using False x by (auto simp: ctx_done_def split: sum.splits)
    qed
  qed
qed simp

lemma runTask_returns:
  assumes "\<And>n. N \<le> n \<Longrightarrow> env_Cancelled env n" "N < w_Clock w + fuel" "0 < fuel"
  shows "\<exists>r w'. runTask fuel env c message task state w = Some (r, w')"
proof (cases "st_inputRequired state = None \<and> \<not> st_started state (tk_ID task)")
  case True
  let ?s = "state\<lparr>st_started := (st_started state)(tk_ID task := True)\<rparr>"
  obtain y u where y: "executeTask fuel env c task ?s w = Some (y, u)" "w_Clock w < w_Clock u"
    using executeTask_returns [OF assms] by blast
  then have "\<exists>r w'. review_loop fuel env c message task s' u = Some (r, w')" for s'
    using assms(2,3) by (intro review_loop_returns [OF assms(1)]) auto
  then show ?thesis
    using True y by (cases y) (auto simp: runTask_def)
next
  case False
  then show ?thesis
    using review_loop_returns [OF assms] by (auto simp: runTask_def split: option.split)
qed

lemma RunTask_returns:
  assumes "\<forall>n\<ge>N. env_Cancelled env n"
  shows "\<exists>r w'. RunTask (Suc N) env c message task w = Some (r, w')"
proof -
  have "\<exists>r w'. runTask (Suc N) env c message task s v = Some (r, w')" for s v
    using assms by (intro runTask_returns [of N]) auto
  then have "\<exists>r w'. resumeTask (Suc N) env c message task w = Some (r, w')"
    by (auto simp: resumeTask_def Let_def split: option.split prod.split sum.split)
  then obtain x u where "resumeTask (Suc N) env c message task w = Some (x, u)" by blast
  then show ?thesis
    by (cases x) (auto simp: RunTask_def split: option.split)
qed

text \<open>C36. Cancelling the context ends every run: from whatever journal and state a run starts and whatever the
  providers and parsers answer, if the context is done from some moment on, then the run returns, and its
  two loops make no more passes than there are interactions up to that moment.\<close>

theorem cancelled_run_returns:
  assumes "\<forall>n\<ge>N. env_Cancelled env n"
  shows "\<exists>r w'. RunTask (Suc N) env c message task w = Some (r, w')"
  using assms by (rule RunTask_returns)

definition sample_cancelled :: environment where
  "sample_cancelled = sample_env\<lparr>env_Cancelled := \<lambda>n. 5 \<le> n\<rparr>"

theorem cancelled_run_returns_witness:
  "\<exists>r w'. RunTask 6 sample_cancelled sample_controller (\<lambda>_. ''rejected'') sample_work sample_world = Some (r, w')"
proof -
  have "\<forall>n\<ge>5. env_Cancelled sample_cancelled n" by (simp add: sample_cancelled_def)
  from cancelled_run_returns [OF this] show ?thesis by simp
qed

end
