(* ===== verification/Controller_Restart.thy ===== *)
theory Controller_Restart
  imports Controller_Progress
begin

text \<open>
  A restart projects the journal. The part of the state that decides what a run does next for its task is
  \<open>core\<close>; after every turn of an execution, the state in memory and the state that a restart would project
  agree on it.
\<close>

section \<open>Repeated runs\<close>

lemma append_Inr: "append_entry env e w = (Inr i, w') \<Longrightarrow> w_Log w' = w_Log w @ [e\<lparr>en_ID := i\<rparr>]"
  by (auto elim: append_entryE)

lemma projected_acceptance:
  "en_Phase e = PhaseTaskAccepted \<Longrightarrow> en_TaskID e = tk_ID task \<Longrightarrow> st_accepted (projectTaskState task (log @ [e])) (tk_ID task)"
  by (simp add: project_snoc project_entry_def project_acceptance_def project_phase_def project_round_def projectReviewEntry_def Let_def)

lemma review_turn_accepted:
  assumes "review_turn env c message task state w = (Inr (s, True), w')"
  shows "st_accepted (projectTaskState task (w_Log w')) (tk_ID task)"
  using assms unfolding review_turn_def
  by (auto simp: Let_def projected_acceptance elim!: and_thenE dest!: append_Inr split: if_splits)

lemma review_loop_accepted:
  assumes "review_loop fuel env c message task state w = Some (Inr (), w')"
  shows "st_accepted (projectTaskState task (w_Log w')) (tk_ID task)"
  using assms
proof (induction fuel arbitrary: state w)
  case (Suc fuel)
  then show ?case
    by (auto simp: ctx_done_def review_turn_accepted split: if_splits sum.splits prod.splits option.splits)
qed simp

lemma RunTask_accepted:
  assumes "RunTask fuel env c message task w = Some (Inr (), w')"
  shows "st_accepted (projectTaskState task (w_Log w')) (tk_ID task)" "validateTaskExecution c = None" "Task_Validate task = None"
proof -
  have r: "resumeTask fuel env c message task w = Some (Inr (), w')"
    using assms by (auto simp: RunTask_def record_interruption_def Let_def split: option.splits sum.splits prod.splits if_splits)
  then show "validateTaskExecution c = None" "Task_Validate task = None"
    by (auto simp: resumeTask_def or_else_Some split: option.splits)
  have run: "st_accepted (projectTaskState task (w_Log w')) (tk_ID task)" if "runTask fuel env c message task s v = Some (Inr (), w')" for s v
    using that by (auto simp: runTask_def review_loop_accepted split: option.splits if_splits sum.splits prod.splits)
  from r show "st_accepted (projectTaskState task (w_Log w')) (tk_ID task)"
    by (auto simp: resumeTask_def Let_def read_entries_def dest: run split: option.splits sum.splits prod.splits if_splits)
qed

text \<open>C37. Success is final: once a run of a task returned without error, every later run of it, in whatever
  environment that can read the journal, returns at once without error and appends nothing, so that an
  accepted task is neither executed nor reviewed again.\<close>

theorem accepted_task_left_alone:
  assumes "RunTask fuel env c message task w = Some (Inr (), w')" and "env_Read later (w_Clock w')"
  shows "RunTask fuel' later c message' task w' = Some (Inr (), tick w') \<and> w_Log (tick w') = w_Log w'"
  using RunTask_accepted [OF assms(1)] assms(2)
  by (simp add: RunTask_def resumeTask_def read_entries_def Let_def)

theorem accepted_task_left_alone_witness:
  "RunTask 0 sample_cancelled sample_controller (\<lambda>_. []) sample_work sample_world = Some (Inr (), tick sample_world)"
proof -
  have "RunTask 1 sample_env sample_controller (\<lambda>_. ''rejected'') sample_work \<lparr>w_Log = [], w_Clock = 0\<rparr> = Some (Inr (), sample_world)"
    using sample_run_accepts(1) by (simp add: sample_run_def)
  moreover have "env_Read sample_cancelled (w_Clock sample_world)"
    by (simp add: sample_cancelled_def sample_env_def)
  ultimately show ?thesis
    using accepted_task_left_alone by blast
qed

section \<open>Handoff\<close>


definition sample_stuck :: environment where
  "sample_stuck = sample_env\<lparr>env_Run := \<lambda>_ _. \<lparr>run_Journal = [], run_Result = sample_result 0 Execute,
     run_Error = Some (Incomplete \<lparr>in_Reason = ''window exhausted'', in_ThreadID = ''thread'', in_TurnID = []\<rparr>)\<rparr>\<rparr>"

definition sample_stuck_run :: "unit outcome option" where
  "sample_stuck_run = RunTask 1 sample_stuck sample_controller (\<lambda>_. []) sample_work \<lparr>w_Log = [], w_Clock = 0\<rparr>"


section \<open>The state after a restart\<close>

definition core :: "Task \<Rightarrow> taskState \<Rightarrow> taskState" where
  "core task s = s\<lparr>st_accepted := (\<lambda>_. False), st_findings := (\<lambda>_. st_findings s (tk_ID task)), st_tasks := Map.empty,
     st_started := (\<lambda>_. st_started s (tk_ID task)), st_resumeIncomplete := False, st_incomplete := None\<rparr>"

lemma core_other: "en_TaskID e \<noteq> tk_ID task \<Longrightarrow> core task (project_entry task e s) = core task s"
  by (auto simp: core_def project_entry_def project_acceptance_def split: Phase.split)

lemma core_others: "\<forall>e\<in>set es. en_TaskID e \<noteq> tk_ID task \<Longrightarrow> core task (fold (project_entry task) es s) = core task s"
  by (induction es arbitrary: s) (simp_all add: core_other)

text \<open>Entries of the task itself that others append while its native execution runs: the identity of the
  session and the input of native tools.\<close>

definition native_event :: "Task \<Rightarrow> Entry \<Rightarrow> bool" where
  "native_event task e \<longleftrightarrow> en_TaskID e = tk_ID task \<longrightarrow>
     en_Phase e = PhaseExecutionSession \<and> en_Role e \<noteq> Review \<or> en_Phase e = PhaseExecutionNativeInput \<or>
     en_Phase e = PhaseExecutionReply \<and> en_NativeInput e \<noteq> None"

lemma core_native_event:
  assumes "native_event task e"
  shows "\<exists>x. core task (project_entry task e s) = (core task s)\<lparr>st_session := x\<rparr>"
proof -
  have same: "\<exists>x. core task s = (core task s)\<lparr>st_session := x\<rparr>"
    by (intro exI [of _ "st_session s"]) (simp add: core_def)
  consider "en_TaskID e \<noteq> tk_ID task"
    | "en_TaskID e = tk_ID task" "en_Phase e = PhaseExecutionSession" "en_Role e \<noteq> Review"
    | "en_TaskID e = tk_ID task" "en_Phase e = PhaseExecutionNativeInput"
    | "en_TaskID e = tk_ID task" "en_Phase e = PhaseExecutionReply" "en_NativeInput e \<noteq> None"
    using assms unfolding native_event_def by blast
  then show ?thesis
  proof cases
    case 1
    then show ?thesis using same by (simp add: core_other)
  next
    case 2
    then have "project_entry task e s = s\<lparr>st_session := en_Session e\<rparr>"
      by (simp add: project_entry_def project_acceptance_def project_phase_def project_round_def projectReviewEntry_def)
    then show ?thesis by (intro exI [of _ "en_Session e"]) (simp add: core_def)
  next
    case 3
    then have "project_entry task e s = s"
      by (simp add: project_entry_def project_acceptance_def project_phase_def project_round_def projectReviewEntry_def)
    with same show ?thesis by simp
  next
    case 4
    then have "project_entry task e s = s"
      by (simp add: project_entry_def project_acceptance_def project_phase_def project_round_def projectReviewEntry_def)
    with same show ?thesis by simp
  qed
qed

lemma core_native_events:
  "\<forall>e\<in>set es. native_event task e \<Longrightarrow> \<exists>x. core task (fold (project_entry task) es s) = (core task s)\<lparr>st_session := x\<rparr>"
proof (induction es arbitrary: s)
  case Nil
  show ?case by (intro exI [of _ "st_session s"]) (simp add: core_def)
next
  case (Cons e es)
  obtain x where x: "core task (project_entry task e s) = (core task s)\<lparr>st_session := x\<rparr>"
    using core_native_event [of task e s] Cons.prems by auto
  obtain y where "core task (fold (project_entry task) es (project_entry task e s)) = (core task (project_entry task e s))\<lparr>st_session := y\<rparr>"
    using Cons.IH [of "project_entry task e s"] Cons.prems by auto
  then show ?case by (auto simp: x)
qed

lemma invoke_Inr:
  assumes "invoke env c call round w = (Inr result, w')"
  shows "\<exists>i j. w_Log w' = w_Log w @ [(call_entry c PhaseCallOpened call round)\<lparr>en_Assignment := Some call, en_ID := i\<rparr>] @
      run_Journal (env_Run env (Suc (w_Clock w)) call) @
      [(call_entry c PhaseCallCompleted call round)\<lparr>en_CallID := res_CallID result, en_Result := Some result, en_ID := j\<rparr>]"
  using assms unfolding invoke_def
proof (cases rule: and_thenE)
  case (2 callID v)
  let ?run = "env_Run env (w_Clock v) call"
  have v: "w_Log v = w_Log w @ [(call_entry c PhaseCallOpened call round)\<lparr>en_Assignment := Some call, en_ID := callID\<rparr>]"
      "w_Clock v = Suc (w_Clock w)"
    using 2(1) by (auto simp: append_entry_def split: option.splits)
  let ?u = "tick v\<lparr>w_Log := w_Log v @ run_Journal ?run\<rparr>"
  have "run_Error ?run = None"
    using 2(2) by (cases "run_Error ?run") (auto simp: run_provider_def Let_def call_failed_def split: prod.splits)
  then have "call_completed env c call round ((run_Result ?run)\<lparr>res_CallID := callID, res_Evidence := []\<rparr>) ?u = (Inr result, w')"
    using 2(2) by (simp add: run_provider_def Let_def)
  then have "\<exists>j. w_Log w' = w_Log ?u @ [(call_entry c PhaseCallCompleted call round)\<lparr>en_CallID := res_CallID result, en_Result := Some result, en_ID := j\<rparr>]"
    unfolding call_completed_def by (cases rule: and_thenE) (auto dest!: append_Inr)
  then show ?thesis using v by auto
qed simp

lemmas project_defs = project_entry_def project_acceptance_def project_phase_def project_round_def projectReviewEntry_def Let_def

lemma core_executing:
  "en_Phase e = PhaseTaskExecuting \<Longrightarrow> en_TaskID e = tk_ID task \<Longrightarrow> core task (project_entry task e s) =
     (clear_review (core task s))\<lparr>st_round := int64 (en_Round e - 1), st_started := (\<lambda>_. False)\<rparr>"
  by (simp add: core_def clear_review_def project_defs)

lemma core_opened: "en_Phase e = PhaseCallOpened \<Longrightarrow> en_TaskID e = tk_ID task \<Longrightarrow> core task (project_entry task e s) = core task s"
  by (simp add: core_def project_defs)

lemma core_completed:
  "en_Phase e = PhaseCallCompleted \<Longrightarrow> en_TaskID e = tk_ID task \<Longrightarrow> en_Role e = Execute \<Longrightarrow> en_Result e = Some r \<Longrightarrow>
   core task (project_entry task e s) =
     (core task s)\<lparr>st_round := (if st_round s < en_Round e then en_Round e else st_round s),
        st_pendingResponse := Some r, st_session := Some (idle_session r)\<rparr>"
  by (simp add: core_def project_defs)

lemma core_parsed:
  "en_Phase e = PhaseCallCompleted \<Longrightarrow> en_TaskID e = tk_ID task \<Longrightarrow> en_Role e = ExecutionResponse \<Longrightarrow>
   core task (project_entry task e s) = core task s"
  by (simp add: core_def project_defs split: option.split)

lemma core_response:
  assumes "en_Phase e = PhaseExecutionResponse" "en_TaskID e = tk_ID task" "en_Notes e = [response]"
    "en_ResponseKind e = ExecutionDone \<or> en_ResponseKind e = ExecutionContinue"
  shows "core task (project_entry task e s) =
     (core task s)\<lparr>st_round := (if st_round s < en_Round e then en_Round e else st_round s), st_pendingResponse := None, st_reply := [],
        st_started := (\<lambda>_. en_ResponseKind e = ExecutionDone), st_continueExecution := (en_ResponseKind e = ExecutionContinue),
        st_executionReport := Some \<lparr>er_CallID = en_CallID e, er_Round = en_Round e, er_Response = response\<rparr>\<rparr>"
  using assms by (auto simp: core_def project_defs project_response_def asks_owner_def)

lemma core_round: "st_round (core task s) = st_round s"
  by (simp add: core_def)

lemma handle_Inr:
  assumes "handleExecutionResponse env c task result round w = (Inr kind, w')"
  shows "kind = ExecutionDone \<or> kind = ExecutionContinue"
    "\<exists>response cs parsed v i. decode_text (res_Content result) = Some response \<and>
       invoke env c (response_call c task response cs) round (tick w) = (Inr parsed, v) \<and>
       w_Log w' = w_Log v @ [(response_entry c task result round response kind)\<lparr>en_ID := i\<rparr>]"
  using assms unfolding handleExecutionResponse_def record_response_def taskClarifications_def
  by (auto simp: response_outcome_def asks_owner_def elim!: and_thenE dest!: append_Inr split: option.splits if_splits) blast+

definition recorded_turn :: "Task \<Rightarrow> int \<Rightarrow> Result \<Rightarrow> string \<Rightarrow> ExecutionResponseKind \<Rightarrow> taskState \<Rightarrow> taskState" where
  "recorded_turn task round result response kind s =
     (clear_review (core task s))\<lparr>st_round := round, st_started := (\<lambda>_. kind = ExecutionDone),
        st_session := Some (idle_session result), st_pendingResponse := None, st_reply := [],
        st_continueExecution := (kind = ExecutionContinue),
        st_executionReport := Some \<lparr>er_CallID = res_CallID result, er_Round = round, er_Response = response\<rparr>\<rparr>"

lemma project_turn:
  fixes e1 e2 e3 e4 e5 e6 :: Entry
  assumes e1: "en_Phase e1 = PhaseTaskExecuting" "en_TaskID e1 = tk_ID task" "en_Round e1 = round" "int64 (round - 1) < round"
    and e2: "en_Phase e2 = PhaseCallOpened" "en_TaskID e2 = tk_ID task"
    and e3: "en_Phase e3 = PhaseCallCompleted" "en_TaskID e3 = tk_ID task" "en_Role e3 = Execute" "en_Result e3 = Some result" "en_Round e3 = round"
    and e4: "en_Phase e4 = PhaseCallOpened" "en_TaskID e4 = tk_ID task"
    and e5: "en_Phase e5 = PhaseCallCompleted" "en_TaskID e5 = tk_ID task" "en_Role e5 = ExecutionResponse"
    and e6: "en_Phase e6 = PhaseExecutionResponse" "en_TaskID e6 = tk_ID task" "en_Notes e6 = [response]" "en_ResponseKind e6 = kind"
      "kind = ExecutionDone \<or> kind = ExecutionContinue" "en_CallID e6 = res_CallID result" "en_Round e6 = round"
    and j1: "\<forall>e\<in>set j1. native_event task e" and j2: "\<forall>e\<in>set j2. en_TaskID e \<noteq> tk_ID task"
  shows "core task (projectTaskState task (log @ [e1] @ [e2] @ j1 @ [e3] @ [e4] @ j2 @ [e5] @ [e6])) =
    recorded_turn task round result response kind (projectTaskState task log)"
proof -
  let ?s0 = "projectTaskState task log"
  let ?s2 = "project_entry task e2 (project_entry task e1 ?s0)"
  let ?s3 = "fold (project_entry task) j1 ?s2"
  let ?s5 = "project_entry task e4 (project_entry task e3 ?s3)"
  let ?s6 = "project_entry task e5 (fold (project_entry task) j2 ?s5)"
  have c2: "core task ?s2 = (clear_review (core task ?s0))\<lparr>st_round := int64 (round - 1), st_started := (\<lambda>_. False)\<rparr>"
    using e1 e2 by (simp only: core_opened core_executing)
  obtain x where c3: "core task ?s3 = (core task ?s2)\<lparr>st_session := x\<rparr>"
    using core_native_events [OF j1] by blast
  have "st_round ?s3 = int64 (round - 1)"
    using core_round [of task ?s3] c3 c2 by simp
  then have c5: "core task ?s5 = (core task ?s3)\<lparr>st_round := round, st_pendingResponse := Some result, st_session := Some (idle_session result)\<rparr>"
    using e1(4) e3(5) by (simp add: core_opened [OF e4] core_completed [OF e3(1-4)])
  have c6: "core task ?s6 = core task ?s5"
    by (simp add: core_parsed [OF e5] core_others [OF j2])
  have "st_round ?s6 = round"
    using core_round [of task ?s6] c6 c5 by simp
  then have "core task (project_entry task e6 ?s6) = (core task ?s6)\<lparr>st_round := round, st_pendingResponse := None, st_reply := [],
        st_started := (\<lambda>_. kind = ExecutionDone), st_continueExecution := (kind = ExecutionContinue),
        st_executionReport := Some \<lparr>er_CallID = res_CallID result, er_Round = round, er_Response = response\<rparr>\<rparr>"
    using core_response [OF e6(1-3), of ?s6] e6(4-7) by simp
  also have "\<dots> = recorded_turn task round result response kind ?s0"
    by (simp add: c6 c5 c3 c2 recorded_turn_def)
  finally show ?thesis
    by (simp add: projectTaskState_def)
qed

definition undisturbed :: "environment \<Rightarrow> Task \<Rightarrow> bool" where
  "undisturbed env task \<longleftrightarrow> (\<forall>n call. \<forall>e\<in>set (run_Journal (env_Run env n call)).
     if as_Role call = Execute then native_event task e else en_TaskID e \<noteq> tk_ID task)"

lemma turn_Inr:
  assumes "executeTaskTurn env c task state w = (Inr s', w')"
  shows "\<exists>i cs v result u kind. invoke env c (execution_call c task state cs) (int64 (st_round state + 1)) (tick v) = (Inr result, u) \<and>
    w_Log v = w_Log w @ [Entry_zero\<lparr>en_Generation := ct_Generation c, en_Phase := PhaseTaskExecuting,
      en_TaskID := tk_ID task, en_Round := int64 (st_round state + 1), en_ID := i\<rparr>] \<and>
    handleExecutionResponse env c task result (int64 (st_round state + 1)) u = (Inr kind, w') \<and>
    recordExecutionResult state (tk_ID task) result (int64 (st_round state + 1)) kind = Some s'"
  using assms unfolding executeTaskTurn_def taskClarifications_def attest_def
  by (auto elim!: and_thenE dest!: append_Inr split: option.splits if_splits) blast

lemma core_recorded:
  assumes "recordExecutionResult state (tk_ID task) result round kind = Some s'" "decode_text (res_Content result) = Some response"
    and "st_findings state (tk_ID task) = st_findings p (tk_ID task)" "st_inputRequired state = st_inputRequired p"
  shows "core task s' = recorded_turn task round result response kind p"
  using assms by (auto simp: recordExecutionResult_def recorded_turn_def core_def clear_review_def)



text \<open>
  The flag that an owner resumed an incomplete task is left out of \<open>core\<close>: a turn clears it in memory, but
  no entry clears it in the projection, so that after a restart a correction keeps the idle session that
  the running controller would have dropped.
\<close>

lemma resume_flag_kept:
  "st_resumeIncomplete (clear_review s) = st_resumeIncomplete s"
  "st_resumeIncomplete (projectReviewEntry s e) = st_resumeIncomplete s"
  "st_resumeIncomplete (project_acceptance s e) = st_resumeIncomplete s"
  "st_resumeIncomplete (project_round s e) = st_resumeIncomplete s"
  "st_resumeIncomplete (project_response task s e) = st_resumeIncomplete s"
  by (simp_all add: clear_review_def projectReviewEntry_def project_acceptance_def project_round_def project_response_def
      Let_def split: Phase.split)

lemma resume_flag_phase: "st_resumeIncomplete s \<Longrightarrow> st_resumeIncomplete (project_phase task s e)"
  by (cases "en_Phase e") (simp_all add: project_phase_def resume_flag_kept Let_def split: option.split)

lemma resume_flag_survives: "st_resumeIncomplete (projectTaskState task log) \<Longrightarrow> st_resumeIncomplete (projectTaskState task (log @ es))"
proof (induction es rule: rev_induct)
  case (snoc e es)
  have "st_resumeIncomplete s \<Longrightarrow> st_resumeIncomplete (project_entry task e s)" for s
    by (simp add: project_entry_def Let_def resume_flag_kept resume_flag_phase)
  then show ?case
    using snoc project_snoc [of task "log @ es" e] by simp
qed simp

lemma resume_flag_cleared_in_memory:
  "recordExecutionResult state taskID result round kind = Some s' \<Longrightarrow> \<not> st_resumeIncomplete s'"
  by (auto simp: recordExecutionResult_def clear_review_def)

end
