(* ===== verification/Ledger_Repository.thy ===== *)
theory Ledger_Repository
  imports Planning_Order Coding_Contracts
begin

text \<open>
  The checks and the in-memory operations of the ledger repository
  (\<^verbatim>\<open>internal/queue/coding_plan_validation.go\<close>, and the part of
  \<^verbatim>\<open>coding_plan_mutation.go\<close>, \<^verbatim>\<open>coding_plan_store.go\<close> and
  \<^verbatim>\<open>coding_plan_read.go\<close> that does not speak to the database).

  The repository applies a mutation a second time, with code of its own
  (\<^verbatim>\<open>applyCodingLedgerOperationsWithRestores\<close>), before it stores the next revision.
  A function that takes \<^verbatim>\<open>*EngineeringLedger\<close> returns the changed ledger, and the result
  \<^verbatim>\<open>false\<close> of a search is \<open>None\<close>. The map of accepted contracts that a restoration may
  fall back on is a function to \<open>option\<close>.
\<close>

datatype repository_error =
    InvalidLedger ledger_error
  | RouteCount
  | RouteRole string
  | RouteRepeated string
  | RouteConfiguration string
  | RouteRevisionsDiffer
  | RouteOption string
  | NotProposed LedgerItemID
  | RouteReplacement
  | RouteReplacementRevision
  | ReservedIdentity LedgerItemID
  | ExactDuplicate
  | DispositionsRequired
  | RepresentedReason
  | RepresentedItems
  | RepresentedUnavailable LedgerItemID
  | OutOfScopeItems
  | OutOfScopeNoReason
  | DispositionKind
  | TargetNotReferenced LedgerItemID
  | DispositionInconsistent
  | OperationIdentity
  | ReservedOwnerTurn
  | RemovedAndRestored LedgerItemID
  | ItemExists LedgerItemID
  | TargetNotActive LedgerItemID
  | TargetMissing LedgerItemID
  | AcceptedAbsent LedgerItemID
  | NotTombstoned LedgerItemID
  | MissingRank
  | UnsupportedOperation LedgerMutationKind

section \<open>Routes\<close>

record CodingLedgerRoute =
  lr_Role :: string
  lr_ConfigurationRevision :: int
  lr_Provider :: string
  lr_Model :: string
  lr_ReasoningEffort :: string
  lr_ServiceTier :: string

definition route_option_bad :: "string \<Rightarrow> bool" where
  "route_option_bad s \<longleftrightarrow> s = [] \<or> s \<noteq> TrimSpace s \<or> ContainsAny s [CHR 0x00, CHR 0x0D, CHR 0x0A]"

fun routes_loop :: "int \<Rightarrow> string list \<Rightarrow> int \<Rightarrow> CodingLedgerRoute list \<Rightarrow> repository_error option" where
  \<comment> \<open>\<open>seen\<close> are the roles met before, \<open>conf\<close> the configuration revision of the first route\<close>
  "routes_loop revision seen conf [] = None"
| "routes_loop revision seen conf (route # routes) =
     (let role = lr_Role route; c = lr_ConfigurationRevision route in
      if role \<notin> {''planner'', ''executor'', ''reviewer''} then Some (RouteRole role)
      else if role \<in> set seen then Some (RouteRepeated role)
      else if c \<le> 0 \<or> c > revision then Some (RouteConfiguration role)
      else if conf \<noteq> 0 \<and> conf \<noteq> c then Some RouteRevisionsDiffer
      else if list_ex route_option_bad [lr_Provider route, lr_Model route, lr_ReasoningEffort route, lr_ServiceTier route]
        then Some (RouteOption role)
      else routes_loop revision (role # seen) c routes)"

definition validateCodingLedgerRoutes :: "CodingLedgerRoute list \<Rightarrow> int \<Rightarrow> repository_error option" where
  "validateCodingLedgerRoutes routes revision =
     (if length routes \<noteq> 3 then Some RouteCount else routes_loop revision [] 0 routes)"

definition by_role :: "CodingLedgerRoute list \<Rightarrow> string \<Rightarrow> CodingLedgerRoute option" where
  \<comment> \<open>a map filled in order: the last route of a role stays\<close>
  "by_role routes = map_of (map (\<lambda>r. (lr_Role r, r)) (rev routes))"

definition codingLedgerRoutesEqual :: "CodingLedgerRoute list \<Rightarrow> CodingLedgerRoute list \<Rightarrow> bool" where
  "codingLedgerRoutesEqual left right \<longleftrightarrow>
     length left = length right \<and>
     list_all (\<lambda>role. by_role left role = by_role right role) (map lr_Role left @ map lr_Role right)"

section \<open>Ledgers and dispositions\<close>

fun first_unproposed :: "LedgerTask list \<Rightarrow> repository_error option" where
  "first_unproposed [] = None"
| "first_unproposed (t # ts) =
     (if task_active t \<and> task_ReviewState t \<noteq> LedgerReviewProposed then Some (NotProposed (task_ID t))
      else first_unproposed ts)"

definition validateInitialCodingLedgerReviewStates :: "EngineeringLedger \<Rightarrow> repository_error option" where
  "validateInitialCodingLedgerReviewStates ledger = first_unproposed (led_Tasks ledger)"

definition StatementDispositions :: "OwnerTurnDisposition \<Rightarrow> OwnerStatementDisposition list" where
  "StatementDispositions d = turn_Statements d"

definition validateCodingLedgerRouteMutation ::
    "CodingLedgerRoute list \<Rightarrow> CodingLedgerRoute list \<Rightarrow> int \<Rightarrow> LedgerMutationOperation list \<Rightarrow>
      OwnerTurnDisposition \<Rightarrow> repository_error option" where
  "validateCodingLedgerRouteMutation current supplied nextRevision operations disposition =
     (if supplied = [] \<or> codingLedgerRoutesEqual current supplied then None
      else if operations = [] \<or> \<not> list_ex (\<lambda>s. stmt_Kind s = OwnerTurnRepresented) (StatementDispositions disposition)
        then Some RouteReplacement
      else if list_ex (\<lambda>route. lr_ConfigurationRevision route \<noteq> nextRevision) supplied then Some RouteReplacementRevision
      else None)"

definition alnum :: "char \<Rightarrow> bool" where
  "alnum c \<longleftrightarrow> is_digit c \<or> 65 \<le> byte c \<and> byte c \<le> 90 \<or> 97 \<le> byte c \<and> byte c \<le> 122"

definition codingLedgerItemIDPattern :: "string \<Rightarrow> bool" where
  \<comment> \<open>\<^verbatim>\<open>^[A-Za-z0-9][A-Za-z0-9_.:-]*$\<close>\<close>
  "codingLedgerItemIDPattern s \<longleftrightarrow>
     (case s of [] \<Rightarrow> False | c # cs \<Rightarrow> alnum c \<and> list_all (\<lambda>x. alnum x \<or> x \<in> set ''_.:-'') cs)"

definition duplicate_key :: "LedgerTask \<Rightarrow> LedgerTask" where
  \<comment> \<open>the encoded task without the fields that do not carry its meaning\<close>
  "duplicate_key t = (json_copy_task t)\<lparr>task_Item := \<lparr>item_ID = [], item_Provenance = \<lparr>prov_Kind = [], prov_Reference = [],
     prov_Revision = 0\<rparr>, item_Rationale = [], item_Rank = 0, item_Disposition = LedgerDispositionActive,
     item_ReviewState = LedgerReviewNone\<rparr>\<rparr>"

fun has_repeat :: "'a list \<Rightarrow> bool" where
  "has_repeat [] = False"
| "has_repeat (x # xs) = (x \<in> set xs \<or> has_repeat xs)"

definition validateCodingLedgerExactDuplicates :: "EngineeringLedger \<Rightarrow> repository_error option" where
  "validateCodingLedgerExactDuplicates ledger =
     fail_if (has_repeat (map duplicate_key (led_Tasks ledger))) ExactDuplicate"

definition validateLedgerForRepository :: "EngineeringLedger \<Rightarrow> repository_error option" where
  "validateLedgerForRepository ledger =
     or_else (map_option InvalidLedger (EngineeringLedger_Validate ledger))
    (or_else (first_err (\<lambda>t. fail_if (\<not> codingLedgerItemIDPattern (task_ID t)) (ReservedIdentity (task_ID t))) (led_Tasks ledger))
      (validateCodingLedgerExactDuplicates ledger))"

definition validateDraftLedgerForRepository :: "EngineeringLedger \<Rightarrow> repository_error option" where
  "validateDraftLedgerForRepository ledger = map_option InvalidLedger (ValidateDraft ledger)"

definition active_items :: "EngineeringLedger \<Rightarrow> LedgerItemID list" where
  \<comment> \<open>the keys of the map \<^verbatim>\<open>active\<close>; every value in it is \<open>''task''\<close>\<close>
  "active_items ledger = map task_ID (filter task_active (led_Tasks ledger))"

definition statement_disposition_error :: "EngineeringLedger \<Rightarrow> OwnerStatementDisposition \<Rightarrow> repository_error option" where
  "statement_disposition_error ledger d =
     (case stmt_Kind d of
        OwnerTurnRepresented \<Rightarrow>
          or_else (fail_if (\<not> blank (stmt_Reason d)) RepresentedReason)
         (or_else (fail_if (stmt_ItemIDs d = []) RepresentedItems)
           (first_err (\<lambda>i. fail_if (i \<notin> set (active_items ledger)) (RepresentedUnavailable i)) (stmt_ItemIDs d)))
      | OwnerTurnOutOfScope \<Rightarrow>
          or_else (fail_if (stmt_ItemIDs d \<noteq> []) OutOfScopeItems) (fail_if (blank (stmt_Reason d)) OutOfScopeNoReason)
      | OwnerTurnOther _ \<Rightarrow> Some DispositionKind)"

definition validateOwnerTurnDisposition :: "EngineeringLedger \<Rightarrow> OwnerTurnDisposition \<Rightarrow> repository_error option" where
  "validateOwnerTurnDisposition ledger disposition =
     (if turn_Statements disposition = []
      then fail_if (led_Tasks ledger \<noteq> []) DispositionsRequired
      else first_err (statement_disposition_error ledger) (StatementDispositions disposition))"

definition represented_error :: "EngineeringLedger \<Rightarrow> OwnerStatementDisposition \<Rightarrow> repository_error option" where
  "represented_error next s =
     (if stmt_Kind s = OwnerTurnRepresented
      then first_err (\<lambda>i. fail_if (i \<notin> set (map task_ID (led_Tasks next))) (RepresentedUnavailable i)) (stmt_ItemIDs s)
      else None)"

definition represented_items :: "OwnerTurnDisposition \<Rightarrow> LedgerItemID list" where
  "represented_items d =
     concat (map stmt_ItemIDs (filter (\<lambda>s. stmt_Kind s = OwnerTurnRepresented) (StatementDispositions d)))"

definition operation_item :: "LedgerMutationOperation \<Rightarrow> LedgerItemID" where
  "operation_item op = (if op_Kind op = LedgerMutationAdd then planningMutationItemID (op_Item op) else op_TargetID op)"

definition validateMutationOwnerTurnDisposition ::
    "EngineeringLedger \<Rightarrow> EngineeringLedger \<Rightarrow> LedgerMutationOperation list \<Rightarrow> OwnerTurnDisposition \<Rightarrow> repository_error option" where
  "validateMutationOwnerTurnDisposition base next operations disposition =
     or_else (first_err (represented_error next) (StatementDispositions disposition))
    (or_else (first_err (\<lambda>op. fail_if (operation_item op \<notin> set (represented_items disposition))
         (TargetNotReferenced (operation_item op))) operations)
      (fail_if (operations = [] \<and> \<not> list_ex (\<lambda>s. stmt_Kind s = OwnerTurnOutOfScope) (StatementDispositions disposition))
        DispositionInconsistent))"

definition validateCodingLedgerOperationID :: "string \<Rightarrow> repository_error option" where
  "validateCodingLedgerOperationID s =
     fail_if (s = [] \<or> s \<noteq> TrimSpace s \<or> ContainsAny s [CHR 0x00, CHR 0x0D, CHR 0x0A]) OperationIdentity"

definition validateCodingLedgerExternalOwnerTurnID :: "string \<Rightarrow> repository_error option" where
  "validateCodingLedgerExternalOwnerTurnID turnID =
     fail_if (HasPrefix turnID ''omnidex-internal:'') ReservedOwnerTurn"

section \<open>Operations\<close>

fun set_first_item :: "LedgerItemID \<Rightarrow> (LedgerItem \<Rightarrow> LedgerItem) \<Rightarrow> LedgerTask list \<Rightarrow> LedgerTask list option" where
  "set_first_item i upd [] = None"
| "set_first_item i upd (t # ts) =
     (if task_ID t = i then Some (t\<lparr>task_Item := upd (task_Item t)\<rparr> # ts) else map_option ((#) t) (set_first_item i upd ts))"

definition setCodingLedgerItem :: "EngineeringLedger \<Rightarrow> LedgerItemID \<Rightarrow> (LedgerItem \<Rightarrow> LedgerItem) \<Rightarrow> EngineeringLedger option" where
  "setCodingLedgerItem ledger i upd = map_option (\<lambda>ts. ledger\<lparr>led_Tasks := ts\<rparr>) (set_first_item i upd (led_Tasks ledger))"

definition set_item :: "EngineeringLedger \<Rightarrow> LedgerItemID \<Rightarrow> (LedgerItem \<Rightarrow> LedgerItem) \<Rightarrow> EngineeringLedger" where
  \<comment> \<open>a call whose result is not looked at\<close>
  "set_item ledger i upd = (case setCodingLedgerItem ledger i upd of Some l \<Rightarrow> l | None \<Rightarrow> ledger)"

definition resetCodingLedgerAffectedAgreements :: "EngineeringLedger \<Rightarrow> LedgerItemID \<Rightarrow> EngineeringLedger" where
  "resetCodingLedgerAffectedAgreements ledger i =
     set_item ledger i (\<lambda>item. if item_Disposition item = LedgerDispositionActive
       then item\<lparr>item_ReviewState := LedgerReviewProposed\<rparr> else item)"

definition ledgerMutationItemID :: "LedgerMutationItem option \<Rightarrow> LedgerItemID" where
  "ledgerMutationItemID item =
     (case item of Some it \<Rightarrow> (case mi_Task it of Some t \<Rightarrow> task_ID t | None \<Rightarrow> []) | None \<Rightarrow> [])"

definition ledgerHasItem :: "EngineeringLedger \<Rightarrow> LedgerItemID \<Rightarrow> bool" where
  "ledgerHasItem ledger i \<longleftrightarrow> setCodingLedgerItem ledger i id \<noteq> None"

definition appendCodingLedgerMutationItem :: "EngineeringLedger \<Rightarrow> LedgerMutationItem option \<Rightarrow> EngineeringLedger" where
  "appendCodingLedgerMutationItem ledger item =
     (case item of
        Some it \<Rightarrow> (case mi_Task it of Some t \<Rightarrow> ledger\<lparr>led_Tasks := led_Tasks ledger @ [t]\<rparr> | None \<Rightarrow> ledger)
      | None \<Rightarrow> ledger)"

definition replaceCodingLedgerMutationItem ::
    "EngineeringLedger \<Rightarrow> LedgerItemID \<Rightarrow> LedgerMutationItem option \<Rightarrow> EngineeringLedger option" where
  "replaceCodingLedgerMutationItem ledger i item =
     (case item of
        Some it \<Rightarrow> (case mi_Task it of
            Some t \<Rightarrow> map_option (\<lambda>ts. ledger\<lparr>led_Tasks := ts\<rparr>) (replace_first i t (led_Tasks ledger))
          | None \<Rightarrow> None)
      | None \<Rightarrow> None)"

definition codingLedgerItemDisposition :: "EngineeringLedger \<Rightarrow> LedgerItemID \<Rightarrow> LedgerDisposition option" where
  "codingLedgerItemDisposition ledger i =
     map_option task_Disposition (first_with (\<lambda>t. task_ID t = i) (led_Tasks ledger))"

fun removed_and_restored ::
    "LedgerItemID list \<Rightarrow> LedgerItemID list \<Rightarrow> LedgerMutationOperation list \<Rightarrow> repository_error option" where
  "removed_and_restored removed restored [] = None"
| "removed_and_restored removed restored (op # ops) =
     (case op_Kind op of
        LedgerMutationRemove \<Rightarrow>
          if op_TargetID op \<in> set restored then Some (RemovedAndRestored (op_TargetID op))
          else removed_and_restored (op_TargetID op # removed) restored ops
      | LedgerMutationRestore \<Rightarrow>
          if op_TargetID op \<in> set removed then Some (RemovedAndRestored (op_TargetID op))
          else removed_and_restored removed (op_TargetID op # restored) ops
      | _ \<Rightarrow> removed_and_restored removed restored ops)"

definition require_item :: "EngineeringLedger \<Rightarrow> LedgerItemID \<Rightarrow> LedgerDisposition \<Rightarrow> repository_error \<Rightarrow>
    (repository_error + EngineeringLedger) \<Rightarrow> repository_error + EngineeringLedger" where
  "require_item ledger i d e k = (if codingLedgerItemDisposition ledger i = Some d then k else Inl e)"

definition found_item :: "repository_error \<Rightarrow> EngineeringLedger option \<Rightarrow> repository_error + EngineeringLedger" where
  "found_item e r = (case r of Some l \<Rightarrow> Inr l | None \<Rightarrow> Inl e)"

definition amendCodingLedgerItem :: "EngineeringLedger \<Rightarrow> LedgerItemID \<Rightarrow> LedgerMutationItem option \<Rightarrow> repository_error + EngineeringLedger" where
  "amendCodingLedgerItem ledger i item =
     bind_res (found_item (TargetMissing i)
         (replaceCodingLedgerMutationItem (resetCodingLedgerAffectedAgreements ledger i) i item)) (\<lambda>l.
       Inr (set_item (resetCodingLedgerAffectedAgreements l i) i (\<lambda>it.
         it\<lparr>item_Disposition := LedgerDispositionActive, item_ReviewState := LedgerReviewProposed\<rparr>)))"

definition restoreCodingLedgerItem ::
    "(LedgerItemID \<Rightarrow> LedgerTask option) \<Rightarrow> EngineeringLedger \<Rightarrow> LedgerItemID \<Rightarrow> repository_error + EngineeringLedger" where
  "restoreCodingLedgerItem accepted ledger i =
     (case accepted i of
        Some task \<Rightarrow> found_item (AcceptedAbsent i) (replaceCodingLedgerMutationItem ledger i (Some \<lparr>mi_Task = Some task\<rparr>))
      | None \<Rightarrow>
          require_item ledger i LedgerDispositionTombstoned (NotTombstoned i)
            (bind_res (found_item (TargetMissing i) (setCodingLedgerItem ledger i (\<lambda>it.
                if item_Disposition it \<noteq> LedgerDispositionTombstoned then it
                else it\<lparr>item_Disposition := LedgerDispositionActive, item_ReviewState := LedgerReviewProposed\<rparr>))) (\<lambda>l.
              Inr (resetCodingLedgerAffectedAgreements l i))))"

definition applyCodingLedgerOperation ::
    "(LedgerItemID \<Rightarrow> LedgerTask option) \<Rightarrow> EngineeringLedger \<Rightarrow> LedgerMutationOperation \<Rightarrow> repository_error + EngineeringLedger" where
  \<comment> \<open>the body of the second loop of \<^verbatim>\<open>applyCodingLedgerOperationsWithRestores\<close>\<close>
  "applyCodingLedgerOperation accepted ledger op =
     (let i = op_TargetID op in
      case op_Kind op of
        LedgerMutationAdd \<Rightarrow>
          (let k = ledgerMutationItemID (op_Item op) in
           if ledgerHasItem ledger k then Inl (ItemExists k)
           else Inr (resetCodingLedgerAffectedAgreements (appendCodingLedgerMutationItem ledger (op_Item op)) k))
      | LedgerMutationAmend \<Rightarrow>
          require_item ledger i LedgerDispositionActive (TargetNotActive i) (amendCodingLedgerItem ledger i (op_Item op))
      | LedgerMutationRemove \<Rightarrow>
          require_item ledger i LedgerDispositionActive (TargetNotActive i)
            (found_item (TargetMissing i) (setCodingLedgerItem (resetCodingLedgerAffectedAgreements ledger i) i (\<lambda>it.
               if item_Disposition it \<noteq> LedgerDispositionActive then it
               else it\<lparr>item_Disposition := LedgerDispositionTombstoned, item_ReviewState := LedgerReviewNone\<rparr>)))
      | LedgerMutationRestore \<Rightarrow> restoreCodingLedgerItem accepted ledger i
      | LedgerMutationReview \<Rightarrow>
          require_item ledger i LedgerDispositionActive (TargetNotActive i)
            (found_item (TargetMissing i) (setCodingLedgerItem ledger i (\<lambda>it.
               if item_Disposition it = LedgerDispositionActive then it\<lparr>item_ReviewState := op_ReviewState op\<rparr> else it)))
      | LedgerMutationReorder \<Rightarrow>
          require_item ledger i LedgerDispositionActive (TargetNotActive i)
            (case op_Rank op of
               None \<Rightarrow> Inl MissingRank
             | Some rank \<Rightarrow> found_item (TargetMissing i) (setCodingLedgerItem ledger i (\<lambda>it.
                 (if item_Rank it \<noteq> rank then it\<lparr>item_ReviewState := LedgerReviewProposed\<rparr> else it)\<lparr>item_Rank := rank\<rparr>)))
      | LedgerMutationOther _ \<Rightarrow> Inl (UnsupportedOperation (op_Kind op)))"

fun apply_ledger_operations ::
    "(LedgerItemID \<Rightarrow> LedgerTask option) \<Rightarrow> EngineeringLedger \<Rightarrow> LedgerMutationOperation list \<Rightarrow> repository_error + EngineeringLedger" where
  "apply_ledger_operations accepted ledger [] = Inr ledger"
| "apply_ledger_operations accepted ledger (op # ops) =
     bind_res (applyCodingLedgerOperation accepted ledger op) (\<lambda>l. apply_ledger_operations accepted l ops)"

definition applyCodingLedgerOperationsWithRestores ::
    "EngineeringLedger \<Rightarrow> LedgerMutationOperation list \<Rightarrow> (LedgerItemID \<Rightarrow> LedgerTask option) \<Rightarrow> repository_error + EngineeringLedger" where
  "applyCodingLedgerOperationsWithRestores ledger operations accepted =
     check_res (removed_and_restored [] [] operations) (apply_ledger_operations accepted ledger operations)"

definition cloneCodingLedger :: "EngineeringLedger \<Rightarrow> EngineeringLedger" where
  "cloneCodingLedger ledger = json_copy_ledger ledger"

definition sortCodingLedgerProjection :: "EngineeringLedger \<Rightarrow> EngineeringLedger" where
  "sortCodingLedgerProjection ledger = ledger\<lparr>led_Tasks := sort_key order_key (led_Tasks ledger)\<rparr>"

end
