(* ===== verification/Repository_Laws.thy ===== *)
theory Repository_Laws
  imports Ledger_Repository Samples
begin

text \<open>
  What the in-memory half of the ledger repository guarantees: the route check decides the shape of a
  configuration, an agreement survives a stored mutation only on a task the mutation left alone, and the
  repository's application of a mutation is simulated by the one the agent showed to its owner.
\<close>

section \<open>Operations at the task they name\<close>

lemma set_first_missing: "no_task i ts \<Longrightarrow> set_first_item i upd ts = None"
  by (induction ts) (auto simp: no_task_def)

lemma set_first_found:
  "no_task i pre \<Longrightarrow> task_ID t = i \<Longrightarrow> set_first_item i upd (pre @ t # post) = Some (pre @ on_item upd t # post)"
  by (induction pre) (auto simp: no_task_def)

lemma setCodingLedgerItem_found:
  "no_task i pre \<Longrightarrow> task_ID t = i \<Longrightarrow>
   setCodingLedgerItem (put_task l pre t post) i upd = Some (put_task l pre (on_item upd t) post)"
  by (simp add: setCodingLedgerItem_def set_first_found put_task_def)

lemma setCodingLedgerItem_missing: "no_task i (led_Tasks l) \<Longrightarrow> setCodingLedgerItem l i upd = None"
  by (simp add: setCodingLedgerItem_def set_first_missing)

lemma set_item_found:
  "no_task i pre \<Longrightarrow> task_ID t = i \<Longrightarrow> set_item (put_task l pre t post) i upd = put_task l pre (on_item upd t) post"
  by (simp add: set_item_def setCodingLedgerItem_found)

lemma reset_stored_found:
  "no_task i pre \<Longrightarrow> task_ID t = i \<Longrightarrow>
   resetCodingLedgerAffectedAgreements (put_task l pre t post) i = put_task l pre (on_item propose_if_active t) post"
  by (simp add: resetCodingLedgerAffectedAgreements_def set_item_found propose_if_active_def)

lemma replace_stored_found:
  "no_task i pre \<Longrightarrow> task_ID t = i \<Longrightarrow>
   replaceCodingLedgerMutationItem (put_task l pre t post) i (Some \<lparr>mi_Task = Some u\<rparr>) = Some (put_task l pre u post)"
  by (simp add: replaceCodingLedgerMutationItem_def replace_first_found put_task_def)

lemma replace_first_missing: "no_task i ts \<Longrightarrow> replace_first i u ts = None"
  by (induction ts) (auto simp: no_task_def)

lemma disposition_found:
  "no_task i pre \<Longrightarrow> task_ID t = i \<Longrightarrow>
   codingLedgerItemDisposition (put_task l pre t post) i = Some (task_Disposition t)"
  by (simp add: codingLedgerItemDisposition_def first_with_found)

lemma disposition_missing: "no_task i (led_Tasks l) \<Longrightarrow> codingLedgerItemDisposition l i = None"
  by (simp add: codingLedgerItemDisposition_def no_task_def first_with_None)

lemmas stored_simps =
  setCodingLedgerItem_found set_item_found reset_stored_found replace_stored_found disposition_found
  require_item_def found_item_def Let_def

text \<open>What an operation makes of the task it names; \<open>None\<close> when it is refused.\<close>

definition stored_task :: "(LedgerItemID \<Rightarrow> LedgerTask option) \<Rightarrow> LedgerMutationOperation \<Rightarrow> LedgerTask \<Rightarrow> LedgerTask option" where
  "stored_task accepted op t =
     (case op_Kind op of
        LedgerMutationAmend \<Rightarrow>
          (case op_Payload op of
             Some u \<Rightarrow> if task_active t then Some (on_item (\<lambda>it. it\<lparr>item_Disposition := LedgerDispositionActive,
               item_ReviewState := LedgerReviewProposed\<rparr>) u) else None
           | None \<Rightarrow> None)
      | LedgerMutationRemove \<Rightarrow>
          if task_active t then Some (on_item (\<lambda>it. it\<lparr>item_Disposition := LedgerDispositionTombstoned,
            item_ReviewState := LedgerReviewNone\<rparr>) t) else None
      | LedgerMutationRestore \<Rightarrow>
          (case accepted (op_TargetID op) of
             Some u \<Rightarrow> Some u
           | None \<Rightarrow> if task_Disposition t = LedgerDispositionTombstoned
               then Some (on_item (\<lambda>it. it\<lparr>item_Disposition := LedgerDispositionActive,
                 item_ReviewState := LedgerReviewProposed\<rparr>) t) else None)
      | LedgerMutationReview \<Rightarrow>
          if task_active t then Some (on_item (\<lambda>it. it\<lparr>item_ReviewState := op_ReviewState op\<rparr>) t) else None
      | LedgerMutationReorder \<Rightarrow>
          (case op_Rank op of
             Some r \<Rightarrow> if task_active t then Some (on_item (\<lambda>it.
               (if item_Rank it \<noteq> r then it\<lparr>item_ReviewState := LedgerReviewProposed\<rparr> else it)\<lparr>item_Rank := r\<rparr>) t) else None
           | None \<Rightarrow> None)
      | _ \<Rightarrow> None)"

lemma stored_operation_found:
  assumes "operation_ok op" "op_Kind op \<noteq> LedgerMutationAdd" "task_ID t = op_TargetID op" "no_task (op_TargetID op) pre"
  shows "applyCodingLedgerOperation accepted (put_task l pre t post) op = Inr l' \<longleftrightarrow>
    (\<exists>u. stored_task accepted op t = Some u \<and> l' = put_task l pre u post)"
proof (cases "op_Kind op")
  case LedgerMutationAmend
  then obtain u where "op_Item op = Some \<lparr>mi_Task = Some u\<rparr>" "op_Payload op = Some u" "task_ID u = op_TargetID op"
    using op_Payload_ok(2) [OF assms(1)] by blast
  then show ?thesis
    using LedgerMutationAmend assms(3,4)
    by (auto simp: applyCodingLedgerOperation_def amendCodingLedgerItem_def stored_task_def stored_simps propose_if_active_def)
next
  case LedgerMutationRestore
  then show ?thesis
    using assms(3,4)
    by (cases "accepted (op_TargetID op)"; cases "task_Disposition t")
      (auto simp: applyCodingLedgerOperation_def restoreCodingLedgerItem_def stored_task_def stored_simps propose_if_active_def)
next
  case LedgerMutationReorder
  then show ?thesis
    using assms(3,4)
    by (cases "op_Rank op") (auto simp: applyCodingLedgerOperation_def stored_task_def stored_simps)
qed (use assms in \<open>auto simp: applyCodingLedgerOperation_def stored_task_def stored_simps propose_if_active_def\<close>)

lemma stored_operation_missing:
  assumes "op_Kind op \<noteq> LedgerMutationAdd" "no_task (op_TargetID op) (led_Tasks l)"
  shows "applyCodingLedgerOperation accepted l op \<noteq> Inr l'"
proof -
  have "replaceCodingLedgerMutationItem l (op_TargetID op) it = None" for it
    using assms(2)
    by (auto simp: replaceCodingLedgerMutationItem_def replace_first_missing split: option.split)
  then show ?thesis
    using assms
    by (cases "op_Kind op")
      (auto simp: applyCodingLedgerOperation_def restoreCodingLedgerItem_def require_item_def found_item_def
        disposition_missing setCodingLedgerItem_missing Let_def split: option.splits)
qed

lemma stored_add:
  assumes "operation_ok op" "op_Kind op = LedgerMutationAdd" "op_Item op = Some \<lparr>mi_Task = Some t\<rparr>"
  shows "applyCodingLedgerOperation accepted l op = Inr l' \<longleftrightarrow>
    no_task (task_ID t) (led_Tasks l) \<and> l' = l\<lparr>led_Tasks := led_Tasks l @ [t]\<rparr>"
proof (cases rule: put_task_cases [of "task_ID t" l])
  case missing
  have "propose_if_active (task_Item t) = task_Item t"
    using assms by (auto simp: operation_ok_def propose_if_active_def)
  then show ?thesis
    using assms(2,3) missing reset_stored_found [of "task_ID t" "led_Tasks l" t l "[]"]
    by (auto simp: applyCodingLedgerOperation_def ledgerHasItem_def ledgerMutationItemID_def
        appendCodingLedgerMutationItem_def setCodingLedgerItem_missing put_task_def)
next
  case (found pre u post)
  then have "ledgerHasItem l (task_ID t)"
    by (metis ledgerHasItem_def option.distinct(1) setCodingLedgerItem_found)
  moreover have "\<not> no_task (task_ID t) (led_Tasks l)"
    using found(2) by (subst found(1)) (simp add: no_task_def)
  ultimately show ?thesis
    using assms(2,3) by (simp add: applyCodingLedgerOperation_def ledgerMutationItemID_def)
qed

section \<open>The repository follows the agent\<close>

text \<open>
  The two components apply a mutation with separate code. Their results may differ in one thing only: a
  reordered task keeps its agreement in the ledger the agent shows and loses it in the one the repository
  stores.
\<close>

definition same_but :: "LedgerItemID set \<Rightarrow> LedgerTask \<Rightarrow> LedgerTask \<Rightarrow> bool" where
  \<comment> \<open>equal, or equal but for the review state when the identity is in \<open>R\<close>\<close>
  "same_but R a b \<longleftrightarrow>
     a = b \<or> task_ID b \<in> R \<and> a = on_item (\<lambda>it. it\<lparr>item_ReviewState := task_ReviewState a\<rparr>) b"

definition reordered :: "LedgerMutationOperation list \<Rightarrow> LedgerItemID set" where
  "reordered ops = op_TargetID ` set (filter (\<lambda>op. op_Kind op = LedgerMutationReorder) ops)"

definition amends_active :: "LedgerMutationOperation list \<Rightarrow> bool" where
  "amends_active ops \<longleftrightarrow> list_all (\<lambda>op. op_Kind op = LedgerMutationAmend \<longrightarrow>
     (case op_Payload op of Some u \<Rightarrow> task_active u | None \<Rightarrow> True)) ops"

lemma same_but_cases:
  assumes "same_but R a b"
  obtains "a = b" | r where "task_ID b \<in> R" "a = on_item (\<lambda>it. it\<lparr>item_ReviewState := r\<rparr>) b"
  using assms unfolding same_but_def by blast

lemma same_butI: "task_ID b \<in> R \<Longrightarrow> same_but R (on_item (\<lambda>it. it\<lparr>item_ReviewState := r\<rparr>) b) b"
  by (simp add: same_but_def)

lemma same_but_refl [simp]: "same_but R a a"
  by (simp add: same_but_def)

lemma same_but_ID: "same_but R a b \<Longrightarrow> task_ID a = task_ID b"
  by (erule same_but_cases) simp_all

text \<open>What the agent makes of the task an operation names.\<close>

definition shown_task :: "LedgerMutationOperation \<Rightarrow> LedgerTask \<Rightarrow> LedgerTask option" where
  "shown_task op t =
     (case op_Kind op of
        LedgerMutationAmend \<Rightarrow>
          (case op_Payload op of
             Some u \<Rightarrow> if task_active t then Some (on_item propose_if_active u) else None | None \<Rightarrow> None)
      | LedgerMutationRemove \<Rightarrow>
          if task_active t then Some (on_item (\<lambda>it. it\<lparr>item_Disposition := LedgerDispositionTombstoned,
            item_ReviewState := LedgerReviewNone\<rparr>) t) else None
      | LedgerMutationRestore \<Rightarrow>
          (case task_Disposition t of
             LedgerDispositionActive \<Rightarrow> Some t
           | LedgerDispositionTombstoned \<Rightarrow> Some (on_item (\<lambda>it. it\<lparr>item_Disposition := LedgerDispositionActive,
               item_ReviewState := LedgerReviewProposed\<rparr>) t)
           | LedgerDispositionOther _ \<Rightarrow> None)
      | LedgerMutationReview \<Rightarrow>
          if task_active t then Some (on_item (\<lambda>it. it\<lparr>item_ReviewState := op_ReviewState op\<rparr>) t) else None
      | LedgerMutationReorder \<Rightarrow>
          (case op_Rank op of Some r \<Rightarrow> Some (on_item (\<lambda>it. it\<lparr>item_Rank := r\<rparr>) t) | None \<Rightarrow> None)
      | _ \<Rightarrow> None)"

lemma shown_operation_found:
  assumes "operation_ok op" "op_Kind op \<noteq> LedgerMutationAdd" "task_ID t = op_TargetID op" "no_task (op_TargetID op) pre"
    "shown_task op t = Some u"
  shows "applyPlanningOperation (put_task l pre t post) op = Inr (put_task l pre u post)"
proof (cases "op_Kind op")
  case LedgerMutationAmend
  then obtain v where "op_Item op = Some \<lparr>mi_Task = Some v\<rparr>" "op_Payload op = Some v" "task_ID v = op_TargetID op"
    using op_Payload_ok(2) [OF assms(1)] by blast
  then show ?thesis
    using LedgerMutationAmend assms apply_amend [of op v t pre l post] by (simp add: shown_task_def split: if_splits)
next
  case LedgerMutationReorder
  then show ?thesis
    using assms apply_reorder [of op _ t pre l post] by (auto simp: shown_task_def split: option.splits)
qed (use assms apply_remove [of op t pre l post] apply_restore [of op t pre l post] apply_review [of op t pre l post]
     in \<open>auto simp: shown_task_def split: if_splits LedgerDisposition.splits\<close>)

lemma shown_follows_stored:
  assumes ok: "operation_ok op" and same: "same_but R a b" and at: "task_ID b = op_TargetID op"
    and fits: "amends_active [op]" "reordered [op] \<subseteq> R" and stored: "stored_task (\<lambda>_. None) op b = Some b'"
  shows "\<exists>a'. shown_task op a = Some a' \<and> same_but R a' b'"
proof (cases "op_Kind op")
  case LedgerMutationAmend
  then obtain v where v: "op_Payload op = Some v" using op_Payload_ok(2) [OF ok] by blast
  then have "task_active v" using LedgerMutationAmend fits(1) by (simp add: amends_active_def)
  then have "on_item (\<lambda>it. it\<lparr>item_Disposition := LedgerDispositionActive, item_ReviewState := LedgerReviewProposed\<rparr>) v =
      on_item propose_if_active v"
    by (cases v; cases "task_Item v") (simp add: propose_if_active_def)
  with same show ?thesis
    by (elim same_but_cases) (use LedgerMutationAmend stored v in \<open>auto simp: stored_task_def shown_task_def split: if_splits\<close>)
next
  case LedgerMutationReorder
  then obtain r where r: "op_Rank op = Some r" using ok by (auto simp: operation_ok_def)
  have "task_ID b \<in> R" using LedgerMutationReorder fits(2) at by (simp add: reordered_def)
  then have "same_but R (on_item (\<lambda>it. it\<lparr>item_Rank := r\<rparr>) a) b'"
    using same LedgerMutationReorder stored r
    by (elim same_but_cases) (auto simp: stored_task_def same_but_def split: if_splits)
  with LedgerMutationReorder r show ?thesis by (simp add: shown_task_def)
next
  case LedgerMutationRemove
  with same stored show ?thesis
    by (elim same_but_cases) (simp_all add: stored_task_def shown_task_def split: if_splits)
next
  case LedgerMutationRestore
  with same stored show ?thesis
    by (elim same_but_cases) (simp_all add: stored_task_def shown_task_def split: if_splits)
next
  case LedgerMutationReview
  with same stored show ?thesis
    by (elim same_but_cases) (simp_all add: stored_task_def shown_task_def split: if_splits)
qed (use stored in \<open>simp_all add: stored_task_def\<close>)

definition follows :: "LedgerItemID set \<Rightarrow> EngineeringLedger \<Rightarrow> EngineeringLedger \<Rightarrow> bool" where
  "follows R shown stored \<longleftrightarrow> led_ID shown = led_ID stored \<and> tasks_ok (led_Tasks shown) \<and>
     list_all2 (same_but R) (led_Tasks shown) (led_Tasks stored)"

lemma follows_ids: "follows R shown stored \<Longrightarrow> map task_ID (led_Tasks shown) = map task_ID (led_Tasks stored)"
  unfolding follows_def by (auto simp: list_all2_conv_all_nth same_but_ID intro!: nth_equalityI)

lemma shown_keeps_ok:
  assumes "tasks_ok (led_Tasks l)" "operation_ok op" "applyPlanningOperation l op = Inr l'" "distinct (ledger_ids l')"
  shows "tasks_ok (led_Tasks l') \<and> led_ID l' = led_ID l \<and> led_Revision l' = led_Revision l"
  using operation_refines [OF assms(1,2)] assms(3,4) by (auto simp: steps_to_def split: option.splits)

lemma operation_followed:
  assumes ok: "operation_ok op" and sim: "follows R shown stored"
    and fits: "amends_active [op]" "reordered [op] \<subseteq> R"
    and step: "applyCodingLedgerOperation (\<lambda>_. None) stored op = Inr stored'"
  shows "\<exists>shown'. applyPlanningOperation shown op = Inr shown' \<and> follows R shown' stored' \<and>
    led_Revision shown' = led_Revision shown \<and> led_Revision stored' = led_Revision stored"
proof (cases "op_Kind op = LedgerMutationAdd")
  case True
  obtain t where t: "op_Item op = Some \<lparr>mi_Task = Some t\<rparr>" using op_Payload_ok(1) [OF ok True] by blast
  have new: "no_task (task_ID t) (led_Tasks stored)" and eq: "stored' = stored\<lparr>led_Tasks := led_Tasks stored @ [t]\<rparr>"
    using step stored_add [OF ok True t] by simp_all
  have "no_task (task_ID t) (led_Tasks shown)"
    using new follows_ids [OF sim] unfolding no_task_def by (metis (no_types) image_iff image_set)
  then have shown: "applyPlanningOperation shown op = Inr (shown\<lparr>led_Tasks := led_Tasks shown @ [t]\<rparr>)"
    "distinct (ledger_ids (shown\<lparr>led_Tasks := led_Tasks shown @ [t]\<rparr>))"
    using apply_add [OF True ok t, of shown] sim by (auto simp: follows_def tasks_ok_def no_task_def)
  show ?thesis
    using shown shown_keeps_ok [OF _ ok shown] sim eq by (auto simp: follows_def list_all2_appendI)
next
  case False
  show ?thesis
  proof (cases rule: put_task_cases [of "op_TargetID op" stored])
    case missing
    then show ?thesis using stored_operation_missing [OF False missing] step by blast
  next
    case (found pre b post)
    obtain b' where b': "stored_task (\<lambda>_. None) op b = Some b'" and stored': "stored' = put_task stored pre b' post"
      using step stored_operation_found [OF ok False found(2,3)] found(1) by metis
    have tasks: "led_Tasks stored = pre @ b # post" by (subst found(1)) simp
    obtain pre' a post' where shown: "led_Tasks shown = pre' @ a # post'"
      and split: "list_all2 (same_but R) pre' pre" "same_but R a b" "list_all2 (same_but R) post' post"
      using sim unfolding follows_def tasks by (auto simp: list_all2_append2 list_all2_Cons2)
    have eq: "shown = put_task shown pre' a post'" by (simp add: put_task_def shown [symmetric])
    have at: "task_ID a = op_TargetID op" using same_but_ID [OF split(2)] found(2) by simp
    have "map task_ID pre' = map task_ID pre"
      using split(1) by (auto simp: list_all2_conv_all_nth same_but_ID intro!: nth_equalityI)
    then have pre: "no_task (op_TargetID op) pre'" using found(3) unfolding no_task_def by (metis (no_types) image_iff image_set)
    obtain a' where a': "shown_task op a = Some a'" "same_but R a' b'"
      using shown_follows_stored [OF ok split(2) found(2) fits b'] by blast
    have run: "applyPlanningOperation shown op = Inr (put_task shown pre' a' post')"
      using shown_operation_found [OF ok False at pre a'(1)] by (subst eq)
    have sims: "list_all2 (same_but R) (pre' @ a' # post') (pre @ b' # post)"
      using split a'(2) by (simp add: list_all2_appendI)
    have "distinct (ledger_ids (put_task shown pre' a' post'))"
      using operation_ids [OF ok run] sim False by (simp add: follows_def tasks_ok_def)
    with sims sim stored' run show ?thesis using shown_keeps_ok [OF _ ok run] by (auto simp: follows_def)
  qed
qed

lemma operations_followed:
  assumes "\<forall>op\<in>set ops. operation_ok op" "follows R shown stored" "amends_active ops" "reordered ops \<subseteq> R"
    "apply_ledger_operations (\<lambda>_. None) stored ops = Inr stored'"
  shows "\<exists>shown'. applyPlanningOperations shown ops = Inr shown' \<and> follows R shown' stored' \<and>
    led_Revision shown' = led_Revision shown \<and> led_Revision stored' = led_Revision stored"
  using assms
proof (induction ops arbitrary: shown stored)
  case (Cons op ops)
  obtain mid where mid: "applyCodingLedgerOperation (\<lambda>_. None) stored op = Inr mid"
    "apply_ledger_operations (\<lambda>_. None) mid ops = Inr stored'"
    using Cons.prems(5) by auto
  have "amends_active [op]" "reordered [op] \<subseteq> R" "amends_active ops" "reordered ops \<subseteq> R"
    using Cons.prems(3,4) by (auto simp: amends_active_def reordered_def)
  then show ?case
    using operation_followed [OF _ Cons.prems(2) _ _ mid(1)] Cons.IH [OF _ _ _ _ mid(2)] Cons.prems(1) by fastforce
qed auto

text \<open>
  C5. The repository stores what the agent showed. If the repository's own application of a valid mutation to
  the current ledger succeeds and gives a valid draft, then the agent's
  \<^verbatim>\<open>ApplyPlanningMutation\<close> accepts the same mutation on the same ledger, with the same identity and revision and the same tasks in the
  same order. The two ledgers differ at most in the review state of tasks the mutation reorders. Amendments that
  would tombstone a task and restorations of an accepted contract, which only the repository knows, are left out.
\<close>

theorem repository_stores_what_agent_shows:
  assumes "ledger_stored current" "ledger_utf8 current"
    "ValidateLedgerMutation (led_Revision current) m = None" "amends_active (mut_Operations m)"
    "applyCodingLedgerOperationsWithRestores ((cloneCodingLedger current)\<lparr>led_Revision := int64 (led_Revision current + 1)\<rparr>)
       (mut_Operations m) (\<lambda>_. None) = Inr stored"
    "validateDraftLedgerForRepository stored = None"
  shows "\<exists>shown. ApplyPlanningMutation current m = Inr shown \<and> led_ID shown = led_ID stored \<and>
    led_Revision shown = led_Revision stored \<and>
    list_all2 (same_but (reordered (mut_Operations m))) (led_Tasks shown) (led_Tasks stored)"
proof -
  let ?next = "current\<lparr>led_Revision := int64 (led_Revision current + 1)\<rparr>"
  have copy: "json_copy_ledger current = current" using assms(2) by (rule json_copy_ledger_id)
  have ops: "\<forall>op\<in>set (mut_Operations m). operation_ok op"
    using assms(3) by (auto simp: ValidateLedgerMutation_def err_simps mutation_ok_def Let_def split: if_splits)
  have start: "follows (reordered (mut_Operations m)) current ?next"
    using assms(1) by (simp add: follows_def ledger_stored_def ledger_ok_iff list_all2_refl)
  have run: "apply_ledger_operations (\<lambda>_. None) ?next (mut_Operations m) = Inr stored"
    using assms(5) by (simp add: applyCodingLedgerOperationsWithRestores_def cloneCodingLedger_def copy)
  obtain shown where shown: "applyPlanningOperations current (mut_Operations m) = Inr shown"
    "follows (reordered (mut_Operations m)) shown stored" "led_Revision stored = int64 (led_Revision current + 1)"
    using operations_followed [OF ops start assms(4) subset_refl run] by auto
  let ?shown = "shown\<lparr>led_Revision := int64 (led_Revision current + 1)\<rparr>"
  have "ledger_ok ?shown"
    using shown(2,3) assms(6) by (simp add: follows_def ledger_ok_iff validateDraftLedgerForRepository_def err_simps)
  then have "ApplyPlanningMutation current m = Inr ?shown"
    using assms(1,3) shown(1) by (simp add: ApplyPlanningMutation_def copy ledger_stored_def err_simps Let_def)
  then show ?thesis using shown(2,3) by (intro exI [of _ ?shown]) (simp add: follows_def)
qed

definition sample_reorder :: LedgerMutation where
  "sample_reorder = sample_mutation 3
     [(sample_operation LedgerMutationReorder ''a'')\<lparr>op_Rank := Some 9\<rparr>, sample_operation LedgerMutationRemove ''b'']"

definition sample_reordered :: EngineeringLedger where
  "sample_reordered = sample_ledger\<lparr>led_Revision := 4, led_Tasks :=
     [sample_task (sample_item ''a'' 9 LedgerDispositionActive LedgerReviewProposed) ''parse'',
      sample_task (sample_item ''b'' 4 LedgerDispositionTombstoned LedgerReviewNone) ''print'', sample_c]\<rparr>"

lemma sample_reorder_stored:
  "applyCodingLedgerOperationsWithRestores ((cloneCodingLedger sample_ledger)\<lparr>led_Revision := int64 (led_Revision sample_ledger + 1)\<rparr>)
     (mut_Operations sample_reorder) (\<lambda>_. None) = Inr sample_reordered"
  "ValidateLedgerMutation (led_Revision sample_ledger) sample_reorder = None"
  "validateDraftLedgerForRepository sample_reordered = None" "amends_active (mut_Operations sample_reorder)"
  by code_simp+

theorem repository_stores_what_agent_shows_witness:
  "\<exists>shown. ApplyPlanningMutation sample_ledger sample_reorder = Inr shown \<and> led_ID shown = led_ID sample_reordered \<and>
    led_Revision shown = led_Revision sample_reordered \<and>
    list_all2 (same_but (reordered (mut_Operations sample_reorder))) (led_Tasks shown) (led_Tasks sample_reordered)"
  by (rule repository_stores_what_agent_shows [OF sample_ledger_ok(4,2) sample_reorder_stored(2,4,1,3)])

section \<open>Agreements\<close>

lemma stored_step_agreed:
  assumes ok: "operation_ok op" and acc: "\<And>u. accepted (op_TargetID op) = Some u \<Longrightarrow> task_ReviewState u \<noteq> LedgerReviewAgreed"
    and step: "applyCodingLedgerOperation accepted l op = Inr l'"
    and agreed: "t \<in> set (led_Tasks l')" "task_ReviewState t = LedgerReviewAgreed"
    and other: "op_Kind op = LedgerMutationReview \<Longrightarrow> op_TargetID op \<noteq> task_ID t"
  shows "t \<in> set (led_Tasks l)"
proof (cases "op_Kind op = LedgerMutationAdd")
  case True
  obtain u where u: "op_Item op = Some \<lparr>mi_Task = Some u\<rparr>" using op_Payload_ok(1) [OF ok True] by blast
  have "task_ReviewState u = LedgerReviewProposed" using ok True u by (auto simp: operation_ok_def)
  then show ?thesis using step agreed stored_add [OF ok True u] by auto
next
  case False
  show ?thesis
  proof (cases rule: put_task_cases [of "op_TargetID op" l])
    case missing
    then show ?thesis using stored_operation_missing [OF False missing] step by blast
  next
    case (found pre b post)
    have tasks: "led_Tasks l = pre @ b # post" by (subst found(1)) simp
    obtain u where u: "stored_task accepted op b = Some u" "l' = put_task l pre u post"
      using step stored_operation_found [OF ok False found(2,3)] found(1) by metis
    consider "t \<in> set (pre @ post)" | "t = u" using agreed(1) u(2) by auto
    then show ?thesis
    proof cases
      case 2
      have "u = b"
        using u(1) 2 agreed(2) acc other found(2) False
        by (cases "op_Kind op") (auto simp: stored_task_def split: option.splits if_splits)
      then show ?thesis using 2 tasks by simp
    qed (simp add: tasks)
  qed
qed

lemma stored_steps_agreed:
  assumes "\<forall>op\<in>set ops. operation_ok op" "\<And>i u. accepted i = Some u \<Longrightarrow> task_ReviewState u \<noteq> LedgerReviewAgreed"
    "apply_ledger_operations accepted l ops = Inr l'" "t \<in> set (led_Tasks l')" "task_ReviewState t = LedgerReviewAgreed"
    "\<forall>op\<in>set ops. op_Kind op = LedgerMutationReview \<longrightarrow> op_TargetID op \<noteq> task_ID t"
  shows "t \<in> set (led_Tasks l)"
  using assms
proof (induction ops arbitrary: l)
  case (Cons op ops)
  then obtain mid where mid: "applyCodingLedgerOperation accepted l op = Inr mid"
    "apply_ledger_operations accepted mid ops = Inr l'" by auto
  have "t \<in> set (led_Tasks mid)"
    by (rule Cons.IH [OF _ Cons.prems(2) mid(2) Cons.prems(4,5)]) (use Cons.prems in auto)
  then show ?case
    using stored_step_agreed [OF _ Cons.prems(2) mid(1) _ Cons.prems(5)] Cons.prems(1,6) by auto
qed simp


definition sample_drop_b :: LedgerMutation where
  "sample_drop_b = sample_mutation 3 [sample_operation LedgerMutationRemove ''b'']"

definition sample_without_b :: EngineeringLedger where
  "sample_without_b = sample_ledger\<lparr>led_Tasks :=
     [sample_a, sample_task (sample_item ''b'' 4 LedgerDispositionTombstoned LedgerReviewNone) ''print'', sample_c]\<rparr>"

lemma sample_drop_b_stored:
  "LedgerMutation_Validate sample_drop_b = None"
  "applyCodingLedgerOperationsWithRestores sample_ledger (mut_Operations sample_drop_b) (\<lambda>_. None) = Inr sample_without_b"
  "sample_a \<in> set (led_Tasks sample_without_b)" "task_ReviewState sample_a = LedgerReviewAgreed"
  "\<forall>op\<in>set (mut_Operations sample_drop_b). op_Kind op = LedgerMutationReview \<longrightarrow> op_TargetID op \<noteq> task_ID sample_a"
  by code_simp+


section \<open>Routes\<close>

definition known_role :: "string \<Rightarrow> bool" where
  "known_role s \<longleftrightarrow> s \<in> {''planner'', ''executor'', ''reviewer''}"

definition route_ok :: "int \<Rightarrow> CodingLedgerRoute \<Rightarrow> bool" where
  "route_ok revision r \<longleftrightarrow> known_role (lr_Role r) \<and> 0 < lr_ConfigurationRevision r \<and> lr_ConfigurationRevision r \<le> revision \<and>
     list_all (\<lambda>s. \<not> route_option_bad s) [lr_Provider r, lr_Model r, lr_ReasoningEffort r, lr_ServiceTier r]"

lemma routes_loop_Cons:
  "routes_loop revision seen conf (r # routes) = None \<longleftrightarrow>
    route_ok revision r \<and> lr_Role r \<notin> set seen \<and> (conf = 0 \<or> conf = lr_ConfigurationRevision r) \<and>
    routes_loop revision (lr_Role r # seen) (lr_ConfigurationRevision r) routes = None"
  unfolding route_ok_def known_role_def routes_loop.simps Let_def
  by (simp del: insert_iff add: not_le not_less list_ex_iff list_all_iff)

declare routes_loop.simps(2) [simp del]

lemma routes_loop_None:
  "conf \<noteq> 0 \<Longrightarrow> routes_loop revision seen conf routes = None \<longleftrightarrow>
    distinct (map lr_Role routes) \<and> set (map lr_Role routes) \<inter> set seen = {} \<and>
    (\<forall>r\<in>set routes. route_ok revision r \<and> lr_ConfigurationRevision r = conf)"
proof (induction routes arbitrary: seen)
  case (Cons r routes)
  show ?case
    using Cons.IH [of "lr_Role r # seen"] Cons.prems
    by (cases "lr_ConfigurationRevision r = conf") (auto simp: routes_loop_Cons)
qed simp

lemma three_roles:
  assumes "length roles = 3"
  shows "distinct roles \<and> (\<forall>s\<in>set roles. known_role s) \<longleftrightarrow> mset roles = {#''planner'', ''executor'', ''reviewer''#}"
proof
  assume roles: "distinct roles \<and> (\<forall>s\<in>set roles. known_role s)"
  then have "set roles \<subseteq> {''planner'', ''executor'', ''reviewer''}" by (auto simp: known_role_def)
  moreover have "card (set roles) = 3" using roles assms by (simp add: distinct_card)
  moreover have "card {''planner'', ''executor'', ''reviewer''} = 3" by simp
  ultimately have "set roles = set [''planner'', ''executor'', ''reviewer'']"
    by (simp add: card_subset_eq)
  then show "mset roles = {#''planner'', ''executor'', ''reviewer''#}"
    using roles set_eq_iff_mset_eq_distinct [of roles "[''planner'', ''executor'', ''reviewer'']"] by simp
next
  assume m: "mset roles = {#''planner'', ''executor'', ''reviewer''#}"
  then have "mset roles = mset [''planner'', ''executor'', ''reviewer'']" by simp
  from mset_eq_imp_distinct_iff [OF this] mset_eq_setD [OF this]
  have "distinct roles" "set roles = set [''planner'', ''executor'', ''reviewer'']" by simp_all
  then show "distinct roles \<and> (\<forall>s\<in>set roles. known_role s)" by (simp add: known_role_def)
qed

lemma option_ok: "\<not> route_option_bad s \<longleftrightarrow> s \<noteq> [] \<and> TrimSpace s = s \<and> set s \<inter> {CHR 0x00, CHR 0x0D, CHR 0x0A} = {}"
  unfolding route_option_bad_def ContainsAny_def by fastforce

text \<open>
  C40. The route check decides the shape of a configuration. It accepts a list of routes exactly when planner,
  executor and reviewer are each routed once, all three under one configuration revision between 1 and the given
  revision, and every provider option is a non-empty trimmed line.
\<close>

theorem validateCodingLedgerRoutes_decides:
  "validateCodingLedgerRoutes routes revision = None \<longleftrightarrow>
    mset (map lr_Role routes) = {#''planner'', ''executor'', ''reviewer''#} \<and>
    (\<exists>c. 0 < c \<and> c \<le> revision \<and> list_all (\<lambda>r. lr_ConfigurationRevision r = c) routes) \<and>
    list_all (\<lambda>r. list_all (\<lambda>s. s \<noteq> [] \<and> TrimSpace s = s \<and> set s \<inter> {CHR 0x00, CHR 0x0D, CHR 0x0A} = {})
      [lr_Provider r, lr_Model r, lr_ReasoningEffort r, lr_ServiceTier r]) routes"
proof (cases "length routes = 3")
  case True
  then obtain r q p where routes: "routes = [r, q, p]" by (auto simp: numeral_3_eq_3 length_Suc_conv)
  have "validateCodingLedgerRoutes routes revision = None \<longleftrightarrow> distinct (map lr_Role routes) \<and>
      (\<forall>x\<in>set routes. route_ok revision x \<and> lr_ConfigurationRevision x = lr_ConfigurationRevision r)"
    unfolding validateCodingLedgerRoutes_def routes
    by (cases "lr_ConfigurationRevision r = 0")
      (simp add: routes_loop_Cons [of _ _ 0] route_ok_def, auto simp: routes_loop_Cons [of _ _ 0] routes_loop_None)
  also have "\<dots> \<longleftrightarrow> (distinct (map lr_Role routes) \<and> (\<forall>s\<in>set (map lr_Role routes). known_role s)) \<and>
      (\<exists>c. 0 < c \<and> c \<le> revision \<and> list_all (\<lambda>x. lr_ConfigurationRevision x = c) routes) \<and>
      list_all (\<lambda>x. list_all (\<lambda>s. \<not> route_option_bad s) [lr_Provider x, lr_Model x, lr_ReasoningEffort x, lr_ServiceTier x]) routes"
    unfolding routes route_ok_def by auto
  finally show ?thesis using three_roles [of "map lr_Role routes"] True by (simp only: option_ok length_map)
next
  case False
  have "mset (map lr_Role routes) \<noteq> {#''planner'', ''executor'', ''reviewer''#}"
  proof
    assume "mset (map lr_Role routes) = {#''planner'', ''executor'', ''reviewer''#}"
    then have "size (mset (map lr_Role routes)) = 3" by (simp only: size_add_mset size_empty)
    then show False using False by simp
  qed
  then show ?thesis using False by (simp add: validateCodingLedgerRoutes_def)
qed

end
