(* ===== verification/Ledger_Store.thy ===== *)
theory Ledger_Store
  imports Ledger_Repository
begin

text \<open>
  The tables that hold one coding ledger (\<^verbatim>\<open>database/setup.sql\<close>) and the statements of
  \<^verbatim>\<open>internal/queue/coding_plan_store.go\<close> and \<^verbatim>\<open>coding_plan_read.go\<close> over
  them.

  \<open>ledger_db\<close> holds the row of \<^verbatim>\<open>coding_ledgers\<close> and, in the order they were inserted, the
  rows of the other tables that carry its \<^verbatim>\<open>ledger_id\<close>; every statement of the code names one
  ledger, so the rows of other ledgers never meet. A statement gives the changed tables or an error, and an
  error ends the transaction with nothing kept. Primary and foreign keys, column checks, and the triggers
  that guard inserted content, revisions and transitions of the ledger row are written out. What else the
  database may refuse (the audit of a freeze, the deferred constraints, a lost connection) is the
  parameter \<open>dbe_Refuse\<close>: it may refuse any change of the tables, and no law depends on what it refuses.
  \<open>dbe_Collate\<close> gives the sort key of a text column and \<open>dbe_Like\<close> decides the case-folded text
  search in a payload, and \<open>dbe_Text\<close> is the text of a payload as the database returns it. A payload column holds the task as its encoding returns it (\<open>json_copy_task\<close>).
  Timestamps, the job's generation and the amendments still pending in other tables are left out.
\<close>

section \<open>Rows\<close>

datatype ledger_state = LedgerProposed | LedgerFrozen | LedgerRevising | LedgerCompleted | LedgerCancelled

datatype revision_state = RevisionProposed | RevisionFrozen

datatype owner_action = ActionPlanning | ActionPlanningControl | ActionExecutionConfiguration | ActionSignOff | ActionCancel

datatype agent_task_state = TaskReady | TaskAccepted | TaskCancelled

record revision_row =
  rw_Revision :: int
  rw_BaseRevision :: int
  rw_OperationID :: string
  rw_OwnerTurnID :: string
  rw_State :: revision_state
  rw_Mutation :: "LedgerMutation option"

record version_row =
  vs_ItemID :: LedgerItemID
  vs_Revision :: int
  vs_Removed :: bool
  vs_ReviewState :: "LedgerReviewState option"
  vs_Rank :: int
  vs_Payload :: LedgerTask
  vs_Rationale :: string
  vs_RemovedBy :: "string option"

record projection_row =
  pj_Revision :: int
  pj_ItemID :: LedgerItemID
  pj_ItemRevision :: int

record turn_row =
  tn_OwnerTurnID :: string
  tn_BaseRevision :: int
  tn_Action :: owner_action
  tn_Text :: string

record disposition_row =
  dp_OwnerTurnID :: string
  dp_Revision :: int
  dp_Statements :: "OwnerStatementDisposition list"

record task_row =
  at_Revision :: int
  at_ItemID :: LedgerItemID
  at_State :: agent_task_state
  at_FairnessKey :: int
  at_Version :: int

record ledger_db =
  db_LedgerID :: int
  db_JobID :: int
  db_Current :: int
  db_Frozen :: "int option"
  db_State :: ledger_state
  db_Revisions :: "revision_row list"
  db_Items :: "(LedgerItemID \<times> int) list"
  db_Versions :: "version_row list"
  db_Projections :: "projection_row list"
  db_Origins :: "(LedgerItemID \<times> int \<times> string) list"
  db_Turns :: "turn_row list"
  db_Dispositions :: "disposition_row list"
  db_TurnItems :: "(string \<times> LedgerItemID) list"
  db_Routes :: "(int \<times> CodingLedgerRoute) list"
  db_Tasks :: "task_row list"

record database =
  dbe_Refuse :: "ledger_db \<Rightarrow> ledger_db \<Rightarrow> bool"
  dbe_Collate :: "string \<Rightarrow> string"
  dbe_Like :: "string \<Rightarrow> LedgerTask \<Rightarrow> bool"
  dbe_Text :: "LedgerTask \<Rightarrow> string"

datatype store_error =
    NoRows
  | ReferenceMissing
  | Refused
  | KeyExists
  | CheckViolated
  | ContentImmutable
  | StaleLedgerRevision
  | TransitionInvalid
  | RowsChanged
  | RepositoryError repository_error
  | LedgerInvalid ledger_error
  | TaskPacketInvalid contract_error
  | TaskNotActive LedgerItemID
  | CommandIncomplete
  | OwnerTurnIncomplete
  | TurnItemUnavailable LedgerItemID
  | OperationReused string
  | ReplayDiffers
  | StateConflict ledger_state
  | RevisionConflict int int
  | NotAgreed LedgerItemID
  | NoAcceptedContract LedgerItemID
  | UnsupportedTarget
  | NegativePage
  | NotReady agent_task_state
  | NotEveryTaskAccepted
  | NotAuthorized
  | RevisionMoved
  | NoParserRoute
  | UnknownRole string
  | NotThreeRoutes
  | ConfigurationInvalid contract_error

section \<open>Statements\<close>

definition exec :: "database \<Rightarrow> ledger_db \<Rightarrow> ledger_db \<Rightarrow> store_error + ledger_db" where
  "exec env db db' = (if dbe_Refuse env db db' then Inl Refused else Inr db')"

definition content_open :: "ledger_db \<Rightarrow> int \<Rightarrow> bool" where
  \<comment> \<open>the trigger on inserted content: only the current revision of a ledger that is not frozen\<close>
  "content_open db revision \<longleftrightarrow> db_State db \<in> {LedgerProposed, LedgerRevising} \<and> revision = db_Current db"

definition turn_open :: "ledger_db \<Rightarrow> turn_row \<Rightarrow> bool" where
  "turn_open db t \<longleftrightarrow>
     (case tn_Action t of
        ActionCancel \<Rightarrow> db_State db \<in> {LedgerProposed, LedgerFrozen, LedgerRevising} \<and> tn_BaseRevision t = db_Current db
      | ActionSignOff \<Rightarrow> db_State db = LedgerProposed \<and> tn_BaseRevision t = db_Current db \<and> db_Current db \<noteq> 0
      | _ \<Rightarrow> db_State db \<in> {LedgerProposed, LedgerRevising} \<and> tn_BaseRevision t + 1 = db_Current db + 1)"

definition find_version :: "ledger_db \<Rightarrow> LedgerItemID \<Rightarrow> int \<Rightarrow> version_row option" where
  "find_version db i revision = first_with (\<lambda>v. vs_ItemID v = i \<and> vs_Revision v = revision) (db_Versions db)"

definition revision_exists :: "ledger_db \<Rightarrow> int \<Rightarrow> bool" where
  "revision_exists db revision \<longleftrightarrow> revision \<in> set (map rw_Revision (db_Revisions db))"

definition insert_turn :: "database \<Rightarrow> turn_row \<Rightarrow> ledger_db \<Rightarrow> store_error + ledger_db" where
  "insert_turn env t db =
     (if tn_OwnerTurnID t \<in> set (map tn_OwnerTurnID (db_Turns db)) then Inl KeyExists
      else if \<not> turn_open db t then Inl ContentImmutable
      else exec env db (db\<lparr>db_Turns := db_Turns db @ [t]\<rparr>))"

definition revision_insertable :: "ledger_db \<Rightarrow> revision_row \<Rightarrow> bool" where
  "revision_insertable db r \<longleftrightarrow>
     rw_BaseRevision r = db_Current db \<and> rw_Revision r = db_Current db + 1 \<and>
     list_ex (\<lambda>t. tn_OwnerTurnID t = rw_OwnerTurnID r \<and> tn_BaseRevision t = rw_BaseRevision r) (db_Turns db)"

definition insert_revision :: "database \<Rightarrow> revision_row \<Rightarrow> ledger_db \<Rightarrow> store_error + ledger_db" where
  \<comment> \<open>with the trigger that advances the current revision of the ledger row, which a frozen or closed row refuses\<close>
  "insert_revision env r db =
     (if rw_OperationID r \<in> set (map rw_OperationID (db_Revisions db)) \<or>
         rw_Revision r \<in> set (map rw_Revision (db_Revisions db)) then Inl KeyExists
      else if \<not> revision_insertable db r then Inl StaleLedgerRevision
      else if db_State db \<notin> {LedgerProposed, LedgerRevising} then Inl TransitionInvalid
      else exec env db (db\<lparr>db_Revisions := db_Revisions db @ [r], db_Current := rw_Revision r\<rparr>))"

definition insert_item :: "database \<Rightarrow> LedgerItemID \<Rightarrow> int \<Rightarrow> ledger_db \<Rightarrow> store_error + ledger_db" where
  "insert_item env i revision db =
     (if i \<in> set (map fst (db_Items db)) then Inl KeyExists
      else if \<not> codingLedgerItemIDPattern i then Inl CheckViolated
      else if \<not> revision_exists db revision then Inl ReferenceMissing
      else if \<not> content_open db revision then Inl ContentImmutable
      else exec env db (db\<lparr>db_Items := db_Items db @ [(i, revision)]\<rparr>))"

definition version_check :: "version_row \<Rightarrow> bool" where
  "version_check v \<longleftrightarrow> 0 \<le> vs_Rank v \<and>
     (if vs_Removed v then vs_ReviewState v = None \<and> vs_RemovedBy v \<noteq> None
      else vs_RemovedBy v = None \<and> vs_ReviewState v \<in> {Some LedgerReviewProposed, Some LedgerReviewAgreed, Some LedgerReviewNeedsDiscussion})"

definition insert_version :: "database \<Rightarrow> version_row \<Rightarrow> ledger_db \<Rightarrow> store_error + ledger_db" where
  "insert_version env v db =
     (if list_ex (\<lambda>u. vs_ItemID u = vs_ItemID v \<and> vs_Revision u = vs_Revision v) (db_Versions db) then Inl KeyExists
      else if \<not> version_check v then Inl CheckViolated
      else if vs_ItemID v \<notin> set (map fst (db_Items db)) \<or> \<not> revision_exists db (vs_Revision v) then Inl ReferenceMissing
      else if \<not> content_open db (vs_Revision v) then Inl ContentImmutable
      else exec env db (db\<lparr>db_Versions := db_Versions db @ [v]\<rparr>))"

definition insert_origin :: "database \<Rightarrow> LedgerItemID \<Rightarrow> int \<Rightarrow> string \<Rightarrow> ledger_db \<Rightarrow> store_error + ledger_db" where
  "insert_origin env i revision detail db =
     (if list_ex (\<lambda>(j, r, _). j = i \<and> r = revision) (db_Origins db) then Inl KeyExists
      else if find_version db i revision = None then Inl ReferenceMissing
      else if \<not> content_open db revision then Inl ContentImmutable
      else exec env db (db\<lparr>db_Origins := db_Origins db @ [(i, revision, detail)]\<rparr>))"

definition insert_projection :: "database \<Rightarrow> projection_row \<Rightarrow> ledger_db \<Rightarrow> store_error + ledger_db" where
  "insert_projection env p db =
     (if list_ex (\<lambda>q. pj_Revision q = pj_Revision p \<and> pj_ItemID q = pj_ItemID p) (db_Projections db) then Inl KeyExists
      else if pj_ItemRevision p > pj_Revision p then Inl CheckViolated
      else if find_version db (pj_ItemID p) (pj_ItemRevision p) = None \<or> \<not> revision_exists db (pj_Revision p) then Inl ReferenceMissing
      else if \<not> content_open db (pj_Revision p) then Inl ContentImmutable
      else exec env db (db\<lparr>db_Projections := db_Projections db @ [p]\<rparr>))"

definition insert_route :: "database \<Rightarrow> int \<Rightarrow> CodingLedgerRoute \<Rightarrow> ledger_db \<Rightarrow> store_error + ledger_db" where
  "insert_route env revision route db =
     (if list_ex (\<lambda>(r, q). r = revision \<and> lr_Role q = lr_Role route) (db_Routes db) then Inl KeyExists
      else if lr_ConfigurationRevision route \<le> 0 \<or> lr_ConfigurationRevision route > revision then Inl CheckViolated
      else if \<not> revision_exists db revision \<or> \<not> revision_exists db (lr_ConfigurationRevision route) then Inl ReferenceMissing
      else if \<not> content_open db revision then Inl ContentImmutable
      else exec env db (db\<lparr>db_Routes := db_Routes db @ [(revision, route)]\<rparr>))"

definition insert_disposition :: "database \<Rightarrow> disposition_row \<Rightarrow> ledger_db \<Rightarrow> store_error + ledger_db" where
  "insert_disposition env d db =
     (if dp_OwnerTurnID d \<in> set (map dp_OwnerTurnID (db_Dispositions db)) then Inl KeyExists
      else if dp_OwnerTurnID d \<notin> set (map tn_OwnerTurnID (db_Turns db)) \<or> \<not> revision_exists db (dp_Revision d) then Inl ReferenceMissing
      else if \<not> content_open db (dp_Revision d) then Inl ContentImmutable
      else exec env db (db\<lparr>db_Dispositions := db_Dispositions db @ [d]\<rparr>))"

definition insert_turn_item :: "database \<Rightarrow> int \<Rightarrow> string \<Rightarrow> LedgerItemID \<Rightarrow> ledger_db \<Rightarrow> store_error + ledger_db" where
  \<comment> \<open>no row is inserted for an unknown item or an existing row, and then the caller fails\<close>
  "insert_turn_item env revision turnID i db =
     (if i \<notin> set (map fst (db_Items db)) \<or> (turnID, i) \<in> set (db_TurnItems db) then Inl (TurnItemUnavailable i)
      else if \<not> content_open db revision then Inl ContentImmutable
      else exec env db (db\<lparr>db_TurnItems := db_TurnItems db @ [(turnID, i)]\<rparr>))"

fun each :: "('a \<Rightarrow> 's \<Rightarrow> 'e + 's) \<Rightarrow> 'a list \<Rightarrow> 's \<Rightarrow> 'e + 's" where
  \<comment> \<open>a loop of statements that ends at the first error\<close>
  "each f [] s = Inr s"
| "each f (x # xs) s = bind_res (f x s) (each f xs)"

subsection \<open>Transitions of the ledger row\<close>

fun max_revision :: "int list \<Rightarrow> int" where
  \<comment> \<open>\<^verbatim>\<open>COALESCE(max(revision),0)\<close> over positive revisions\<close>
  "max_revision [] = 0"
| "max_revision (r # rs) = max r (max_revision rs)"

definition last_frozen :: "ledger_db \<Rightarrow> int \<Rightarrow> int" where
  "last_frozen db bound =
     max_revision (map rw_Revision (filter (\<lambda>r. rw_State r = RevisionFrozen \<and> rw_Revision r \<le> bound) (db_Revisions db)))"

definition state_shape :: "ledger_db \<Rightarrow> bool" where
  "state_shape db \<longleftrightarrow>
     (case db_State db of
        LedgerFrozen \<Rightarrow> db_Frozen db = Some (db_Current db) \<and> 0 < db_Current db
      | LedgerCompleted \<Rightarrow> db_Frozen db = Some (db_Current db) \<and> 0 < db_Current db
      | LedgerCancelled \<Rightarrow> (case db_Frozen db of None \<Rightarrow> True | Some f \<Rightarrow> 0 < f \<and> f \<le> db_Current db)
      | _ \<Rightarrow> db_Frozen db = None)"

definition transition_open :: "ledger_state \<Rightarrow> ledger_state \<Rightarrow> bool" where
  "transition_open old new \<longleftrightarrow>
     (case old of
        LedgerProposed \<Rightarrow> new \<in> {LedgerProposed, LedgerFrozen, LedgerCancelled}
      | LedgerFrozen \<Rightarrow> new \<in> {LedgerFrozen, LedgerRevising, LedgerCompleted, LedgerCancelled}
      | LedgerRevising \<Rightarrow> new \<in> {LedgerRevising, LedgerProposed, LedgerCancelled}
      | _ \<Rightarrow> False)"

definition queued_at :: "ledger_db \<Rightarrow> int \<Rightarrow> bool" where
  "queued_at db revision \<longleftrightarrow> list_ex (\<lambda>t. at_Revision t = revision \<and> at_State t = TaskReady) (db_Tasks db)"

definition last_frozen_of :: "ledger_db \<Rightarrow> int option" where
  \<comment> \<open>the frozen revision, or else the last one before; \<^verbatim>\<open>NULL\<close> when there is none\<close>
  "last_frozen_of db =
     (case db_Frozen db of
        Some f \<Rightarrow> Some f
      | None \<Rightarrow> if last_frozen db (db_Current db) = 0 then None else Some (last_frozen db (db_Current db)))"

definition cancel_open :: "ledger_db \<Rightarrow> ledger_db \<Rightarrow> bool" where
  "cancel_open db db' \<longleftrightarrow> db_Frozen db' = last_frozen_of db \<and>
     list_ex (\<lambda>t. tn_Action t = ActionCancel \<and> tn_BaseRevision t = db_Current db) (db_Turns db) \<and>
     (case last_frozen_of db of Some f \<Rightarrow> \<not> queued_at db f | None \<Rightarrow> True)"

definition projected :: "ledger_db \<Rightarrow> int \<Rightarrow> version_row list" where
  \<comment> \<open>the join of the projection of a revision with items and versions\<close>
  "projected db revision =
     concat (map (\<lambda>p. case find_version db (pj_ItemID p) (pj_ItemRevision p) of Some v \<Rightarrow> [v] | None \<Rightarrow> [])
       (filter (\<lambda>p. pj_Revision p = revision \<and> pj_ItemID p \<in> set (map fst (db_Items db))) (db_Projections db)))"

definition complete_open :: "ledger_db \<Rightarrow> ledger_db \<Rightarrow> bool" where
  "complete_open db db' \<longleftrightarrow>
     (case db_Frozen db' of
        None \<Rightarrow> True
      | Some f \<Rightarrow>
          list_all (\<lambda>v. vs_Removed v \<or>
            list_ex (\<lambda>t. at_Revision t = f \<and> at_ItemID t = vs_ItemID v \<and> at_State t = TaskAccepted) (db_Tasks db)) (projected db f) \<and>
          list_all (\<lambda>t. at_Revision t = f \<longrightarrow> at_State t = TaskAccepted) (db_Tasks db))"

definition update_ledger :: "database \<Rightarrow> ledger_state \<Rightarrow> int option \<Rightarrow> ledger_db \<Rightarrow> store_error + ledger_db" where
  \<comment> \<open>an update of state and frozen revision under the trigger on the ledger row and its check\<close>
  "update_ledger env state frozen db =
     (let db' = db\<lparr>db_State := state, db_Frozen := frozen\<rparr> in
      if \<not> transition_open (db_State db) state \<or> \<not> state_shape db' \<or>
         (state = LedgerCancelled \<and> \<not> cancel_open db db') \<or>
         (state = LedgerCompleted \<and> \<not> complete_open db db') then Inl TransitionInvalid
      else exec env db db')"

definition update_where :: "bool \<Rightarrow> store_error + ledger_db \<Rightarrow> store_error + ledger_db" where
  \<comment> \<open>an update of the ledger row that must meet its condition: no row changed is an error\<close>
  "update_where condition update = (if condition then update else Inl RowsChanged)"

section \<open>Writing a revision\<close>

definition insertCodingLedgerOwnerTurnTx ::
    "database \<Rightarrow> string \<Rightarrow> int \<Rightarrow> owner_action \<Rightarrow> string \<Rightarrow> ledger_db \<Rightarrow> store_error + ledger_db" where
  "insertCodingLedgerOwnerTurnTx env turnID baseRevision action exactText db =
     (if blank turnID \<or> blank exactText then Inl OwnerTurnIncomplete
      else insert_turn env \<lparr>tn_OwnerTurnID = turnID, tn_BaseRevision = baseRevision, tn_Action = action, tn_Text = exactText\<rparr> db)"

definition json_copy_statement :: "OwnerStatementDisposition \<Rightarrow> OwnerStatementDisposition" where
  "json_copy_statement s =
     \<lparr>stmt_Kind = (case stmt_Kind s of OwnerTurnOther k \<Rightarrow> OwnerTurnOther (coerce_utf8 k) | k \<Rightarrow> k),
      stmt_ItemIDs = map coerce_utf8 (stmt_ItemIDs s), stmt_Reason = coerce_utf8 (stmt_Reason s)\<rparr>"

definition insertCodingLedgerDispositionTx ::
    "database \<Rightarrow> int \<Rightarrow> string \<Rightarrow> OwnerTurnDisposition \<Rightarrow> ledger_db \<Rightarrow> store_error + ledger_db" where
  "insertCodingLedgerDispositionTx env revision turnID disposition db =
     bind_res (insert_disposition env \<lparr>dp_OwnerTurnID = turnID, dp_Revision = revision,
         dp_Statements = map json_copy_statement (StatementDispositions disposition)\<rparr> db)
       (each (insert_turn_item env revision turnID)
         (remdups (concat (map stmt_ItemIDs (StatementDispositions disposition)))))"

definition version_of :: "int \<Rightarrow> string \<Rightarrow> LedgerTask \<Rightarrow> version_row" where
  "version_of revision ownerTurnID t =
     (let removed = (task_Disposition t = LedgerDispositionTombstoned) in
      \<lparr>vs_ItemID = task_ID t, vs_Revision = revision, vs_Removed = removed,
       vs_ReviewState = (if removed then None else Some (task_ReviewState t)), vs_Rank = task_Rank t,
       vs_Payload = json_copy_task t, vs_Rationale = item_Rationale (task_Item t),
       vs_RemovedBy = (if removed then Some ownerTurnID else None)\<rparr>)"

definition unchanged_version :: "version_row \<Rightarrow> LedgerTask \<Rightarrow> bool" where
  "unchanged_version prior t \<longleftrightarrow> vs_Payload prior = json_copy_task t \<and>
     (if vs_Removed prior then LedgerDispositionTombstoned else LedgerDispositionActive) = task_Disposition t \<and>
     (case vs_ReviewState prior of Some s \<Rightarrow> s | None \<Rightarrow> LedgerReviewNone) = task_ReviewState t \<and>
     vs_Rank prior = task_Rank t \<and> vs_Rationale prior = item_Rationale (task_Item t)"

definition persist_task ::
    "database \<Rightarrow> int \<Rightarrow> string \<Rightarrow> version_row list \<Rightarrow> LedgerTask \<Rightarrow> ledger_db \<Rightarrow> store_error + ledger_db" where
  "persist_task env revision ownerTurnID previous t db =
     (let prior = first_with (\<lambda>v. vs_ItemID v = task_ID t) (rev previous);
          provenance = item_Provenance (task_Item t);
          keep = (case prior of Some v \<Rightarrow> unchanged_version v t | None \<Rightarrow> False);
          itemRevision = (case prior of Some v \<Rightarrow> if keep then vs_Revision v else revision | None \<Rightarrow> revision) in
      bind_res (if prior = None then insert_item env (task_ID t) revision db else Inr db) (\<lambda>db.
      bind_res (if keep then Inr db
        else bind_res (insert_version env (version_of revision ownerTurnID t) db)
          (insert_origin env (task_ID t) revision (prov_Kind provenance @ '':'' @ prov_Reference provenance))) (\<lambda>db.
      insert_projection env \<lparr>pj_Revision = revision, pj_ItemID = task_ID t, pj_ItemRevision = itemRevision\<rparr> db)))"

definition persistCodingLedgerSnapshotTx ::
    "database \<Rightarrow> int \<Rightarrow> int \<Rightarrow> string \<Rightarrow> EngineeringLedger \<Rightarrow> CodingLedgerRoute list \<Rightarrow> ledger_db \<Rightarrow> store_error + ledger_db" where
  "persistCodingLedgerSnapshotTx env revision baseRevision ownerTurnID ledger routes db =
     (let previous = (if baseRevision > 0 then projected db baseRevision else []) in
      bind_res (each (persist_task env revision ownerTurnID previous) (led_Tasks ledger) db)
        (each (insert_route env revision) routes))"

end
