(* ===== verification/Ledger_Transactions.thy ===== *)
theory Ledger_Transactions
  imports Ledger_Store
begin

text \<open>
  The transactions that read and change a proposal: reading a revision (\<^verbatim>\<open>coding_plan_read.go\<close>)
  and applying a mutation, with the replay of an operation that was stored already
  (\<^verbatim>\<open>coding_plan_mutation.go\<close>, \<^verbatim>\<open>coding_ledger_restore.go\<close>).

  A transaction takes the tables and gives an error or its result with the committed tables. The row lock
  \<^verbatim>\<open>FOR UPDATE\<close> makes transactions on one ledger sequential, so a run of the repository is a sequence
  of them. The check that a worker still holds its step attempt belongs to the job queue: its outcome is the
  argument \<open>authorized\<close>.
\<close>

section \<open>Reading\<close>

record CodingLedgerDiff =
  df_LedgerID :: int
  df_FromRevision :: int
  df_ToRevision :: int
  df_Added :: "LedgerItemID list"
  df_Amended :: "LedgerItemID list"
  df_Removed :: "LedgerItemID list"
  df_Restored :: "LedgerItemID list"
  df_Limit :: int
  df_Offset :: int
  df_HasMore :: bool

record CodingLedgerRevision =
  cr_LedgerID :: int
  cr_JobID :: int
  cr_Revision :: int
  cr_BaseRevision :: int
  cr_OperationID :: string
  cr_State :: ledger_state
  cr_OwnerTurnID :: string
  cr_OwnerTurnDispositions :: "OwnerStatementDisposition list"
  cr_LatestDelta :: CodingLedgerDiff
  cr_Ledger :: EngineeringLedger
  cr_Routes :: "CodingLedgerRoute list"
  cr_Applied :: bool

record CodingLedgerReadOptions =
  ro_Revision :: int
  ro_Limit :: int
  ro_Offset :: int
  ro_Kinds :: "string list"
  ro_ReviewState :: LedgerReviewState
  ro_Search :: string
  ro_Removed :: "bool option"
  ro_ItemIDs :: "LedgerItemID list"
  ro_RelatedTaskID :: LedgerItemID

definition read_all :: CodingLedgerReadOptions where
  \<comment> \<open>\<^verbatim>\<open>CodingLedgerReadOptions{Limit: -1}\<close>\<close>
  "read_all = \<lparr>ro_Revision = 0, ro_Limit = -1, ro_Offset = 0, ro_Kinds = [], ro_ReviewState = LedgerReviewNone, ro_Search = [],
     ro_Removed = None, ro_ItemIDs = [], ro_RelatedTaskID = []\<rparr>"

definition selected :: "database \<Rightarrow> CodingLedgerReadOptions \<Rightarrow> version_row \<Rightarrow> bool" where
  \<comment> \<open>the conditions of the query; an option that is not set filters nothing\<close>
  "selected env options v \<longleftrightarrow>
     (ro_Kinds options = [] \<or> ''task'' \<in> set (ro_Kinds options)) \<and>
     (case ro_Removed options of
        None \<Rightarrow> True
      | Some removed \<Rightarrow> task_Disposition (vs_Payload v) =
          (if removed then LedgerDispositionTombstoned else LedgerDispositionActive)) \<and>
     (ro_ReviewState options = LedgerReviewNone \<or> task_ReviewState (vs_Payload v) = ro_ReviewState options) \<and>
     (ro_Search options = [] \<or> dbe_Like env (ro_Search options) (vs_Payload v)) \<and>
     (ro_ItemIDs options = [] \<or> vs_ItemID v \<in> set (ro_ItemIDs options)) \<and>
     (ro_RelatedTaskID options = [] \<or> vs_ItemID v = ro_RelatedTaskID options)"

definition page :: "int \<Rightarrow> int \<Rightarrow> 'a list \<Rightarrow> 'a list" where
  "page limit offset xs =
     (let limit = (if limit = 0 then 200 else if limit > 1000 then 1000 else limit);
          rest = drop (nat offset) xs in
      if limit < 0 then rest else take (nat limit) rest)"

definition version_key :: "database \<Rightarrow> version_row \<Rightarrow> int \<times> string" where
  "version_key env v = (vs_Rank v, dbe_Collate env (vs_ItemID v))"

definition read_tasks :: "database \<Rightarrow> int \<Rightarrow> CodingLedgerReadOptions \<Rightarrow> ledger_db \<Rightarrow> LedgerTask list" where
  "read_tasks env revision options db =
     map vs_Payload (page (ro_Limit options) (ro_Offset options)
       (sort_key (version_key env) (filter (selected env options) (projected db revision))))"

definition read_routes :: "database \<Rightarrow> int \<Rightarrow> ledger_db \<Rightarrow> CodingLedgerRoute list" where
  "read_routes env revision db =
     sort_key (\<lambda>r. dbe_Collate env (lr_Role r)) (map snd (filter (\<lambda>(r, _). r = revision) (db_Routes db)))"

definition delta_zero :: "CodingLedgerRevision \<Rightarrow> CodingLedgerDiff" where
  "delta_zero r = \<lparr>df_LedgerID = cr_LedgerID r, df_FromRevision = cr_BaseRevision r, df_ToRevision = cr_Revision r,
     df_Added = [], df_Amended = [], df_Removed = [], df_Restored = [], df_Limit = 0, df_Offset = 0, df_HasMore = False\<rparr>"

definition delta_operation :: "LedgerMutationOperation \<Rightarrow> CodingLedgerDiff \<Rightarrow> CodingLedgerDiff" where
  "delta_operation op delta =
     (let i = (if op_Kind op = LedgerMutationAdd \<and> op_Item op \<noteq> None then ledgerMutationItemID (op_Item op) else op_TargetID op) in
      if i = [] then delta
      else (case op_Kind op of
          LedgerMutationAdd \<Rightarrow> delta\<lparr>df_Added := df_Added delta @ [i]\<rparr>
        | LedgerMutationRemove \<Rightarrow> delta\<lparr>df_Removed := df_Removed delta @ [i]\<rparr>
        | LedgerMutationRestore \<Rightarrow> delta\<lparr>df_Restored := df_Restored delta @ [i]\<rparr>
        | _ \<Rightarrow> delta\<lparr>df_Amended := df_Amended delta @ [i]\<rparr>))"

definition codingLedgerLatestDelta :: "CodingLedgerRevision \<Rightarrow> LedgerMutation option \<Rightarrow> CodingLedgerDiff" where
  "codingLedgerLatestDelta revision mutation =
     (case mutation of
        Some m \<Rightarrow> fold delta_operation (mut_Operations m) (delta_zero revision)
      | None \<Rightarrow>
          if cr_BaseRevision revision = 0
          then (delta_zero revision)\<lparr>df_Added := map task_ID (led_Tasks (cr_Ledger revision))\<rparr>
          else delta_zero revision)"

definition revision_at :: "ledger_db \<Rightarrow> int \<Rightarrow> revision_row option" where
  "revision_at db revision = first_with (\<lambda>r. rw_Revision r = revision) (db_Revisions db)"

definition read_statements :: "string \<Rightarrow> int \<Rightarrow> ledger_db \<Rightarrow> OwnerStatementDisposition list option" where
  "read_statements turnID revision db =
     map_option dp_Statements (first_with (\<lambda>d. dp_OwnerTurnID d = turnID \<and> dp_Revision d = revision) (db_Dispositions db))"

definition shown_state :: "revision_state \<Rightarrow> ledger_state" where
  "shown_state s = (case s of RevisionProposed \<Rightarrow> LedgerProposed | RevisionFrozen \<Rightarrow> LedgerFrozen)"

definition codingLedgerExternalID :: "int \<Rightarrow> string" where
  "codingLedgerExternalID ledgerID = Itoa ledgerID"

definition readCodingLedgerRevisionTx ::
    "database \<Rightarrow> int \<Rightarrow> int \<Rightarrow> CodingLedgerReadOptions \<Rightarrow> ledger_db \<Rightarrow> store_error + CodingLedgerRevision" where
  "readCodingLedgerRevisionTx env ledgerID revision options db =
     (if ledgerID \<noteq> db_LedgerID db then Inl NoRows
      else case revision_at db revision of
        None \<Rightarrow> Inl NoRows
      | Some row \<Rightarrow>
          let ledger = \<lparr>led_ID = codingLedgerExternalID ledgerID, led_Revision = revision,
                led_Tasks = read_tasks env revision options db\<rparr>;
              result = \<lparr>cr_LedgerID = ledgerID, cr_JobID = db_JobID db, cr_Revision = rw_Revision row,
                cr_BaseRevision = rw_BaseRevision row, cr_OperationID = rw_OperationID row, cr_State = shown_state (rw_State row),
                cr_OwnerTurnID = rw_OwnerTurnID row,
                cr_OwnerTurnDispositions =
                  (if rw_OwnerTurnID row = [] then []
                   else case read_statements (rw_OwnerTurnID row) revision db of Some s \<Rightarrow> s | None \<Rightarrow> []),
                cr_LatestDelta = \<lparr>df_LedgerID = 0, df_FromRevision = 0, df_ToRevision = 0, df_Added = [], df_Amended = [],
                  df_Removed = [], df_Restored = [], df_Limit = 0, df_Offset = 0, df_HasMore = False\<rparr>,
                cr_Ledger = ledger, cr_Routes = read_routes env revision db, cr_Applied = False\<rparr> in
          Inr (result\<lparr>cr_LatestDelta := codingLedgerLatestDelta result (rw_Mutation row)\<rparr>))"

definition ReadCodingLedger :: "database \<Rightarrow> int \<Rightarrow> CodingLedgerReadOptions \<Rightarrow> ledger_db \<Rightarrow> store_error + CodingLedgerRevision" where
  "ReadCodingLedger env ledgerID options db =
     (if ledgerID \<le> 0 then Inl CommandIncomplete
      else if ro_Limit options < 0 \<or> ro_Offset options < 0 then Inl NegativePage
      else if ro_Revision options \<noteq> 0 then readCodingLedgerRevisionTx env ledgerID (ro_Revision options) options db
      else if ledgerID \<noteq> db_LedgerID db then Inl NoRows
      else bind_res (readCodingLedgerRevisionTx env ledgerID (db_Current db) options db) (\<lambda>result.
        Inr (if db_State db = LedgerRevising then result\<lparr>cr_State := LedgerRevising\<rparr> else result)))"

section \<open>Mutation\<close>

definition json_copy_kind :: "LedgerMutationKind \<Rightarrow> LedgerMutationKind" where
  "json_copy_kind k = (case k of LedgerMutationOther s \<Rightarrow> LedgerMutationOther (coerce_utf8 s) | _ \<Rightarrow> k)"

definition json_copy_review :: "LedgerReviewState \<Rightarrow> LedgerReviewState" where
  "json_copy_review r = (case r of LedgerReviewOther s \<Rightarrow> LedgerReviewOther (coerce_utf8 s) | _ \<Rightarrow> r)"

definition json_copy_operation :: "LedgerMutationOperation \<Rightarrow> LedgerMutationOperation" where
  "json_copy_operation op =
     \<lparr>op_Kind = json_copy_kind (op_Kind op), op_TargetID = coerce_utf8 (op_TargetID op),
      op_Item = map_option (\<lambda>it. \<lparr>mi_Task = map_option json_copy_task (mi_Task it)\<rparr>) (op_Item op),
      op_ReviewState = json_copy_review (op_ReviewState op), op_Rank = op_Rank op, op_Rationale = coerce_utf8 (op_Rationale op)\<rparr>"

definition json_copy_mutation :: "LedgerMutation \<Rightarrow> LedgerMutation" where
  "json_copy_mutation m =
     \<lparr>mut_OperationID = coerce_utf8 (mut_OperationID m), mut_BaseRevision = mut_BaseRevision m,
      mut_OwnerTurnID = coerce_utf8 (mut_OwnerTurnID m),
      mut_OwnerTurnDisposition = \<lparr>turn_Statements = map json_copy_statement (turn_Statements (mut_OwnerTurnDisposition m))\<rparr>,
      mut_Operations = map json_copy_operation (mut_Operations m)\<rparr>"

record ApplyCodingLedgerMutationCommand =
  ac_LedgerID :: int
  ac_OwnerTurnText :: string
  ac_Mutation :: LedgerMutation
  ac_Routes :: "CodingLedgerRoute list"

definition lift_check :: "repository_error option \<Rightarrow> store_error option" where
  "lift_check e = map_option RepositoryError e"

definition accepted_contract :: "int \<Rightarrow> LedgerItemID \<Rightarrow> ledger_db \<Rightarrow> LedgerTask option" where
  \<comment> \<open>the payload of an accepted task in the last frozen revision up to \<open>baseRevision\<close>\<close>
  "accepted_contract baseRevision i db =
     (let frozen = last_frozen db baseRevision in
      if list_ex (\<lambda>t. at_Revision t = frozen \<and> at_ItemID t = i \<and> at_State t = TaskAccepted) (db_Tasks db)
      then map_option vs_Payload (first_with (\<lambda>v. vs_ItemID v = i) (projected db frozen))
      else None)"

definition restored_contract :: "EngineeringLedger \<Rightarrow> LedgerTask \<Rightarrow> LedgerTask" where
  "restored_contract ledger task =
     (let proposed = on_item (\<lambda>it. it\<lparr>item_ReviewState := LedgerReviewProposed\<rparr>) task in
      case first_with (\<lambda>t. task_ID t = task_ID task) (led_Tasks ledger) of
        Some current \<Rightarrow> on_item (\<lambda>it. it\<lparr>item_Rank := task_Rank current\<rparr>) proposed
      | None \<Rightarrow> proposed)"

fun acceptedCodingLedgerRestoresTx ::
    "int \<Rightarrow> EngineeringLedger \<Rightarrow> LedgerMutationOperation list \<Rightarrow> ledger_db \<Rightarrow> (LedgerItemID \<Rightarrow> LedgerTask option) \<Rightarrow>
      store_error + (LedgerItemID \<Rightarrow> LedgerTask option)" where
  \<comment> \<open>the last argument is the map filled so far\<close>
  "acceptedCodingLedgerRestoresTx baseRevision ledger [] db restored = Inr restored"
| "acceptedCodingLedgerRestoresTx baseRevision ledger (op # ops) db restored =
     (if op_Kind op \<noteq> LedgerMutationRestore \<or>
         codingLedgerItemDisposition ledger (op_TargetID op) \<noteq> Some LedgerDispositionActive
      then acceptedCodingLedgerRestoresTx baseRevision ledger ops db restored
      else case accepted_contract baseRevision (op_TargetID op) db of
        None \<Rightarrow> Inl (NoAcceptedContract (op_TargetID op))
      | Some task \<Rightarrow> acceptedCodingLedgerRestoresTx baseRevision ledger ops db
          (restored(op_TargetID op := Some (restored_contract ledger task))))"

definition codingLedgerDispositionMatchesTx ::
    "database \<Rightarrow> int \<Rightarrow> string \<Rightarrow> OwnerTurnDisposition \<Rightarrow> ledger_db \<Rightarrow> store_error + bool" where
  "codingLedgerDispositionMatchesTx env revision ownerTurnID disposition db =
     (case read_statements ownerTurnID revision db of
        None \<Rightarrow> Inl NoRows
      | Some stored \<Rightarrow>
          Inr (stored = StatementDispositions disposition \<and>
            sort_key (dbe_Collate env) (map snd (filter (\<lambda>(t, _). t = ownerTurnID) (db_TurnItems db))) =
            sort (remdups (concat (map stmt_ItemIDs (StatementDispositions disposition))))))"

definition same_ledger_json :: "EngineeringLedger \<Rightarrow> EngineeringLedger \<Rightarrow> bool" where
  "same_ledger_json a b \<longleftrightarrow> json_copy_ledger a = json_copy_ledger b"

definition codingLedgerMutationReplayMatchesTx ::
    "database \<Rightarrow> ApplyCodingLedgerMutationCommand \<Rightarrow> CodingLedgerRevision \<Rightarrow> ledger_db \<Rightarrow> store_error + bool" where
  "codingLedgerMutationReplayMatchesTx env command result db =
     (let m = ac_Mutation command in
      bind_res (readCodingLedgerRevisionTx env (ac_LedgerID command) (mut_BaseRevision m) read_all db) (\<lambda>base.
      bind_res (acceptedCodingLedgerRestoresTx (mut_BaseRevision m) (cr_Ledger base) (mut_Operations m) db (\<lambda>_. None)) (\<lambda>restores.
      case applyCodingLedgerOperationsWithRestores ((cloneCodingLedger (cr_Ledger base))\<lparr>led_Revision := cr_Revision result\<rparr>)
             (mut_Operations m) restores of
        Inl _ \<Rightarrow> Inr False
      | Inr expected \<Rightarrow>
          let routes = (if ac_Routes command \<noteq> [] then ac_Routes command else cr_Routes base) in
          if \<not> same_ledger_json (sortCodingLedgerProjection expected) (sortCodingLedgerProjection (cr_Ledger result)) \<or>
             \<not> codingLedgerRoutesEqual routes (cr_Routes result) then Inl ReplayDiffers
          else codingLedgerDispositionMatchesTx env (cr_Revision result) (mut_OwnerTurnID m) (mut_OwnerTurnDisposition m) db)))"

definition find_operation :: "string \<Rightarrow> ledger_db \<Rightarrow> (revision_row \<times> turn_row) option" where
  "find_operation operationID db =
     (case first_with (\<lambda>r. rw_OperationID r = operationID) (db_Revisions db) of
        None \<Rightarrow> None
      | Some r \<Rightarrow> map_option (Pair r) (first_with (\<lambda>t. tn_OwnerTurnID t = rw_OwnerTurnID r) (db_Turns db)))"

definition replayCodingLedgerMutationTx ::
    "database \<Rightarrow> ApplyCodingLedgerMutationCommand \<Rightarrow> owner_action \<Rightarrow> revision_row \<Rightarrow> turn_row \<Rightarrow> ledger_db \<Rightarrow>
      store_error + CodingLedgerRevision \<times> ledger_db" where
  "replayCodingLedgerMutationTx env command ownerAction row turn db =
     (let m = ac_Mutation command in
      if rw_BaseRevision row \<noteq> mut_BaseRevision m \<or> rw_OwnerTurnID row \<noteq> mut_OwnerTurnID m \<or> tn_Action turn \<noteq> ownerAction \<or>
         tn_Text turn \<noteq> ac_OwnerTurnText command \<or> rw_Mutation row \<noteq> Some (json_copy_mutation m)
      then Inl (OperationReused (mut_OperationID m))
      else bind_res (readCodingLedgerRevisionTx env (ac_LedgerID command) (rw_Revision row) read_all db) (\<lambda>result.
        bind_res (codingLedgerMutationReplayMatchesTx env command result db) (\<lambda>matches.
          if matches then Inr (result\<lparr>cr_Applied := False\<rparr>, db) else Inl (OperationReused (mut_OperationID m)))))"

definition next_ledger ::
    "database \<Rightarrow> ApplyCodingLedgerMutationCommand \<Rightarrow> ledger_db \<Rightarrow> store_error + EngineeringLedger \<times> CodingLedgerRoute list" where
  \<comment> \<open>the revision a mutation would store, with every check before the first statement that writes\<close>
  "next_ledger env command db =
     (let m = ac_Mutation command; current = db_Current db in
      bind_res (readCodingLedgerRevisionTx env (ac_LedgerID command) current read_all db) (\<lambda>projection.
      bind_res (acceptedCodingLedgerRestoresTx current (cr_Ledger projection) (mut_Operations m) db (\<lambda>_. None)) (\<lambda>restores.
      bind_res (map_sum RepositoryError id
          (applyCodingLedgerOperationsWithRestores ((cloneCodingLedger (cr_Ledger projection))\<lparr>led_Revision := int64 (current + 1)\<rparr>)
            (mut_Operations m) restores)) (\<lambda>next.
      let routes = (if ac_Routes command \<noteq> [] then ac_Routes command else cr_Routes projection) in
      check_res (lift_check
        (or_else (validateDraftLedgerForRepository next)
        (or_else (validateCodingLedgerExactDuplicates next)
        (or_else (validateMutationOwnerTurnDisposition (cr_Ledger projection) next (mut_Operations m) (mut_OwnerTurnDisposition m))
        (or_else (validateCodingLedgerRouteMutation (cr_Routes projection) (ac_Routes command) (led_Revision next)
            (mut_Operations m) (mut_OwnerTurnDisposition m))
          (validateCodingLedgerRoutes routes (led_Revision next)))))))
        (Inr (next, routes))))))"

definition reread :: "database \<Rightarrow> int \<Rightarrow> int \<Rightarrow> ledger_db \<Rightarrow> store_error + CodingLedgerRevision \<times> ledger_db" where
  \<comment> \<open>the end of a transaction that stored \<open>revision\<close>\<close>
  "reread env ledgerID revision db =
     bind_res (readCodingLedgerRevisionTx env ledgerID revision read_all db) (\<lambda>result. Inr (result\<lparr>cr_Applied := True\<rparr>, db))"

definition applyCodingLedgerMutationTx ::
    "database \<Rightarrow> ApplyCodingLedgerMutationCommand \<Rightarrow> owner_action \<Rightarrow> ledger_db \<Rightarrow> store_error + CodingLedgerRevision \<times> ledger_db" where
  "applyCodingLedgerMutationTx env command ownerAction db =
     (let m = ac_Mutation command; current = db_Current db in
      if ac_LedgerID command \<noteq> db_LedgerID db then Inl NoRows
      else case find_operation (mut_OperationID m) db of
        Some (row, turn) \<Rightarrow> replayCodingLedgerMutationTx env command ownerAction row turn db
      | None \<Rightarrow>
          if db_State db \<notin> {LedgerProposed, LedgerRevising} then Inl (StateConflict (db_State db))
          else if mut_BaseRevision m \<noteq> current then Inl (RevisionConflict (mut_BaseRevision m) current)
          else bind_res (next_ledger env command db) (\<lambda>(next, routes).
            let revision = led_Revision next in
            bind_res (insertCodingLedgerOwnerTurnTx env (mut_OwnerTurnID m) current ownerAction (ac_OwnerTurnText command) db) (\<lambda>db.
            bind_res (insert_revision env \<lparr>rw_Revision = revision, rw_BaseRevision = current, rw_OperationID = mut_OperationID m,
                rw_OwnerTurnID = mut_OwnerTurnID m, rw_State = RevisionProposed, rw_Mutation = Some (json_copy_mutation m)\<rparr> db) (\<lambda>db.
            bind_res (persistCodingLedgerSnapshotTx env revision current (mut_OwnerTurnID m) next routes db) (\<lambda>db.
            bind_res (insertCodingLedgerDispositionTx env revision (mut_OwnerTurnID m) (mut_OwnerTurnDisposition m) db) (\<lambda>db.
            bind_res (update_where (db_Current db = revision \<and> db_State db \<in> {LedgerProposed, LedgerRevising})
                (update_ledger env LedgerProposed (db_Frozen db) db)) (\<lambda>db.
            reread env (ac_LedgerID command) revision db)))))))"

definition applyCodingLedgerMutation ::
    "database \<Rightarrow> ApplyCodingLedgerMutationCommand \<Rightarrow> owner_action \<Rightarrow> ledger_db \<Rightarrow> store_error + CodingLedgerRevision \<times> ledger_db" where
  "applyCodingLedgerMutation env command ownerAction db =
     (let m = ac_Mutation command in
      if ac_LedgerID command \<le> 0 \<or> blank (ac_OwnerTurnText command) then Inl CommandIncomplete
      else if ownerAction \<notin> {ActionPlanning, ActionPlanningControl} then Inl CommandIncomplete
      else check_res (map_option LedgerInvalid (LedgerMutation_Validate m))
        (check_res (lift_check (or_else (validateCodingLedgerOperationID (mut_OperationID m))
            (validateCodingLedgerExternalOwnerTurnID (mut_OwnerTurnID m))))
          (applyCodingLedgerMutationTx env command ownerAction db)))"

end
