(* ===== verification/Ledger_Lifecycle.thy ===== *)
theory Ledger_Lifecycle
  imports Ledger_Transactions
begin

text \<open>
  The transactions around the proposals of a ledger: its creation, the unchanged proposal, the freeze, the return to
  planning, the cancellation and the completion (\<^verbatim>\<open>coding_plan_store.go\<close>,
  \<^verbatim>\<open>coding_unchanged_proposal.go\<close>, \<^verbatim>\<open>coding_plan_lifecycle.go\<close>,
  \<^verbatim>\<open>coding_agent_completion.go\<close>), and the queue of tasks of a frozen ledger
  (\<^verbatim>\<open>coding_agent_workload.go\<close>) with the triggers that guard it.
\<close>

section \<open>Creation and unchanged proposals\<close>

record CreateCodingLedgerCommand =
  cc_JobID :: int
  cc_OperationID :: string
  cc_OwnerTurnID :: string
  cc_OwnerTurnText :: string
  cc_OwnerTurnDisposition :: OwnerTurnDisposition
  cc_Ledger :: EngineeringLedger
  cc_Routes :: "CodingLedgerRoute list"

definition new_ledger :: "int \<Rightarrow> int \<Rightarrow> ledger_db" where
  \<comment> \<open>the inserted row of \<^verbatim>\<open>coding_ledgers\<close>, with the identity the database generates\<close>
  "new_ledger ledgerID jobID =
     \<lparr>db_LedgerID = ledgerID, db_JobID = jobID, db_Current = 0, db_Frozen = None, db_State = LedgerProposed,
      db_Revisions = [], db_Items = [], db_Versions = [], db_Projections = [], db_Origins = [], db_Turns = [],
      db_Dispositions = [], db_TurnItems = [], db_Routes = [], db_Tasks = []\<rparr>"

definition replayCreateTx ::
    "database \<Rightarrow> CreateCodingLedgerCommand \<Rightarrow> revision_row \<Rightarrow> turn_row \<Rightarrow> ledger_db \<Rightarrow> store_error + CodingLedgerRevision \<times> ledger_db" where
  "replayCreateTx env command row turn db =
     (if rw_OwnerTurnID row \<noteq> cc_OwnerTurnID command \<or> tn_Text turn \<noteq> cc_OwnerTurnText command
      then Inl (OperationReused (cc_OperationID command))
      else bind_res (readCodingLedgerRevisionTx env (db_LedgerID db) 1 read_all db) (\<lambda>result.
        bind_res (codingLedgerDispositionMatchesTx env 1 (cc_OwnerTurnID command) (cc_OwnerTurnDisposition command) db) (\<lambda>matches.
          let expected = (cc_Ledger command)\<lparr>led_Revision := 1, led_ID := led_ID (cr_Ledger result)\<rparr> in
          if \<not> same_ledger_json (sortCodingLedgerProjection expected) (sortCodingLedgerProjection (cr_Ledger result)) \<or>
             \<not> codingLedgerRoutesEqual (cc_Routes command) (cr_Routes result) \<or> \<not> matches
          then Inl (OperationReused (cc_OperationID command))
          else Inr (result\<lparr>cr_Applied := False\<rparr>, db))))"

definition insertCodingLedgerTx ::
    "database \<Rightarrow> int \<Rightarrow> CreateCodingLedgerCommand \<Rightarrow> store_error + CodingLedgerRevision \<times> ledger_db" where
  "insertCodingLedgerTx env ledgerID command =
     (let db = new_ledger ledgerID (cc_JobID command); turn = cc_OwnerTurnID command;
          ledger = (cc_Ledger command)\<lparr>led_Revision := 1\<rparr> in
      bind_res (insertCodingLedgerOwnerTurnTx env turn 0 ActionPlanning (cc_OwnerTurnText command) db) (\<lambda>db.
      bind_res (insert_revision env \<lparr>rw_Revision = 1, rw_BaseRevision = 0, rw_OperationID = cc_OperationID command,
          rw_OwnerTurnID = turn, rw_State = RevisionProposed, rw_Mutation = None\<rparr> db) (\<lambda>db.
      bind_res (persistCodingLedgerSnapshotTx env 1 0 turn ledger (cc_Routes command) db) (\<lambda>db.
      bind_res (insertCodingLedgerDispositionTx env 1 turn (cc_OwnerTurnDisposition command) db) (\<lambda>db.
      reread env ledgerID 1 db)))))"

definition CreateCodingLedger ::
    "database \<Rightarrow> int \<Rightarrow> CreateCodingLedgerCommand \<Rightarrow> ledger_db option \<Rightarrow> store_error + CodingLedgerRevision \<times> ledger_db" where
  \<comment> \<open>\<open>existing\<close> is the ledger of the job, if it has one; the job is unique in \<^verbatim>\<open>coding_ledgers\<close>\<close>
  "CreateCodingLedger env ledgerID command existing =
     (let ledger = (cc_Ledger command)\<lparr>led_Revision := 1\<rparr> in
      if cc_JobID command \<le> 0 \<or> blank (cc_OwnerTurnID command) \<or> blank (cc_OwnerTurnText command) then Inl CommandIncomplete
      else check_res (lift_check
        (or_else (validateCodingLedgerOperationID (cc_OperationID command))
        (or_else (validateCodingLedgerExternalOwnerTurnID (cc_OwnerTurnID command))
        (or_else (validateDraftLedgerForRepository ledger)
        (or_else (validateInitialCodingLedgerReviewStates ledger)
        (or_else (validateOwnerTurnDisposition ledger (cc_OwnerTurnDisposition command))
          (validateCodingLedgerRoutes (cc_Routes command) 1)))))))
      (case existing of
         None \<Rightarrow> insertCodingLedgerTx env ledgerID command
       | Some db \<Rightarrow>
           (case find_operation (cc_OperationID command) db of
              Some (row, turn) \<Rightarrow> replayCreateTx env command row turn db
            | None \<Rightarrow> Inl KeyExists)))"

record ProposeUnchangedCodingLedgerCommand =
  pu_LedgerID :: int
  pu_Revision :: int
  pu_OperationID :: string
  pu_OwnerTurnID :: string
  pu_OwnerTurnText :: string

definition ProposeUnchangedCodingLedger ::
    "database \<Rightarrow> ProposeUnchangedCodingLedgerCommand \<Rightarrow> ledger_db \<Rightarrow> store_error + CodingLedgerRevision \<times> ledger_db" where
  "ProposeUnchangedCodingLedger env command db =
     (let revision = db_Current db; turn = pu_OwnerTurnID command in
      if pu_LedgerID command < 1 \<or> pu_Revision command < 1 \<or> blank (pu_OwnerTurnText command) then Inl CommandIncomplete
      else check_res (lift_check (or_else (validateCodingLedgerOperationID (pu_OperationID command))
          (validateCodingLedgerExternalOwnerTurnID turn)))
      (if pu_LedgerID command \<noteq> db_LedgerID db then Inl NoRows
       else if db_State db \<noteq> LedgerRevising \<or> revision \<noteq> pu_Revision command then Inl (RevisionConflict (pu_Revision command) revision)
       else bind_res (readCodingLedgerRevisionTx env (pu_LedgerID command) revision read_all db) (\<lambda>current.
         bind_res (insertCodingLedgerOwnerTurnTx env turn revision ActionPlanning (pu_OwnerTurnText command) db) (\<lambda>db.
         bind_res (insert_revision env \<lparr>rw_Revision = int64 (revision + 1), rw_BaseRevision = revision,
             rw_OperationID = pu_OperationID command, rw_OwnerTurnID = turn, rw_State = RevisionProposed, rw_Mutation = None\<rparr> db) (\<lambda>db.
         bind_res (persistCodingLedgerSnapshotTx env (int64 (revision + 1)) revision turn
             ((cr_Ledger current)\<lparr>led_Revision := int64 (revision + 1)\<rparr>) (cr_Routes current) db) (\<lambda>db.
         bind_res (insertCodingLedgerDispositionTx env (int64 (revision + 1)) turn \<lparr>turn_Statements = []\<rparr> db) (\<lambda>db.
         bind_res (update_ledger env LedgerProposed (db_Frozen db) db) (\<lambda>db.
         reread env (pu_LedgerID command) (int64 (revision + 1)) db))))))))"

section \<open>Freeze\<close>

definition digest_digit :: "nat \<Rightarrow> char" where
  "digest_digit n = ''0123456789abcdef'' ! (n mod 16)"

fun hex_pad :: "nat \<Rightarrow> nat \<Rightarrow> string" where
  "hex_pad 0 n = []"
| "hex_pad (Suc k) n = hex_pad k (n div 16) @ [digest_digit n]"

definition fnv128a :: "string \<Rightarrow> nat" where
  \<comment> \<open>\<^verbatim>\<open>hash/fnv\<close>: multiply after the exclusive or, modulo \<open>2 ^ 128\<close>\<close>
  "fnv128a s = fold (\<lambda>c h. (semiring_bit_operations_class.xor h (byte c) * 0x1000000000000000000013B) mod 2 ^ 128) s
     0x6c62272e07bb014262b821756295c58d"

definition codingLedgerInternalDerivedID :: "string \<Rightarrow> string \<Rightarrow> string" where
  "codingLedgerInternalDerivedID kind authority = ''omnidex-internal:'' @ kind @ '':'' @ hex_pad 32 (fnv128a authority)"

definition codingLedgerSignOffTurnID :: "string \<Rightarrow> string" where
  "codingLedgerSignOffTurnID ownerTurnID = codingLedgerInternalDerivedID ''sign-off'' ownerTurnID"

definition task_packet :: "string \<Rightarrow> LedgerTask \<Rightarrow> Task" where
  \<comment> \<open>the fields of a stored task under the same JSON names, with the text they were read from\<close>
  "task_packet payload t =
     \<lparr>tk_Payload = payload, tk_Objective = task_Objective t, tk_OwnerContext = task_OwnerContext t,
      tk_Constraints = task_Constraints t, tk_FileResponsibilities = task_FileResponsibilities t,
      tk_Acceptance = task_Acceptance t, tk_ID = task_ID t, tk_Goal = task_Goal t, tk_ReadFiles = task_ReadFiles t,
      tk_WriteFiles = task_WriteFiles t, tk_DeleteFiles = task_DeleteFiles t\<rparr>"

definition codingAgentTaskFromLedger :: "EngineeringLedger \<Rightarrow> LedgerItemID \<Rightarrow> store_error + Task" where
  "codingAgentTaskFromLedger ledger i =
     (case first_with (\<lambda>t. task_ID t = i \<and> task_active t) (led_Tasks ledger) of
        None \<Rightarrow> Inl (TaskNotActive i)
      | Some t \<Rightarrow>
          let task = task_packet [] t in
          check_res (map_option TaskPacketInvalid (Task_Validate task)) (Inr task))"

definition validateFrozenCodingAgentTasks :: "EngineeringLedger \<Rightarrow> store_error option" where
  "validateFrozenCodingAgentTasks ledger =
     first_err (\<lambda>t. if task_active t then (case codingAgentTaskFromLedger ledger (task_ID t) of Inl e \<Rightarrow> Some e | Inr _ \<Rightarrow> None) else None)
       (led_Tasks ledger)"

definition route_choice :: "CodingLedgerRoute \<Rightarrow> string \<times> string \<times> string \<times> string" where
  "route_choice r = (lr_Provider r, lr_Model r, lr_ReasoningEffort r, lr_ServiceTier r)"

definition prior_route :: "string \<Rightarrow> int \<Rightarrow> ledger_db \<Rightarrow> CodingLedgerRoute option" where
  \<comment> \<open>the route of a role in the latest frozen revision before \<open>revision\<close> that routes the role\<close>
  "prior_route role revision db =
     (let at = (\<lambda>r. first_with (\<lambda>(n, q). n = r \<and> lr_Role q = role) (db_Routes db));
          best = max_revision (map rw_Revision (filter (\<lambda>row. rw_State row = RevisionFrozen \<and> rw_Revision row < revision \<and>
            at (rw_Revision row) \<noteq> None) (db_Revisions db))) in
      if best = 0 then None else map_option snd (at best))"

definition routes_changed_since_freeze :: "int \<Rightarrow> ledger_db \<Rightarrow> bool" where
  "routes_changed_since_freeze revision db \<longleftrightarrow>
     list_ex (\<lambda>(n, r). n = revision \<and>
       (case prior_route (lr_Role r) revision db of Some q \<Rightarrow> route_choice r \<noteq> route_choice q | None \<Rightarrow> False)) (db_Routes db)"

definition contract_of :: "LedgerTask \<Rightarrow> LedgerTask" where
  \<comment> \<open>a payload without review state, rank, rationale and provenance\<close>
  "contract_of t = on_item (\<lambda>it. it\<lparr>item_ReviewState := LedgerReviewNone, item_Rank := 0, item_Rationale := [],
     item_Provenance := \<lparr>prov_Kind = [], prov_Reference = [], prov_Revision = 0\<rparr>\<rparr>) t"

definition version_in :: "ledger_db \<Rightarrow> int \<Rightarrow> LedgerItemID \<Rightarrow> version_row option" where
  "version_in db revision i = first_with (\<lambda>v. vs_ItemID v = i) (projected db revision)"

definition coding_agent_task_contract_matches :: "int \<Rightarrow> int \<Rightarrow> LedgerItemID \<Rightarrow> ledger_db \<Rightarrow> bool" where
  "coding_agent_task_contract_matches prior current i db \<longleftrightarrow>
     (case (version_in db prior i, version_in db current i) of
        (Some v, Some w) \<Rightarrow> \<not> vs_Removed v \<and> \<not> vs_Removed w \<and> contract_of (vs_Payload v) = contract_of (vs_Payload w)
      | _ \<Rightarrow> False)"

definition queue_row :: "ledger_db \<Rightarrow> int \<Rightarrow> LedgerItemID \<Rightarrow> task_row option" where
  "queue_row db revision i = first_with (\<lambda>t. at_Revision t = revision \<and> at_ItemID t = i) (db_Tasks db)"

definition accepted_before :: "ledger_db \<Rightarrow> int \<Rightarrow> int \<Rightarrow> LedgerItemID \<Rightarrow> bool" where
  "accepted_before db prior revision i \<longleftrightarrow>
     list_ex (\<lambda>t. at_Revision t = prior \<and> at_ItemID t = i \<and> at_State t = TaskAccepted) (db_Tasks db) \<and>
     coding_agent_task_contract_matches prior revision i db"

text \<open>
  The database generates the fairness keys; among the rows of one ledger they grow in the order of insertion,
  and only this order is used.
\<close>

definition insert_task :: "database \<Rightarrow> int \<Rightarrow> LedgerItemID \<Rightarrow> agent_task_state \<Rightarrow> ledger_db \<Rightarrow> store_error + ledger_db" where
  "insert_task env revision i state db =
     (if queue_row db revision i \<noteq> None then Inl KeyExists
      else if db_State db \<noteq> LedgerFrozen \<or> db_Frozen db \<noteq> Some revision \<or>
         \<not> (case version_in db revision i of Some v \<Rightarrow> \<not> vs_Removed v | None \<Rightarrow> False) \<or> state = TaskCancelled \<or>
         (state = TaskAccepted \<and> \<not> accepted_before db (last_frozen db (revision - 1)) revision i) then Inl TransitionInvalid
      else exec env db (db\<lparr>db_Tasks := db_Tasks db @ [\<lparr>at_Revision = revision, at_ItemID = i, at_State = state,
        at_FairnessKey = int (length (db_Tasks db)) + 1, at_Version = 1\<rparr>]\<rparr>))"

definition createFrozenCodingAgentTasksTx :: "database \<Rightarrow> int \<Rightarrow> EngineeringLedger \<Rightarrow> ledger_db \<Rightarrow> store_error + ledger_db" where
  "createFrozenCodingAgentTasksTx env revision ledger db =
     (let prior = last_frozen db (revision - 1) in
      each (\<lambda>t db. if \<not> task_active t then Inr db
        else insert_task env revision (task_ID t)
          (if prior > 0 \<and> accepted_before db prior revision (task_ID t) then TaskAccepted else TaskReady) db)
        (led_Tasks ledger) db)"

definition cancel_authorized :: "ledger_db \<Rightarrow> task_row \<Rightarrow> bool" where
  "cancel_authorized db t \<longleftrightarrow>
     db_State db \<in> {LedgerProposed, LedgerFrozen, LedgerRevising} \<and>
       list_ex (\<lambda>n. tn_Action n = ActionCancel \<and> tn_BaseRevision n = db_Current db) (db_Turns db) \<or>
     db_Current db > at_Revision t \<and>
       (case revision_at db (db_Current db) of Some r \<Rightarrow> rw_State r = RevisionFrozen | None \<Rightarrow> False) \<and>
       (case version_in db (db_Current db) (at_ItemID t) of Some v \<Rightarrow> vs_Removed v | None \<Rightarrow> False)"

definition cancel_tasks :: "database \<Rightarrow> (task_row \<Rightarrow> bool) \<Rightarrow> ledger_db \<Rightarrow> store_error + ledger_db" where
  "cancel_tasks env chosen db =
     (if list_ex (\<lambda>t. chosen t \<and> \<not> cancel_authorized db t) (db_Tasks db) then Inl TransitionInvalid
      else exec env db (db\<lparr>db_Tasks := map (\<lambda>t. if chosen t then t\<lparr>at_State := TaskCancelled, at_Version := at_Version t + 1\<rparr> else t)
        (db_Tasks db)\<rparr>))"

definition cancelRemovedCodingAgentTasksTx :: "database \<Rightarrow> int \<Rightarrow> ledger_db \<Rightarrow> store_error + ledger_db" where
  "cancelRemovedCodingAgentTasksTx env revision db =
     (let prior = last_frozen db (revision - 1) in
      if prior = 0 then Inr db
      else cancel_tasks env (\<lambda>t. at_Revision t = prior \<and> at_State t = TaskReady \<and>
        (case version_in db revision (at_ItemID t) of Some v \<Rightarrow> vs_Removed v | None \<Rightarrow> False)) db)"

record FreezeCodingLedgerCommand =
  fc_LedgerID :: int
  fc_Revision :: int
  fc_OperationID :: string
  fc_OwnerTurnID :: string
  fc_OwnerTurnText :: string

definition replayFreezeTx ::
    "database \<Rightarrow> FreezeCodingLedgerCommand \<Rightarrow> revision_row \<Rightarrow> turn_row \<Rightarrow> ledger_db \<Rightarrow> store_error + CodingLedgerRevision \<times> ledger_db" where
  "replayFreezeTx env command row turn db =
     (if rw_State row \<noteq> RevisionFrozen \<or> rw_BaseRevision row \<noteq> fc_Revision command \<or>
         rw_OwnerTurnID row \<noteq> fc_OwnerTurnID command \<or> tn_Text turn \<noteq> fc_OwnerTurnText command
      then Inl (OperationReused (fc_OperationID command))
      else bind_res (readCodingLedgerRevisionTx env (fc_LedgerID command) (rw_Revision row) read_all db)
        (\<lambda>result. Inr (result\<lparr>cr_Applied := False\<rparr>, db)))"

definition freezable :: "CodingLedgerRevision \<Rightarrow> int \<Rightarrow> store_error option" where
  "freezable proposal current =
     or_else (first_err (\<lambda>t. fail_if (task_active t \<and> task_ReviewState t \<noteq> LedgerReviewAgreed) (NotAgreed (task_ID t)))
         (led_Tasks (cr_Ledger proposal)))
    (or_else (lift_check (or_else (validateLedgerForRepository (cr_Ledger proposal)) (validateCodingLedgerRoutes (cr_Routes proposal) current)))
      (validateFrozenCodingAgentTasks (cr_Ledger proposal)))"

definition represented_active :: "EngineeringLedger \<Rightarrow> OwnerTurnDisposition" where
  "represented_active ledger = \<lparr>turn_Statements = [\<lparr>stmt_Kind = OwnerTurnRepresented, stmt_ItemIDs = active_items ledger, stmt_Reason = []\<rparr>]\<rparr>"

definition storeFrozenRevisionTx ::
    "database \<Rightarrow> FreezeCodingLedgerCommand \<Rightarrow> CodingLedgerRevision \<Rightarrow> ledger_db \<Rightarrow> store_error + CodingLedgerRevision \<times> ledger_db" where
  "storeFrozenRevisionTx env command proposal db =
     (let current = db_Current db; frozen = int64 (current + 1); turn = fc_OwnerTurnID command; exactText = fc_OwnerTurnText command;
          changed = routes_changed_since_freeze current db; ledger = (cr_Ledger proposal)\<lparr>led_Revision := frozen\<rparr> in
      bind_res (if changed then insertCodingLedgerOwnerTurnTx env (codingLedgerSignOffTurnID turn) current ActionSignOff exactText db
        else Inr db) (\<lambda>db.
      bind_res (insertCodingLedgerOwnerTurnTx env turn current
          (if changed then ActionExecutionConfiguration else ActionSignOff) exactText db) (\<lambda>db.
      bind_res (insert_revision env \<lparr>rw_Revision = frozen, rw_BaseRevision = current, rw_OperationID = fc_OperationID command,
          rw_OwnerTurnID = turn, rw_State = RevisionFrozen, rw_Mutation = None\<rparr> db) (\<lambda>db.
      bind_res (persistCodingLedgerSnapshotTx env frozen current turn ledger (cr_Routes proposal) db) (\<lambda>db.
      bind_res (cancelRemovedCodingAgentTasksTx env frozen db) (\<lambda>db.
      bind_res (if changed then insertCodingLedgerDispositionTx env frozen turn (represented_active ledger) db else Inr db) (\<lambda>db.
      bind_res (update_where (db_Current db = frozen \<and> db_State db = LedgerProposed)
          (update_ledger env LedgerFrozen (Some frozen) db)) (\<lambda>db.
      bind_res (createFrozenCodingAgentTasksTx env frozen ledger db) (\<lambda>db.
      reread env (fc_LedgerID command) frozen db)))))))))"

definition freezeCodingLedgerTx ::
    "database \<Rightarrow> FreezeCodingLedgerCommand \<Rightarrow> ledger_db \<Rightarrow> store_error + CodingLedgerRevision \<times> ledger_db" where
  "freezeCodingLedgerTx env command db =
     (let current = db_Current db in
      if fc_LedgerID command \<noteq> db_LedgerID db then Inl NoRows
      else case find_operation (fc_OperationID command) db of
        Some (row, turn) \<Rightarrow> replayFreezeTx env command row turn db
      | None \<Rightarrow>
          if db_State db \<noteq> LedgerProposed \<or> current \<noteq> fc_Revision command then Inl (RevisionConflict (fc_Revision command) current)
          else bind_res (readCodingLedgerRevisionTx env (fc_LedgerID command) current read_all db) (\<lambda>proposal.
            check_res (freezable proposal current) (storeFrozenRevisionTx env command proposal db)))"

definition freezeCodingLedger ::
    "database \<Rightarrow> FreezeCodingLedgerCommand \<Rightarrow> ledger_db \<Rightarrow> store_error + CodingLedgerRevision \<times> ledger_db" where
  \<comment> \<open>without the queue transition that \<^verbatim>\<open>FreezeAndStartCodingLedger\<close> adds\<close>
  "freezeCodingLedger env command db =
     (if fc_LedgerID command \<le> 0 \<or> fc_Revision command \<le> 0 \<or> blank (fc_OperationID command) \<or>
         blank (fc_OwnerTurnID command) \<or> blank (fc_OwnerTurnText command) then Inl CommandIncomplete
      else check_res (lift_check (or_else (validateCodingLedgerOperationID (fc_OperationID command))
          (validateCodingLedgerExternalOwnerTurnID (fc_OwnerTurnID command))))
        (freezeCodingLedgerTx env command db))"

section \<open>Revising and cancelling\<close>

definition supersedeCodingLedgerTx :: "database \<Rightarrow> ledger_db \<Rightarrow> store_error + ledger_db" where
  "supersedeCodingLedgerTx env db =
     (if db_State db \<noteq> LedgerFrozen then Inr db else update_ledger env LedgerRevising None db)"

definition cancelCodingLedgerTx :: "database \<Rightarrow> string \<Rightarrow> string \<Rightarrow> ledger_db \<Rightarrow> store_error + ledger_db" where
  "cancelCodingLedgerTx env ownerTurnID ownerTurnText db =
     check_res (lift_check (validateCodingLedgerExternalOwnerTurnID ownerTurnID))
     (if blank ownerTurnText then Inl OwnerTurnIncomplete
      else bind_res (insertCodingLedgerOwnerTurnTx env ownerTurnID (db_Current db) ActionCancel ownerTurnText db) (\<lambda>db.
        let frozen = (case db_Frozen db of Some f \<Rightarrow> f | None \<Rightarrow> last_frozen db (db_Current db)) in
        bind_res (if frozen > 0 then cancel_tasks env (\<lambda>t. at_Revision t = frozen \<and> at_State t = TaskReady) db else Inr db) (\<lambda>db.
        update_where (db_State db \<in> {LedgerProposed, LedgerFrozen, LedgerRevising})
          (update_ledger env LedgerCancelled (if frozen > 0 then Some frozen else None) db))))"

datatype coding_plan_target = TargetSuperseded | TargetCanceled | TargetOther

definition transitionCodingAuthorityTx ::
    "database \<Rightarrow> int \<Rightarrow> coding_plan_target \<Rightarrow> string \<Rightarrow> string \<Rightarrow> ledger_db \<Rightarrow> store_error + ledger_db" where
  "transitionCodingAuthorityTx env jobID target ownerTurnID ownerTurnText db =
     (if jobID \<noteq> db_JobID db then Inr db
      else if db_State db \<in> {LedgerCompleted, LedgerCancelled} then Inl (StateConflict (db_State db))
      else case target of
        TargetSuperseded \<Rightarrow> supersedeCodingLedgerTx env db
      | TargetCanceled \<Rightarrow> cancelCodingLedgerTx env ownerTurnID ownerTurnText db
      | TargetOther \<Rightarrow> Inl UnsupportedTarget)"

section \<open>The queue of a frozen ledger\<close>

definition ready_rows :: "ledger_db \<Rightarrow> (task_row \<times> version_row) list" where
  \<comment> \<open>the join of the scheduler's query\<close>
  "ready_rows db =
     (case (db_State db, db_Frozen db) of
        (LedgerFrozen, Some f) \<Rightarrow>
          concat (map (\<lambda>t. case version_in db f (at_ItemID t) of Some v \<Rightarrow> [(t, v)] | None \<Rightarrow> [])
            (filter (\<lambda>t. at_Revision t = f \<and> at_State t = TaskReady) (db_Tasks db)))
      | _ \<Rightarrow> [])"

definition NextIncompleteCodingLedgerTask :: "database \<Rightarrow> bool \<Rightarrow> int \<Rightarrow> ledger_db \<Rightarrow> store_error + Task option" where
  "NextIncompleteCodingLedgerTask env authorized jobID db =
     (if \<not> authorized then Inl NotAuthorized
      else if jobID \<noteq> db_JobID db then Inr None
      else Inr (case sort_key (\<lambda>(t, v). (vs_Rank v, at_FairnessKey t)) (ready_rows db) of
          [] \<Rightarrow> None | (t, v) # _ \<Rightarrow> Some (task_packet (dbe_Text env (vs_Payload v)) (vs_Payload v))))"

definition journal_accepted :: "int \<Rightarrow> Entry list \<Rightarrow> LedgerItemID \<Rightarrow> bool" where
  \<comment> \<open>the latest verdict on the task in the journal of the generation is its acceptance\<close>
  "journal_accepted generation journal i \<longleftrightarrow>
     (case first_with (\<lambda>e. en_Generation e = generation \<and> en_TaskID e = i \<and>
         (en_Phase e = PhaseTaskAccepted \<or> en_Phase e = PhaseTaskReviewed)) (rev journal) of
        Some e \<Rightarrow> en_Phase e = PhaseTaskAccepted
      | None \<Rightarrow> False)"

definition accept_task :: "database \<Rightarrow> int \<Rightarrow> Entry list \<Rightarrow> task_row \<Rightarrow> ledger_db \<Rightarrow> store_error + ledger_db" where
  "accept_task env generation journal t db =
     (if \<not> journal_accepted generation journal (at_ItemID t) then Inl TransitionInvalid
      else exec env db (db\<lparr>db_Tasks := map (\<lambda>u.
        if at_Revision u = at_Revision t \<and> at_ItemID u = at_ItemID t \<and> at_State u = TaskReady
        then u\<lparr>at_State := TaskAccepted, at_Version := at_Version u + 1\<rparr> else u) (db_Tasks db)\<rparr>))"

definition AcceptCodingLedgerTask ::
    "database \<Rightarrow> bool \<Rightarrow> int \<Rightarrow> Entry list \<Rightarrow> int \<Rightarrow> LedgerItemID \<Rightarrow> ledger_db \<Rightarrow> store_error + ledger_db" where
  "AcceptCodingLedgerTask env authorized generation journal jobID taskID db =
     (if blank taskID then Inl CommandIncomplete
      else if \<not> authorized then Inl NotAuthorized
      else case (if jobID = db_JobID db \<and> db_State db = LedgerFrozen then db_Frozen db else None) of
        None \<Rightarrow> Inl NoRows
      | Some f \<Rightarrow>
          (case queue_row db f taskID of
             None \<Rightarrow> Inl NoRows
           | Some t \<Rightarrow>
               (case at_State t of
                  TaskAccepted \<Rightarrow> Inr db
                | TaskCancelled \<Rightarrow> Inl (NotReady TaskCancelled)
                | TaskReady \<Rightarrow> accept_task env generation journal t db)))"

definition CodingLedgerCompletionCounts :: "bool \<Rightarrow> int \<Rightarrow> ledger_db \<Rightarrow> store_error + int" where
  "CodingLedgerCompletionCounts authorized jobID db =
     (if \<not> authorized then Inl NotAuthorized
      else case (if jobID = db_JobID db \<and> db_State db = LedgerFrozen then db_Frozen db else None) of
        None \<Rightarrow> Inl NoRows
      | Some f \<Rightarrow>
          let tasks = filter (\<lambda>t. at_Revision t = f) (db_Tasks db);
              count = length tasks; acceptedCount = length (filter (\<lambda>t. at_State t = TaskAccepted) tasks) in
          if count < 1 \<or> acceptedCount \<noteq> count then Inl NotEveryTaskAccepted else Inr (int count))"

definition materializeCodingTaskLedgerCompletionTx :: "database \<Rightarrow> int \<Rightarrow> ledger_db \<Rightarrow> store_error + ledger_db" where
  "materializeCodingTaskLedgerCompletionTx env revision db =
     (if list_ex (\<lambda>t. at_Revision t = revision \<and> at_State t \<noteq> TaskAccepted) (db_Tasks db) then Inl NotEveryTaskAccepted
      else update_where (db_Frozen db = Some revision \<and> db_State db = LedgerFrozen)
        (update_ledger env LedgerCompleted (db_Frozen db) db))"

end
