(* ===== verification/Store_Rules.thy ===== *)
theory Store_Rules
  imports Ledger_Lifecycle
begin

text \<open>
  Runs of the repository and rules about them.

  \<open>ledger_step\<close> is one committed transaction on a ledger, \<open>ledger_reachable\<close> the tables a
  sequence of them can lead to. A rule about the tables is a relation between the tables before and after; the
  locale \<open>store_rule\<close> states what has to be checked of the single statements, and its lemmas carry a rule
  from the statements to every transaction. Two rules are obtained this way: the history only grows
  (\<open>extends\<close>), and the integrity of the tables is kept (\<open>integrity\<close>).
\<close>

section \<open>Runs\<close>

inductive ledger_step :: "database \<Rightarrow> ledger_db \<Rightarrow> ledger_db \<Rightarrow> bool" for env where
  mutate: "applyCodingLedgerMutation env command action db = Inr (r, db') \<Longrightarrow> ledger_step env db db'"
| propose: "ProposeUnchangedCodingLedger env unchanged db = Inr (r, db') \<Longrightarrow> ledger_step env db db'"
| freeze: "freezeCodingLedger env freezing db = Inr (r, db') \<Longrightarrow> ledger_step env db db'"
| transition: "transitionCodingAuthorityTx env jobID target turnID turnText db = Inr db' \<Longrightarrow> ledger_step env db db'"
| accept: "AcceptCodingLedgerTask env authorized generation journal jobID taskID db = Inr db' \<Longrightarrow> ledger_step env db db'"
| complete: "materializeCodingTaskLedgerCompletionTx env revision db = Inr db' \<Longrightarrow> ledger_step env db db'"

inductive ledger_reachable :: "database \<Rightarrow> ledger_db \<Rightarrow> bool" for env where
  created: "CreateCodingLedger env ledgerID command None = Inr (r, db) \<Longrightarrow> ledger_reachable env db"
| stepped: "ledger_reachable env db \<Longrightarrow> ledger_step env db db' \<Longrightarrow> ledger_reachable env db'"

inductive_cases ledger_stepE: "ledger_step env db db'"

section \<open>From statements to transactions\<close>

locale store_rule =
  fixes rel :: "ledger_db \<Rightarrow> ledger_db \<Rightarrow> bool" and fresh :: "int \<Rightarrow> bool"
  assumes refl: "rel db db"
    and trans: "rel a b \<Longrightarrow> rel b c \<Longrightarrow> rel a c"
    and turn: "insert_turn env n db = Inr db' \<Longrightarrow> rel db db'"
    and revision: "insert_revision env row db = Inr db' \<Longrightarrow> fresh (rw_Revision row) \<Longrightarrow> rel db db'"
    and item: "insert_item env i r db = Inr db' \<Longrightarrow> fresh r \<Longrightarrow> rel db db'"
    and version: "insert_version env (version_of r turnID t) db = Inr db' \<Longrightarrow> fresh r \<Longrightarrow> rel db db'"
    and origin: "insert_origin env i r detail db = Inr db' \<Longrightarrow> fresh r \<Longrightarrow> rel db db'"
    and projection: "insert_projection env p db = Inr db' \<Longrightarrow> fresh (pj_Revision p) \<Longrightarrow> rel db db'"
    and route: "insert_route env r q db = Inr db' \<Longrightarrow> fresh r \<Longrightarrow> rel db db'"
    and disposition: "insert_disposition env d db = Inr db' \<Longrightarrow> fresh (dp_Revision d) \<Longrightarrow> rel db db'"
    and turn_item: "insert_turn_item env r turnID i db = Inr db' \<Longrightarrow> fresh r \<Longrightarrow> rel db db'"
    and row: "update_ledger env s f db = Inr db' \<Longrightarrow> rel db db'"
    and queue: "insert_task env r i state db = Inr db' \<Longrightarrow> fresh r \<Longrightarrow> rel db db'"
    and cancel: "cancel_tasks env chosen db = Inr db' \<Longrightarrow> (\<And>u. chosen u \<Longrightarrow> at_State u = TaskReady) \<Longrightarrow> rel db db'"
    and accepted: "accept_task env generation journal u db = Inr db' \<Longrightarrow> rel db db'"
begin

lemma each_rel:
  assumes "\<And>x s s'. x \<in> set xs \<Longrightarrow> f x s = Inr s' \<Longrightarrow> rel s s'" "each f xs s = Inr s'"
  shows "rel s s'"
  using assms
proof (induction xs arbitrary: s)
  case (Cons x xs)
  then obtain mid where "f x s = Inr mid" "each f xs mid = Inr s'" by auto
  then show ?case using Cons by (meson list.set_intros trans)
qed (simp add: refl)

lemma owner_turn_rel: "insertCodingLedgerOwnerTurnTx env i b a x db = Inr db' \<Longrightarrow> rel db db'"
  by (auto simp: insertCodingLedgerOwnerTurnTx_def split: if_splits intro: turn)

lemma disposition_rel:
  assumes "insertCodingLedgerDispositionTx env r i d db = Inr db'" "fresh r"
  shows "rel db db'"
proof -
  obtain mid where mid: "insert_disposition env \<lparr>dp_OwnerTurnID = i, dp_Revision = r,
      dp_Statements = map json_copy_statement (StatementDispositions d)\<rparr> db = Inr mid"
    "each (insert_turn_item env r i) (remdups (concat (map stmt_ItemIDs (StatementDispositions d)))) mid = Inr db'"
    using assms(1) by (auto simp: insertCodingLedgerDispositionTx_def)
  have "rel db mid" using disposition [OF mid(1)] assms(2) by simp
  moreover have "rel mid db'" by (rule each_rel [OF _ mid(2)]) (use turn_item assms(2) in blast)
  ultimately show ?thesis by (rule trans)
qed

lemma persist_task_rel:
  assumes "persist_task env r i previous t db = Inr db'" "fresh r"
  shows "rel db db'"
proof -
  obtain a b where steps: "a = db \<or> insert_item env (task_ID t) r db = Inr a"
    "b = a \<or> (\<exists>m d. insert_version env (version_of r i t) a = Inr m \<and> insert_origin env (task_ID t) r d m = Inr b)"
    "\<exists>n. insert_projection env \<lparr>pj_Revision = r, pj_ItemID = task_ID t, pj_ItemRevision = n\<rparr> b = Inr db'"
    using assms(1) by (auto simp: persist_task_def Let_def split: if_splits)
  have "rel db a" using steps(1) item assms(2) refl by blast
  moreover have "rel a b" using steps(2) version origin assms(2) refl trans by blast
  moreover have "rel b db'" using steps(3) projection assms(2) by fastforce
  ultimately show ?thesis using trans by blast
qed

lemma persist_rel:
  assumes "persistCodingLedgerSnapshotTx env r b i ledger routes db = Inr db'" "fresh r"
  shows "rel db db'"
proof -
  obtain previous mid where mid: "each (persist_task env r i previous) (led_Tasks ledger) db = Inr mid"
    "each (insert_route env r) routes mid = Inr db'"
    using assms(1) by (auto simp: persistCodingLedgerSnapshotTx_def Let_def)
  have "rel db mid" by (rule each_rel [OF _ mid(1)]) (use persist_task_rel assms(2) in blast)
  moreover have "rel mid db'" by (rule each_rel [OF _ mid(2)]) (use route assms(2) in blast)
  ultimately show ?thesis by (rule trans)
qed

lemma revision_fresh: "insert_revision env row db = Inr db' \<Longrightarrow> fresh (db_Current db + 1) \<Longrightarrow> fresh (rw_Revision row)"
  by (auto simp: insert_revision_def revision_insertable_def split: if_splits)

lemma turn_current: "insertCodingLedgerOwnerTurnTx env i b a x db = Inr db' \<Longrightarrow> db_Current db' = db_Current db"
  by (auto simp: insertCodingLedgerOwnerTurnTx_def insert_turn_def exec_def split: if_splits)

lemma update_where_rel: "update_where c (update_ledger env s f db) = Inr db' \<Longrightarrow> rel db db'"
  by (auto simp: update_where_def split: if_splits intro: row)

lemma written_rel:
  \<comment> \<open>the statements that every new revision is written with\<close>
  assumes "insertCodingLedgerOwnerTurnTx env i base a x db = Inr d1" "insert_revision env row d1 = Inr d2"
    "persistCodingLedgerSnapshotTx env (rw_Revision row) b j ledger routes d2 = Inr d3" "fresh (db_Current db + 1)"
  shows "rel db d3 \<and> fresh (rw_Revision row)"
proof -
  have fresh: "fresh (rw_Revision row)" using revision_fresh [OF assms(2)] turn_current [OF assms(1)] assms(4) by simp
  then show ?thesis
    using owner_turn_rel [OF assms(1)] revision [OF assms(2)] persist_rel [OF assms(3)] trans by blast
qed

lemma reread_rel: "reread env l r db = Inr (x, db') \<Longrightarrow> db' = db"
  by (auto simp: reread_def)

lemma mutation_rel:
  assumes "applyCodingLedgerMutation env command action db = Inr (r, db')" "fresh (db_Current db + 1)"
  shows "rel db db'"
proof -
  let ?m = "ac_Mutation command"
  have tx: "applyCodingLedgerMutationTx env command action db = Inr (r, db')"
    using assms(1) by (auto simp: applyCodingLedgerMutation_def Let_def split: if_splits)
  show ?thesis
  proof (cases "find_operation (mut_OperationID ?m) db")
    case (Some found)
    then show ?thesis
      using tx refl
      by (cases found) (auto simp: applyCodingLedgerMutationTx_def replayCodingLedgerMutationTx_def Let_def split: if_splits)
  next
    case None
    then obtain new routes d1 d2 d3 d4 d5 where steps:
      "insertCodingLedgerOwnerTurnTx env (mut_OwnerTurnID ?m) (db_Current db) action (ac_OwnerTurnText command) db = Inr d1"
      "insert_revision env \<lparr>rw_Revision = led_Revision new, rw_BaseRevision = db_Current db, rw_OperationID = mut_OperationID ?m,
        rw_OwnerTurnID = mut_OwnerTurnID ?m, rw_State = RevisionProposed, rw_Mutation = Some (json_copy_mutation ?m)\<rparr> d1 = Inr d2"
      "persistCodingLedgerSnapshotTx env (led_Revision new) (db_Current db) (mut_OwnerTurnID ?m) new routes d2 = Inr d3"
      "insertCodingLedgerDispositionTx env (led_Revision new) (mut_OwnerTurnID ?m) (mut_OwnerTurnDisposition ?m) d3 = Inr d4"
      "\<exists>c. update_where c (update_ledger env LedgerProposed (db_Frozen d4) d4) = Inr d5"
      "reread env (ac_LedgerID command) (led_Revision new) d5 = Inr (r, db')"
      using tx by (fastforce simp: applyCodingLedgerMutationTx_def Let_def split: if_splits prod.splits)
    have w: "rel db d3 \<and> fresh (led_Revision new)" using written_rel [OF steps(1,2) _ assms(2)] steps(3) by simp
    moreover have "rel d3 d4" using disposition_rel [OF steps(4)] w by blast
    moreover have "rel d4 d5" using steps(5) update_where_rel by blast
    moreover have "db' = d5" using reread_rel [OF steps(6)] .
    ultimately show ?thesis using trans by blast
  qed
qed

lemma unchanged_rel:
  assumes "ProposeUnchangedCodingLedger env command db = Inr (r, db')" "fresh (db_Current db + 1)"
  shows "rel db db'"
proof -
  let ?rev = "int64 (db_Current db + 1)"
  obtain cur :: CodingLedgerRevision and d1 d2 d3 d4 d5 where steps:
    "insertCodingLedgerOwnerTurnTx env (pu_OwnerTurnID command) (db_Current db) ActionPlanning (pu_OwnerTurnText command) db = Inr d1"
    "insert_revision env \<lparr>rw_Revision = ?rev, rw_BaseRevision = db_Current db, rw_OperationID = pu_OperationID command,
      rw_OwnerTurnID = pu_OwnerTurnID command, rw_State = RevisionProposed, rw_Mutation = None\<rparr> d1 = Inr d2"
    "persistCodingLedgerSnapshotTx env ?rev (db_Current db) (pu_OwnerTurnID command) ((cr_Ledger cur)\<lparr>led_Revision := ?rev\<rparr>)
      (cr_Routes cur) d2 = Inr d3"
    "insertCodingLedgerDispositionTx env ?rev (pu_OwnerTurnID command) \<lparr>turn_Statements = []\<rparr> d3 = Inr d4"
    "update_ledger env LedgerProposed (db_Frozen d4) d4 = Inr d5" "reread env (pu_LedgerID command) ?rev d5 = Inr (r, db')"
    using assms(1) by (simp add: ProposeUnchangedCodingLedger_def Let_def split: if_splits) blast
  have w: "rel db d3 \<and> fresh ?rev" using written_rel [OF steps(1,2) _ assms(2)] steps(3) by simp
  moreover have "rel d3 d4" using disposition_rel [OF steps(4)] w by blast
  moreover have "rel d4 d5" using row [OF steps(5)] .
  moreover have "db' = d5" using reread_rel [OF steps(6)] .
  ultimately show ?thesis using trans by blast
qed

lemma create_tasks_rel:
  assumes "createFrozenCodingAgentTasksTx env r ledger db = Inr db'" "fresh r"
  shows "rel db db'"
proof -
  obtain prior where "each (\<lambda>t db. if \<not> task_active t then Inr db
        else insert_task env r (task_ID t) (if prior > 0 \<and> accepted_before db prior r (task_ID t) then TaskAccepted else TaskReady) db)
        (led_Tasks ledger) db = Inr db'"
    using assms(1) by (simp add: createFrozenCodingAgentTasksTx_def Let_def)
  then show ?thesis by (rule each_rel [rotated]) (use queue assms(2) refl in \<open>auto split: if_splits\<close>)
qed

lemma cancel_removed_rel: "cancelRemovedCodingAgentTasksTx env r db = Inr db' \<Longrightarrow> rel db db'"
  using refl cancel by (fastforce simp: cancelRemovedCodingAgentTasksTx_def Let_def split: if_splits)

lemma freeze_stored_rel:
  assumes "storeFrozenRevisionTx env command proposal db = Inr (r, db')" "fresh (db_Current db + 1)"
  shows "rel db db'"
proof -
  let ?rev = "int64 (db_Current db + 1)" and ?i = "fc_OwnerTurnID command"
  obtain d0 d1 d2 d3 d4 d5 d6 d7 a where steps:
    "d0 = db \<or> insertCodingLedgerOwnerTurnTx env (codingLedgerSignOffTurnID ?i) (db_Current db) ActionSignOff (fc_OwnerTurnText command) db = Inr d0"
    "insertCodingLedgerOwnerTurnTx env ?i (db_Current db) a (fc_OwnerTurnText command) d0 = Inr d1"
    "insert_revision env \<lparr>rw_Revision = ?rev, rw_BaseRevision = db_Current db, rw_OperationID = fc_OperationID command,
      rw_OwnerTurnID = ?i, rw_State = RevisionFrozen, rw_Mutation = None\<rparr> d1 = Inr d2"
    "persistCodingLedgerSnapshotTx env ?rev (db_Current db) ?i ((cr_Ledger proposal)\<lparr>led_Revision := ?rev\<rparr>) (cr_Routes proposal) d2 = Inr d3"
    "cancelRemovedCodingAgentTasksTx env ?rev d3 = Inr d4"
    "d5 = d4 \<or> (\<exists>p. insertCodingLedgerDispositionTx env ?rev ?i p d4 = Inr d5)"
    "\<exists>c. update_where c (update_ledger env LedgerFrozen (Some ?rev) d5) = Inr d6"
    "createFrozenCodingAgentTasksTx env ?rev ((cr_Ledger proposal)\<lparr>led_Revision := ?rev\<rparr>) d6 = Inr d7"
    "reread env (fc_LedgerID command) ?rev d7 = Inr (r, db')"
    using assms(1) by (simp add: storeFrozenRevisionTx_def Let_def split: if_splits) blast+
  have d0: "rel db d0 \<and> db_Current d0 = db_Current db" using steps(1) refl owner_turn_rel turn_current by blast
  have w: "rel d0 d3 \<and> fresh ?rev" using written_rel [OF steps(2,3) _] d0 assms(2) steps(4) by simp
  moreover have "rel d3 d4" using cancel_removed_rel [OF steps(5)] .
  moreover have "rel d4 d5" using steps(6) disposition_rel w refl by blast
  moreover have "rel d5 d6" using steps(7) update_where_rel by blast
  moreover have "rel d6 d7" using create_tasks_rel [OF steps(8)] w by blast
  moreover have "db' = d7" using reread_rel [OF steps(9)] .
  ultimately show ?thesis using d0 trans by blast
qed

lemma freeze_rel:
  assumes "freezeCodingLedger env command db = Inr (r, db')" "fresh (db_Current db + 1)"
  shows "rel db db'"
proof -
  have tx: "freezeCodingLedgerTx env command db = Inr (r, db')"
    using assms(1) by (auto simp: freezeCodingLedger_def split: if_splits)
  show ?thesis
  proof (cases "find_operation (fc_OperationID command) db")
    case (Some found)
    then show ?thesis
      using tx refl by (cases found) (auto simp: freezeCodingLedgerTx_def replayFreezeTx_def Let_def split: if_splits)
  next
    case None
    then show ?thesis
      using tx freeze_stored_rel assms(2) by (auto simp: freezeCodingLedgerTx_def Let_def split: if_splits)
  qed
qed

lemma cancel_ledger_rel:
  assumes "cancelCodingLedgerTx env i x db = Inr db'"
  shows "rel db db'"
proof -
  obtain d1 d2 where steps: "insertCodingLedgerOwnerTurnTx env i (db_Current db) ActionCancel x db = Inr d1"
    "d2 = d1 \<or> (\<exists>f. cancel_tasks env (\<lambda>t. at_Revision t = f \<and> at_State t = TaskReady) d1 = Inr d2)"
    "\<exists>c f. update_where c (update_ledger env LedgerCancelled f d2) = Inr db'"
    using assms by (auto simp: cancelCodingLedgerTx_def Let_def split: if_splits)
  have "rel db d1" using owner_turn_rel [OF steps(1)] .
  moreover have "rel d1 d2" using steps(2) refl cancel [of env _ d1 d2] by fastforce
  moreover have "rel d2 db'" using steps(3) update_where_rel by blast
  ultimately show ?thesis using trans by blast
qed

theorem step_rel:
  assumes "ledger_step env db db'" "fresh (db_Current db + 1)"
  shows "rel db db'"
  using assms(1)
proof (cases rule: ledger_step.cases)
  case (transition jobID target turnID turnText)
  then show ?thesis
    using refl row cancel_ledger_rel
    by (auto simp: transitionCodingAuthorityTx_def supersedeCodingLedgerTx_def split: if_splits coding_plan_target.splits)
next
  case (accept authorized generation journal jobID taskID)
  then show ?thesis
    using refl accepted
    by (auto simp: AcceptCodingLedgerTask_def split: if_splits option.splits agent_task_state.splits)
next
  case (complete revision)
  then show ?thesis
    using update_where_rel by (auto simp: materializeCodingTaskLedgerCompletionTx_def split: if_splits)
qed (use mutation_rel unchanged_rel freeze_rel assms(2) in blast)+

lemma created_rel:
  assumes "CreateCodingLedger env ledgerID command None = Inr (r, db)" "fresh 1"
  shows "rel (new_ledger ledgerID (cc_JobID command)) db"
proof -
  let ?i = "cc_OwnerTurnID command" and ?new = "new_ledger ledgerID (cc_JobID command)"
  have "insertCodingLedgerTx env ledgerID command = Inr (r, db)"
    using assms(1) by (auto simp: CreateCodingLedger_def Let_def split: if_splits)
  then obtain d1 d2 d3 d4 where steps:
    "insertCodingLedgerOwnerTurnTx env ?i 0 ActionPlanning (cc_OwnerTurnText command) ?new = Inr d1"
    "insert_revision env \<lparr>rw_Revision = 1, rw_BaseRevision = 0, rw_OperationID = cc_OperationID command,
      rw_OwnerTurnID = ?i, rw_State = RevisionProposed, rw_Mutation = None\<rparr> d1 = Inr d2"
    "persistCodingLedgerSnapshotTx env 1 0 ?i ((cc_Ledger command)\<lparr>led_Revision := 1\<rparr>) (cc_Routes command) d2 = Inr d3"
    "insertCodingLedgerDispositionTx env 1 ?i (cc_OwnerTurnDisposition command) d3 = Inr d4"
    "reread env ledgerID 1 d4 = Inr (r, db)"
    by (auto simp: insertCodingLedgerTx_def Let_def)
  have "rel ?new d3" using written_rel [OF steps(1,2) _ _] steps(3) assms(2) by (simp add: new_ledger_def)
  moreover have "rel d3 d4" using disposition_rel [OF steps(4) assms(2)] .
  moreover have "db = d4" using reread_rel [OF steps(5)] .
  ultimately show ?thesis using trans by blast
qed

end

end
