(* ===== verification/Store_Integrity.thy ===== *)
theory Store_Integrity
  imports Store_Rules Exact_JSON
begin

text \<open>
  The two rules of the tables. \<open>extends c\<close>: rows are only appended, and appended rows of revisions,
  versions, projections, routes and dispositions belong to revisions after \<open>c\<close>. \<open>integrity\<close>: revisions
  are numbered without gaps, keys are unique, and every version repeats in its columns what its payload says.
\<close>

section \<open>History\<close>

definition grown :: "('a \<Rightarrow> int) \<Rightarrow> int \<Rightarrow> 'a list \<Rightarrow> 'a list \<Rightarrow> bool" where
  "grown rev_of c xs ys \<longleftrightarrow> (\<exists>zs. ys = xs @ zs \<and> (\<forall>z\<in>set zs. c < rev_of z))"

lemma grown_refl [simp]: "grown f c xs xs"
  by (simp add: grown_def)

lemma grown_snoc [simp]: "c < f x \<Longrightarrow> grown f c xs (xs @ [x])"
  by (auto simp: grown_def)

lemma grown_trans: "grown f c xs ys \<Longrightarrow> grown f c ys zs \<Longrightarrow> grown f c xs zs"
  unfolding grown_def by (metis Un_iff append.assoc set_append)

lemma grown_filter: "grown f c xs ys \<Longrightarrow> (\<And>z. c < f z \<Longrightarrow> \<not> p z) \<Longrightarrow> filter p ys = filter p xs"
  by (auto simp: grown_def filter_empty_conv)

lemma grown_first: "grown f c xs ys \<Longrightarrow> (\<And>z. c < f z \<Longrightarrow> \<not> p z) \<Longrightarrow> first_with p ys = first_with p xs"
  by (simp add: first_with_filter grown_filter)

definition extends :: "int \<Rightarrow> ledger_db \<Rightarrow> ledger_db \<Rightarrow> bool" where
  "extends c db db' \<longleftrightarrow>
     db_LedgerID db' = db_LedgerID db \<and> db_JobID db' = db_JobID db \<and> db_Current db \<le> db_Current db' \<and>
     grown rw_Revision c (db_Revisions db) (db_Revisions db') \<and> grown vs_Revision c (db_Versions db) (db_Versions db') \<and>
     grown pj_Revision c (db_Projections db) (db_Projections db') \<and> grown fst c (db_Routes db) (db_Routes db') \<and>
     grown dp_Revision c (db_Dispositions db) (db_Dispositions db') \<and>
     set (db_Items db) \<subseteq> set (db_Items db')"

lemmas statement_defs =
  insert_turn_def insert_revision_def insert_item_def insert_version_def insert_origin_def insert_projection_def
  insert_route_def insert_disposition_def insert_turn_item_def update_ledger_def insert_task_def cancel_tasks_def
  accept_task_def exec_def

interpretation history: store_rule "extends c" "\<lambda>r. c < r" for c
proof
  show "extends c a b \<Longrightarrow> extends c b d \<Longrightarrow> extends c a d" for a b d
    unfolding extends_def by (auto intro: grown_trans)
qed (auto simp: extends_def statement_defs version_of_def revision_insertable_def Let_def split: if_splits)

lemma extends_current: "ledger_step env db db' \<Longrightarrow> extends (db_Current db) db db'"
  by (rule history.step_rel) auto

section \<open>Integrity\<close>

definition version_ok :: "version_row \<Rightarrow> bool" where
  "version_ok v \<longleftrightarrow> version_check v \<and> task_ID (vs_Payload v) = vs_ItemID v \<and> task_Rank (vs_Payload v) = vs_Rank v \<and>
     json_copy_task (vs_Payload v) = vs_Payload v \<and>
     vs_Removed v = (task_Disposition (vs_Payload v) = LedgerDispositionTombstoned) \<and>
     (\<not> vs_Removed v \<longrightarrow> vs_ReviewState v = Some (task_ReviewState (vs_Payload v)))"

definition revisions_ok :: "ledger_db \<Rightarrow> bool" where
  "revisions_ok db \<longleftrightarrow> 0 \<le> db_Current db \<and> map rw_Revision (db_Revisions db) = [1..db_Current db] \<and>
     (\<forall>r\<in>set (db_Revisions db). rw_BaseRevision r = rw_Revision r - 1) \<and> distinct (map rw_OperationID (db_Revisions db)) \<and>
     (\<forall>r\<in>set (db_Revisions db). rw_OwnerTurnID r \<in> set (map tn_OwnerTurnID (db_Turns db))) \<and>
     distinct (map tn_OwnerTurnID (db_Turns db))"

definition content_ok :: "ledger_db \<Rightarrow> bool" where
  "content_ok db \<longleftrightarrow>
     distinct (map fst (db_Items db)) \<and> (\<forall>i\<in>set (map fst (db_Items db)). codingLedgerItemIDPattern i) \<and>
     distinct (map (\<lambda>v. (vs_ItemID v, vs_Revision v)) (db_Versions db)) \<and>
     (\<forall>v\<in>set (db_Versions db). version_ok v \<and> vs_ItemID v \<in> set (map fst (db_Items db)) \<and> vs_Revision v \<le> db_Current db) \<and>
     distinct (map (\<lambda>p. (pj_Revision p, pj_ItemID p)) (db_Projections db)) \<and>
     (\<forall>p\<in>set (db_Projections db). pj_ItemRevision p \<le> pj_Revision p \<and> pj_Revision p \<le> db_Current db \<and>
        find_version db (pj_ItemID p) (pj_ItemRevision p) \<noteq> None)"

definition routes_ok :: "ledger_db \<Rightarrow> bool" where
  "routes_ok db \<longleftrightarrow> distinct (map (\<lambda>(r, q). (r, lr_Role q)) (db_Routes db)) \<and> (\<forall>(r, q)\<in>set (db_Routes db). r \<le> db_Current db)"

definition queue_ok :: "ledger_db \<Rightarrow> bool" where
  "queue_ok db \<longleftrightarrow> distinct (map (\<lambda>t. (at_Revision t, at_ItemID t)) (db_Tasks db)) \<and>
     (\<forall>t\<in>set (db_Tasks db). at_Revision t \<le> db_Current db)"

definition integrity :: "ledger_db \<Rightarrow> bool" where
  "integrity db \<longleftrightarrow> state_shape db \<and> revisions_ok db \<and> content_ok db \<and> routes_ok db \<and> queue_ok db"

lemma coerce_utf8_idem [simp]: "coerce_utf8 (coerce_utf8 s) = coerce_utf8 s"
proof -
  have "ValidString (coerce_utf8 s)"
  proof (induction s rule: coerce_utf8.induct)
    case (1 s)
    have "ValidString [CHR 0xEF, CHR 0xBF, CHR 0xBD]" using ValidString_replacement by (simp add: replacement_def)
    then show ?case
      using 1 ValidString_append [of "[CHR 0xEF, CHR 0xBF, CHR 0xBD]" "coerce_utf8 (tl s)"]
      by (subst coerce_utf8.simps) (auto intro: ValidString_append ValidString_rune)
  qed
  then show ?thesis by simp
qed

lemmas json_copy_defs =
  json_copy_provenance_def json_copy_item_def json_copy_context_def json_copy_responsibility_def
  json_copy_acceptance_def json_copy_task_def json_copy_ledger_def

lemma json_copy_task_idem [simp]: "json_copy_task (json_copy_task t) = json_copy_task t"
  by (auto simp: json_copy_defs split: LedgerDisposition.splits LedgerReviewState.splits TaskFileAction.splits)

lemma pattern_ascii: "codingLedgerItemIDPattern i \<Longrightarrow> ValidString i"
proof -
  have "list_all (\<lambda>x. byte x < 0x80) s \<Longrightarrow> ValidString s" for s by (induction s) auto
  moreover have "codingLedgerItemIDPattern i \<Longrightarrow> list_all (\<lambda>x. byte x < 0x80) i"
    by (cases i) (auto simp: codingLedgerItemIDPattern_def alnum_def is_digit_def list_all_iff)
  ultimately show "codingLedgerItemIDPattern i \<Longrightarrow> ValidString i" by blast
qed

lemma json_copy_task_fields:
  "task_ID (json_copy_task t) = coerce_utf8 (task_ID t)" "task_Rank (json_copy_task t) = task_Rank t"
  "task_Disposition (json_copy_task t) = LedgerDispositionTombstoned \<longleftrightarrow> task_Disposition t = LedgerDispositionTombstoned"
  "task_Disposition (json_copy_task t) = LedgerDispositionActive \<longleftrightarrow> task_Disposition t = LedgerDispositionActive"
  "task_ReviewState t \<in> review_set \<Longrightarrow> task_ReviewState (json_copy_task t) = task_ReviewState t"
  by (auto simp: json_copy_task_def json_copy_item_def review_set_def split: LedgerDisposition.splits)

lemma version_of_ok:
  assumes "codingLedgerItemIDPattern (task_ID t)" "version_check (version_of r i t)"
  shows "version_ok (version_of r i t)"
proof -
  have "task_Disposition t \<noteq> LedgerDispositionTombstoned \<Longrightarrow> task_ReviewState t \<in> review_set"
    using assms(2) by (auto simp: version_check_def version_of_def Let_def review_set_def)
  then show ?thesis
    using assms(2) pattern_ascii [OF assms(1)] by (simp add: version_ok_def version_of_def Let_def json_copy_task_fields)
qed

lemma find_version_snoc: "find_version db i r \<noteq> None \<Longrightarrow> find_version (db\<lparr>db_Versions := db_Versions db @ [v]\<rparr>) i r \<noteq> None"
  by (auto simp: find_version_def simp del: not_None_eq)

lemma find_version_cong [simp]:
  "find_version (db\<lparr>db_Projections := ps\<rparr>) = find_version db" "find_version (db\<lparr>db_Items := is\<rparr>) = find_version db"
  "find_version (db\<lparr>db_Turns := ts\<rparr>) = find_version db" "find_version (db\<lparr>db_Origins := os\<rparr>) = find_version db"
  "find_version (db\<lparr>db_Routes := rs\<rparr>) = find_version db" "find_version (db\<lparr>db_Dispositions := ds\<rparr>) = find_version db"
  "find_version (db\<lparr>db_TurnItems := us\<rparr>) = find_version db" "find_version (db\<lparr>db_Tasks := ks\<rparr>) = find_version db"
  "find_version (db\<lparr>db_Revisions := vs, db_Current := c\<rparr>) = find_version db"
  "find_version (db\<lparr>db_State := s, db_Frozen := f\<rparr>) = find_version db" "find_version (db\<lparr>db_State := s\<rparr>) = find_version db"
  by (simp_all add: find_version_def fun_eq_iff)

lemma state_shape_cong [simp]:
  "state_shape (db\<lparr>db_Projections := ps\<rparr>) = state_shape db" "state_shape (db\<lparr>db_Items := is\<rparr>) = state_shape db"
  "state_shape (db\<lparr>db_Turns := ts\<rparr>) = state_shape db" "state_shape (db\<lparr>db_Origins := os\<rparr>) = state_shape db"
  "state_shape (db\<lparr>db_Routes := rs\<rparr>) = state_shape db" "state_shape (db\<lparr>db_Dispositions := ds\<rparr>) = state_shape db"
  "state_shape (db\<lparr>db_TurnItems := us\<rparr>) = state_shape db" "state_shape (db\<lparr>db_Tasks := ks\<rparr>) = state_shape db"
  "state_shape (db\<lparr>db_Versions := vs\<rparr>) = state_shape db"
  by (simp_all add: state_shape_def split: ledger_state.split option.split)

lemma revisions_ok_cong [simp]:
  "revisions_ok (db\<lparr>db_Projections := ps\<rparr>) = revisions_ok db" "revisions_ok (db\<lparr>db_Items := is\<rparr>) = revisions_ok db"
  "revisions_ok (db\<lparr>db_Origins := os\<rparr>) = revisions_ok db" "revisions_ok (db\<lparr>db_Routes := rs\<rparr>) = revisions_ok db"
  "revisions_ok (db\<lparr>db_Dispositions := ds\<rparr>) = revisions_ok db" "revisions_ok (db\<lparr>db_TurnItems := us\<rparr>) = revisions_ok db"
  "revisions_ok (db\<lparr>db_Tasks := ks\<rparr>) = revisions_ok db" "revisions_ok (db\<lparr>db_Versions := vs\<rparr>) = revisions_ok db"
  "revisions_ok (db\<lparr>db_State := s, db_Frozen := f\<rparr>) = revisions_ok db"
  by (simp_all add: revisions_ok_def)

lemma content_ok_cong [simp]:
  "content_ok (db\<lparr>db_Turns := ts\<rparr>) = content_ok db" "content_ok (db\<lparr>db_Origins := os\<rparr>) = content_ok db"
  "content_ok (db\<lparr>db_Routes := rs\<rparr>) = content_ok db" "content_ok (db\<lparr>db_Dispositions := ds\<rparr>) = content_ok db"
  "content_ok (db\<lparr>db_TurnItems := us\<rparr>) = content_ok db" "content_ok (db\<lparr>db_Tasks := ks\<rparr>) = content_ok db"
  "content_ok (db\<lparr>db_State := s, db_Frozen := f\<rparr>) = content_ok db"
  by (simp_all add: content_ok_def)

lemma routes_ok_cong [simp]:
  "routes_ok (db\<lparr>db_Projections := ps\<rparr>) = routes_ok db" "routes_ok (db\<lparr>db_Items := is\<rparr>) = routes_ok db"
  "routes_ok (db\<lparr>db_Turns := ts\<rparr>) = routes_ok db" "routes_ok (db\<lparr>db_Origins := os\<rparr>) = routes_ok db"
  "routes_ok (db\<lparr>db_Dispositions := ds\<rparr>) = routes_ok db" "routes_ok (db\<lparr>db_TurnItems := us\<rparr>) = routes_ok db"
  "routes_ok (db\<lparr>db_Tasks := ks\<rparr>) = routes_ok db" "routes_ok (db\<lparr>db_Versions := vs\<rparr>) = routes_ok db"
  "routes_ok (db\<lparr>db_State := s, db_Frozen := f\<rparr>) = routes_ok db"
  by (simp_all add: routes_ok_def)

lemma queue_ok_cong [simp]:
  "queue_ok (db\<lparr>db_Projections := ps\<rparr>) = queue_ok db" "queue_ok (db\<lparr>db_Items := is\<rparr>) = queue_ok db"
  "queue_ok (db\<lparr>db_Turns := ts\<rparr>) = queue_ok db" "queue_ok (db\<lparr>db_Origins := os\<rparr>) = queue_ok db"
  "queue_ok (db\<lparr>db_Routes := rs\<rparr>) = queue_ok db" "queue_ok (db\<lparr>db_Dispositions := ds\<rparr>) = queue_ok db"
  "queue_ok (db\<lparr>db_TurnItems := us\<rparr>) = queue_ok db" "queue_ok (db\<lparr>db_Versions := vs\<rparr>) = queue_ok db"
  "queue_ok (db\<lparr>db_State := s, db_Frozen := f\<rparr>) = queue_ok db"
  by (simp_all add: queue_ok_def)

lemma integrity_turn: "insert_turn env n db = Inr db' \<Longrightarrow> integrity db \<Longrightarrow> integrity db'"
  by (auto simp: insert_turn_def exec_def integrity_def revisions_ok_def split: if_splits)

lemma integrity_revision:
  assumes "insert_revision env row db = Inr db'" "integrity db"
  shows "integrity db'"
proof -
  have row: "rw_Revision row = db_Current db + 1" "rw_BaseRevision row = db_Current db"
      "\<exists>t\<in>set (db_Turns db). tn_OwnerTurnID t = rw_OwnerTurnID row" "db_State db = LedgerProposed \<or> db_State db = LedgerRevising"
      "rw_OperationID row \<notin> set (map rw_OperationID (db_Revisions db))"
      "db' = db\<lparr>db_Revisions := db_Revisions db @ [row], db_Current := rw_Revision row\<rparr>"
    using assms(1) by (auto simp: insert_revision_def revision_insertable_def exec_def list_ex_iff split: if_splits)
  have ok: "state_shape db" "revisions_ok db" "content_ok db" "routes_ok db" "queue_ok db"
    using assms(2) by (simp_all add: integrity_def)
  have turn: "rw_OwnerTurnID row \<in> set (map tn_OwnerTurnID (db_Turns db))" using row(3) by force
  have "0 \<le> db_Current db" using ok(2) by (simp add: revisions_ok_def)
  then have "[1..db_Current db + 1] = [1..db_Current db] @ [db_Current db + 1]" by (simp add: upto_rec2)
  then have "revisions_ok db'"
    using ok(2) row(1,2,5) turn unfolding row(6) by (simp add: revisions_ok_def)
  moreover have "state_shape db'" using ok(1) row(4) unfolding row(6) by (auto simp: state_shape_def)
  moreover have "content_ok db'" using ok(3) row(1) unfolding row(6) by (fastforce simp: content_ok_def)
  moreover have "routes_ok db'" using ok(4) row(1) unfolding row(6) by (fastforce simp: routes_ok_def)
  moreover have "queue_ok db'" using ok(5) row(1) unfolding row(6) by (fastforce simp: queue_ok_def)
  ultimately show ?thesis by (simp add: integrity_def)
qed

lemma integrity_item: "insert_item env i r db = Inr db' \<Longrightarrow> integrity db \<Longrightarrow> integrity db'"
  by (auto simp: insert_item_def exec_def integrity_def content_ok_def split: if_splits)

lemma integrity_version:
  assumes "insert_version env (version_of r turnID t) db = Inr db'" "integrity db"
  shows "integrity db'"
proof -
  let ?v = "version_of r turnID t"
  have v: "version_check ?v" "vs_ItemID ?v \<in> set (map fst (db_Items db))" "vs_Revision ?v = db_Current db"
      "\<forall>u\<in>set (db_Versions db). vs_ItemID u = vs_ItemID ?v \<longrightarrow> vs_Revision u \<noteq> vs_Revision ?v"
      "db' = db\<lparr>db_Versions := db_Versions db @ [?v]\<rparr>"
    using assms(1) by (auto simp: insert_version_def exec_def content_open_def list_ex_iff split: if_splits)
  have ok: "content_ok db" using assms(2) by (simp add: integrity_def)
  then have "codingLedgerItemIDPattern (vs_ItemID ?v)" using v(2) by (auto simp: content_ok_def)
  then have "version_ok ?v" using version_of_ok v(1) by (simp add: version_of_def Let_def)
  moreover have "(vs_ItemID ?v, vs_Revision ?v) \<notin> set (map (\<lambda>u. (vs_ItemID u, vs_Revision u)) (db_Versions db))"
    using v(4) by auto
  ultimately have "content_ok db'"
    using ok v(2,3) find_version_snoc unfolding v(5) content_ok_def by (simp del: not_None_eq)
  then show ?thesis using assms(2) unfolding v(5) by (simp add: integrity_def)
qed

lemma integrity_origin: "insert_origin env i r detail db = Inr db' \<Longrightarrow> integrity db \<Longrightarrow> integrity db'"
  by (auto simp: insert_origin_def exec_def integrity_def split: if_splits)

lemma integrity_projection:
  assumes "insert_projection env p db = Inr db'" "integrity db"
  shows "integrity db'"
proof -
  have p: "\<forall>q\<in>set (db_Projections db). pj_Revision q = pj_Revision p \<longrightarrow> pj_ItemID q \<noteq> pj_ItemID p"
      "pj_ItemRevision p \<le> pj_Revision p" "pj_Revision p = db_Current db" "find_version db (pj_ItemID p) (pj_ItemRevision p) \<noteq> None"
      "db' = db\<lparr>db_Projections := db_Projections db @ [p]\<rparr>"
    using assms(1) by (auto simp: insert_projection_def exec_def content_open_def list_ex_iff split: if_splits)
  have "content_ok db" using assms(2) by (simp add: integrity_def)
  moreover have "(pj_Revision p, pj_ItemID p) \<notin> set (map (\<lambda>q. (pj_Revision q, pj_ItemID q)) (db_Projections db))"
    using p(1) by auto
  ultimately have "content_ok db'" using p(2-4) unfolding p(5) content_ok_def by (simp del: not_None_eq)
  then show ?thesis using assms(2) unfolding p(5) by (simp add: integrity_def)
qed

lemma integrity_route:
  assumes "insert_route env r q db = Inr db'" "integrity db"
  shows "integrity db'"
proof -
  have q: "\<forall>(n, p)\<in>set (db_Routes db). n = r \<longrightarrow> lr_Role p \<noteq> lr_Role q" "r = db_Current db"
      "db' = db\<lparr>db_Routes := db_Routes db @ [(r, q)]\<rparr>"
    using assms(1) by (auto simp: insert_route_def exec_def content_open_def list_ex_iff split: if_splits)
  have "(r, lr_Role q) \<notin> set (map (\<lambda>(r, q). (r, lr_Role q)) (db_Routes db))" using q(1) by auto
  then show ?thesis using assms(2) q(2) unfolding q(3) by (simp add: integrity_def routes_ok_def)
qed

lemma integrity_disposition: "insert_disposition env d db = Inr db' \<Longrightarrow> integrity db \<Longrightarrow> integrity db'"
  by (auto simp: insert_disposition_def exec_def integrity_def split: if_splits)

lemma integrity_turn_item: "insert_turn_item env r turnID i db = Inr db' \<Longrightarrow> integrity db \<Longrightarrow> integrity db'"
  by (auto simp: insert_turn_item_def exec_def integrity_def split: if_splits)

lemma integrity_row: "update_ledger env s f db = Inr db' \<Longrightarrow> integrity db \<Longrightarrow> integrity db'"
  by (auto simp: update_ledger_def exec_def Let_def integrity_def split: if_splits)

lemma queue_ok_update:
  assumes "\<And>t. at_Revision (g t) = at_Revision t \<and> at_ItemID (g t) = at_ItemID t" "integrity db"
  shows "integrity (db\<lparr>db_Tasks := map g (db_Tasks db)\<rparr>)"
  using assms by (simp add: integrity_def queue_ok_def comp_def)

lemma integrity_queue:
  assumes "insert_task env r i state db = Inr db'" "integrity db"
  shows "integrity db'"
proof -
  have "db_State db = LedgerFrozen" "db_Frozen db = Some r" "queue_row db r i = None"
    using assms(1) by (auto simp: insert_task_def split: if_splits)
  then have "r = db_Current db" "(r, i) \<notin> set (map (\<lambda>t. (at_Revision t, at_ItemID t)) (db_Tasks db))"
    using assms(2) by (auto simp: integrity_def state_shape_def queue_row_def)
  moreover have "db' = db\<lparr>db_Tasks := db_Tasks db @ [\<lparr>at_Revision = r, at_ItemID = i, at_State = state,
      at_FairnessKey = int (length (db_Tasks db)) + 1, at_Version = 1\<rparr>]\<rparr>"
    using assms(1) by (auto simp: insert_task_def exec_def split: if_splits)
  ultimately show ?thesis using assms(2) by (simp add: integrity_def queue_ok_def)
qed

interpretation kept: store_rule "\<lambda>db db'. integrity db \<longrightarrow> integrity db'" "\<lambda>_. True"
proof
  show "cancel_tasks env chosen db = Inr db' \<Longrightarrow> integrity db \<longrightarrow> integrity db'" for env chosen db db'
    using queue_ok_update [of "\<lambda>t. if chosen t then t\<lparr>at_State := TaskCancelled, at_Version := at_Version t + 1\<rparr> else t" db]
    by (auto simp: cancel_tasks_def exec_def split: if_splits)
  show "accept_task env generation journal u db = Inr db' \<Longrightarrow> integrity db \<longrightarrow> integrity db'" for env generation journal u db db'
    using queue_ok_update [of "\<lambda>v. if at_Revision v = at_Revision u \<and> at_ItemID v = at_ItemID u \<and> at_State v = TaskReady
        then v\<lparr>at_State := TaskAccepted, at_Version := at_Version v + 1\<rparr> else v" db]
    by (auto simp: accept_task_def exec_def split: if_splits)
qed (blast, blast, (rule impI, (erule integrity_turn | erule integrity_revision | erule integrity_item | erule integrity_version |
  erule integrity_origin | erule integrity_projection | erule integrity_route | erule integrity_disposition |
  erule integrity_turn_item | erule integrity_row | erule integrity_queue), assumption)+)

lemma new_ledger_integrity: "integrity (new_ledger l j)"
  by (simp add: integrity_def revisions_ok_def content_ok_def routes_ok_def queue_ok_def new_ledger_def state_shape_def)

lemma reachable_integrity:
  assumes "ledger_reachable env db"
  shows "integrity db"
  using assms
proof (induction rule: ledger_reachable.induct)
  case (created ledgerID command r db)
  then show ?case using kept.created_rel new_ledger_integrity by blast
next
  case (stepped db db')
  then show ?case using kept.step_rel by blast
qed

end
