(* ===== verification/Store_Laws.thy ===== *)
theory Store_Laws
  imports Store_Integrity
begin

text \<open>
  What the stored revisions promise: a history that never changes, and revisions that read back as they were stored.
\<close>

section \<open>History\<close>

lemma version_found:
  assumes "integrity db" "p \<in> set (db_Projections db)"
  shows "\<exists>v\<in>set (db_Versions db). find_version db (pj_ItemID p) (pj_ItemRevision p) = Some v \<and> vs_ItemID v = pj_ItemID p \<and>
    pj_ItemID p \<in> set (map fst (db_Items db)) \<and> pj_ItemRevision p \<le> pj_Revision p \<and> pj_Revision p \<le> db_Current db"
proof -
  have ok: "content_ok db" using assms(1) by (simp add: integrity_def)
  then obtain v where v: "find_version db (pj_ItemID p) (pj_ItemRevision p) = Some v"
    using assms(2) by (auto simp: content_ok_def)
  then have "v \<in> set (db_Versions db)" "vs_ItemID v = pj_ItemID p" by (auto simp: find_version_def dest: first_with_Some)
  moreover from this have "pj_ItemID p \<in> set (map fst (db_Items db))" using ok unfolding content_ok_def by metis
  moreover have "pj_ItemRevision p \<le> pj_Revision p \<and> pj_Revision p \<le> db_Current db"
    using ok assms(2) unfolding content_ok_def by blast
  ultimately show ?thesis using v by blast
qed

lemma projected_same:
  assumes "integrity db" "extends (db_Current db) db db'" "r \<le> db_Current db"
  shows "projected db' r = projected db r"
proof -
  let ?known = "\<lambda>d p. pj_Revision p = r \<and> pj_ItemID p \<in> set (map fst (db_Items d))"
  have "filter (?known db') (db_Projections db') = filter (?known db') (db_Projections db)"
    using assms(2,3) by (intro grown_filter [of pj_Revision "db_Current db"]) (auto simp: extends_def)
  also have "\<dots> = filter (?known db) (db_Projections db)"
    using version_found [OF assms(1)] assms(2) by (intro filter_cong) (auto simp: extends_def)
  finally have rows: "filter (?known db') (db_Projections db') = filter (?known db) (db_Projections db)" .
  have "find_version db' (pj_ItemID p) (pj_ItemRevision p) = find_version db (pj_ItemID p) (pj_ItemRevision p)"
    if "p \<in> set (filter (?known db) (db_Projections db))" for p
    unfolding find_version_def
    using assms(2,3) version_found [OF assms(1), of p] that
    by (intro grown_first [of vs_Revision "db_Current db"]) (auto simp: extends_def)
  then show ?thesis unfolding projected_def rows
    by (intro arg_cong [of _ _ concat] map_cong [OF refl]) simp
qed

lemma read_same:
  assumes "integrity db" "extends (db_Current db) db db'" "r \<le> db_Current db"
  shows "readCodingLedgerRevisionTx env l r options db' = readCodingLedgerRevisionTx env l r options db"
proof -
  have "revision_at db' r = revision_at db r" unfolding revision_at_def
    using assms(2,3) by (intro grown_first [of rw_Revision "db_Current db"]) (auto simp: extends_def)
  moreover have "read_statements i r db' = read_statements i r db" for i unfolding read_statements_def
    using assms(2,3) by (intro arg_cong [of _ _ "map_option dp_Statements"] grown_first [of dp_Revision "db_Current db"])
      (auto simp: extends_def)
  moreover have "read_routes env r db' = read_routes env r db"
  proof -
    have "filter (\<lambda>(n, _). n = r) (db_Routes db') = filter (\<lambda>(n, _). n = r) (db_Routes db)"
      using assms(2,3) by (intro grown_filter [of fst "db_Current db"]) (auto simp: extends_def)
    then show ?thesis by (simp add: read_routes_def)
  qed
  moreover have "read_tasks env r options db' = read_tasks env r options db"
    by (simp add: read_tasks_def projected_same [OF assms])
  moreover have "db_LedgerID db' = db_LedgerID db" "db_JobID db' = db_JobID db" using assms(2) by (simp_all add: extends_def)
  ultimately show ?thesis by (simp add: readCodingLedgerRevisionTx_def split: option.split)
qed

lemma run_read_same:
  assumes "(ledger_step env)\<^sup>*\<^sup>* db db'" "ledger_reachable env db" "r \<le> db_Current db"
  shows "readCodingLedgerRevisionTx env l r options db' = readCodingLedgerRevisionTx env l r options db \<and>
    ledger_reachable env db' \<and> r \<le> db_Current db'"
  using assms(1)
proof (induction rule: rtranclp_induct)
  case (step mid db')
  have "extends (db_Current mid) mid db'" using extends_current step.hyps(2) by blast
  then show ?case
    using read_same [OF reachable_integrity, of env mid db'] step ledger_reachable.stepped
    by (auto simp: extends_def)
qed (use assms in simp)

section \<open>Reading back\<close>

lemma find_version_in: "integrity db \<Longrightarrow> v \<in> set (db_Versions db) \<Longrightarrow> find_version db (vs_ItemID v) (vs_Revision v) = Some v"
  using first_with_key_distinct [of "\<lambda>v. (vs_ItemID v, vs_Revision v)" "db_Versions db" v]
  by (simp add: find_version_def integrity_def content_ok_def)

lemma projected_in: "v \<in> set (projected db r) \<Longrightarrow> v \<in> set (db_Versions db)"
  by (auto simp: projected_def find_version_def split: option.splits dest: first_with_Some [OF sym])

lemma projected_cong [simp]:
  "projected (db\<lparr>db_Turns := ts\<rparr>) = projected db" "projected (db\<lparr>db_Origins := os\<rparr>) = projected db"
  "projected (db\<lparr>db_Routes := rs\<rparr>) = projected db" "projected (db\<lparr>db_Dispositions := ds\<rparr>) = projected db"
  "projected (db\<lparr>db_TurnItems := us\<rparr>) = projected db" "projected (db\<lparr>db_Tasks := ks\<rparr>) = projected db"
  "projected (db\<lparr>db_Revisions := vs, db_Current := c\<rparr>) = projected db"
  "projected (db\<lparr>db_State := s, db_Frozen := f\<rparr>) = projected db" "projected (db\<lparr>db_State := s\<rparr>) = projected db"
  by (simp_all add: projected_def fun_eq_iff)

lemma projected_item:
  assumes "integrity db"
  shows "projected (db\<lparr>db_Items := db_Items db @ [x]\<rparr>) r = projected db r"
proof -
  have "filter (\<lambda>p. pj_Revision p = r \<and> pj_ItemID p \<in> set (map fst (db_Items db @ [x]))) (db_Projections db) =
      filter (\<lambda>p. pj_Revision p = r \<and> pj_ItemID p \<in> set (map fst (db_Items db))) (db_Projections db)"
    using version_found [OF assms] by (intro filter_cong) auto
  then show ?thesis by (simp add: projected_def)
qed

lemma projected_version:
  assumes "integrity db"
  shows "projected (db\<lparr>db_Versions := db_Versions db @ [v]\<rparr>) r = projected db r"
proof -
  let ?new = "db\<lparr>db_Versions := db_Versions db @ [v]\<rparr>"
  have "find_version ?new (pj_ItemID p) (pj_ItemRevision p) = find_version db (pj_ItemID p) (pj_ItemRevision p)"
    if p: "p \<in> set (db_Projections db)" for p
  proof -
    from version_found [OF assms p] obtain u where "find_version db (pj_ItemID p) (pj_ItemRevision p) = Some u" by blast
    then show ?thesis by (simp add: find_version_def first_with_append)
  qed
  then show ?thesis unfolding projected_def by (intro arg_cong [of _ _ concat] map_cong) auto
qed

lemma projected_snoc:
  assumes "integrity db" "insert_projection env \<lparr>pj_Revision = r, pj_ItemID = vs_ItemID v, pj_ItemRevision = vs_Revision v\<rparr> db = Inr db'"
    "v \<in> set (db_Versions db)"
  shows "projected db' r = projected db r @ [v]"
proof -
  have "vs_ItemID v \<in> set (map fst (db_Items db))" using assms(1,3) unfolding integrity_def content_ok_def by metis
  moreover have "db' = db\<lparr>db_Projections := db_Projections db @ [\<lparr>pj_Revision = r, pj_ItemID = vs_ItemID v, pj_ItemRevision = vs_Revision v\<rparr>]\<rparr>"
    using assms(2) by (auto simp: insert_projection_def exec_def split: if_splits)
  ultimately show ?thesis using find_version_in [OF assms(1,3)] by (simp add: projected_def)
qed

lemma new_version_stores:
  assumes "integrity db" "insert_version env (version_of r turn t) db = Inr d1" "insert_origin env (task_ID t) r detail d1 = Inr d2"
    "insert_projection env \<lparr>pj_Revision = r, pj_ItemID = task_ID t, pj_ItemRevision = r\<rparr> d2 = Inr db'"
  shows "projected db' r = projected db r @ [version_of r turn t] \<and> set (db_Versions db) \<subseteq> set (db_Versions db')"
proof -
  let ?v = "version_of r turn t"
  have d1: "d1 = db\<lparr>db_Versions := db_Versions db @ [?v]\<rparr>"
    using assms(2) by (auto simp: insert_version_def exec_def split: if_splits)
  have i2: "integrity d2" using integrity_version [OF assms(2,1)] integrity_origin [OF assms(3)] by blast
  have d2: "projected d2 r = projected db r" "db_Versions d2 = db_Versions db @ [?v]"
    using assms(3) projected_version [OF assms(1)] unfolding d1 by (auto simp: insert_origin_def exec_def split: if_splits)
  have "vs_ItemID ?v = task_ID t" "vs_Revision ?v = r" by (simp_all add: version_of_def Let_def)
  then show ?thesis
    using projected_snoc [OF i2, of env r ?v db'] assms(4) d2
    by (auto simp: insert_projection_def exec_def split: if_splits)
qed

lemma persist_task_stores:
  assumes "persist_task env r turn previous t db = Inr db'" "integrity db" "set previous \<subseteq> set (db_Versions db)"
  shows "\<exists>v. projected db' r = projected db r @ [v] \<and> vs_Payload v = json_copy_task t \<and> set previous \<subseteq> set (db_Versions db')"
proof -
  let ?new = "version_of r turn t"
  have payload: "vs_Payload ?new = json_copy_task t" by (simp add: version_of_def Let_def)
  show ?thesis
  proof (cases "first_with (\<lambda>v. vs_ItemID v = task_ID t) (rev previous)")
    case None
    then obtain d1 d2 d3 detail where steps: "insert_item env (task_ID t) r db = Inr d1" "insert_version env ?new d1 = Inr d2"
      "insert_origin env (task_ID t) r detail d2 = Inr d3"
      "insert_projection env \<lparr>pj_Revision = r, pj_ItemID = task_ID t, pj_ItemRevision = r\<rparr> d3 = Inr db'"
      using assms(1) by (auto simp: persist_task_def Let_def simp del: first_with_None)
    have "projected d1 r = projected db r" "db_Versions d1 = db_Versions db"
      using steps(1) projected_item [OF assms(2)] by (auto simp: insert_item_def exec_def split: if_splits)
    then show ?thesis
      using new_version_stores [OF integrity_item [OF steps(1) assms(2)] steps(2-4)] assms(3) payload by auto
  next
    case (Some v)
    have v: "v \<in> set previous" "vs_ItemID v = task_ID t" using first_with_Some [OF Some] by auto
    show ?thesis
    proof (cases "unchanged_version v t")
      case True
      then have ins: "insert_projection env \<lparr>pj_Revision = r, pj_ItemID = vs_ItemID v, pj_ItemRevision = vs_Revision v\<rparr> db = Inr db'"
        using assms(1) Some v by (simp add: persist_task_def)
      then have "db_Versions db' = db_Versions db" by (auto simp: insert_projection_def exec_def split: if_splits)
      then show ?thesis
        using projected_snoc [OF assms(2) ins] True v(1) assms(3) by (auto simp: unchanged_version_def)
    next
      case False
      then obtain d2 d3 detail where steps: "insert_version env ?new db = Inr d2" "insert_origin env (task_ID t) r detail d2 = Inr d3"
        "insert_projection env \<lparr>pj_Revision = r, pj_ItemID = task_ID t, pj_ItemRevision = r\<rparr> d3 = Inr db'"
        using assms(1) Some by (auto simp: persist_task_def Let_def)
      then show ?thesis using new_version_stores [OF assms(2) steps] assms(3) payload by auto
    qed
  qed
qed

lemma persist_tasks_store:
  assumes "each (persist_task env r turn previous) tasks db = Inr db'" "integrity db" "set previous \<subseteq> set (db_Versions db)"
  shows "integrity db' \<and> (\<exists>vs. projected db' r = projected db r @ vs \<and> map vs_Payload vs = map json_copy_task tasks)"
  using assms
proof (induction tasks arbitrary: db)
  case (Cons t tasks)
  then obtain mid where mid: "persist_task env r turn previous t db = Inr mid" "each (persist_task env r turn previous) tasks mid = Inr db'"
    by auto
  have "integrity mid" using kept.persist_task_rel [OF mid(1)] Cons.prems(2) by simp
  then show ?case
    using persist_task_stores [OF mid(1) Cons.prems(2,3)] Cons.IH [OF mid(2)] by fastforce
qed simp

lemma each_keeps:
  assumes "\<And>x s s'. x \<in> set xs \<Longrightarrow> f x s = Inr s' \<Longrightarrow> g s' = g s" "each f xs s = Inr s'"
  shows "g s' = g s"
  using assms
proof (induction xs arbitrary: s)
  case (Cons x xs)
  then obtain mid where "f x s = Inr mid" "each f xs mid = Inr s'" by auto
  then show ?case using Cons by (metis list.set_intros)
qed simp

definition frame :: "ledger_db \<Rightarrow> (int \<times> int \<times> int \<times> int option \<times> ledger_state \<times> revision_row list) \<times> turn_row list \<times> task_row list" where
  \<comment> \<open>what writing the tasks and routes of a revision leaves alone\<close>
  "frame db = ((db_LedgerID db, db_JobID db, db_Current db, db_Frozen db, db_State db, db_Revisions db), db_Turns db, db_Tasks db)"

lemma persist_task_frame: "persist_task env r turn previous t db = Inr db' \<Longrightarrow> (frame db', db_Routes db') = (frame db, db_Routes db)"
  by (auto simp: persist_task_def frame_def Let_def insert_item_def insert_version_def insert_origin_def insert_projection_def
    exec_def split: if_splits)

lemma insert_routes: "each (insert_route env r) routes db = Inr db' \<Longrightarrow> db' = db\<lparr>db_Routes := db_Routes db @ map (Pair r) routes\<rparr>"
proof (induction routes arbitrary: db)
  case (Cons q routes)
  then obtain mid where mid: "insert_route env r q db = Inr mid" "each (insert_route env r) routes mid = Inr db'" by auto
  then have "mid = db\<lparr>db_Routes := db_Routes db @ [(r, q)]\<rparr>" by (auto simp: insert_route_def exec_def split: if_splits)
  then show ?case using Cons.IH [OF mid(2)] by simp
qed simp

definition routes_at :: "ledger_db \<Rightarrow> int \<Rightarrow> CodingLedgerRoute list" where
  "routes_at db r = map snd (filter (\<lambda>(n, _). n = r) (db_Routes db))"

lemma persist_stores:
  assumes "persistCodingLedgerSnapshotTx env r base turn ledger routes db = Inr db'" "integrity db"
  shows "integrity db' \<and> frame db' = frame db \<and> routes_at db' r = routes_at db r @ routes \<and>
    (\<exists>vs. projected db' r = projected db r @ vs \<and> map vs_Payload vs = map json_copy_task (led_Tasks ledger))"
proof -
  let ?previous = "if base > 0 then projected db base else []"
  obtain mid where mid: "each (persist_task env r turn ?previous) (led_Tasks ledger) db = Inr mid" "each (insert_route env r) routes mid = Inr db'"
    using assms(1) by (auto simp: persistCodingLedgerSnapshotTx_def Let_def)
  have db': "db' = mid\<lparr>db_Routes := db_Routes mid @ map (Pair r) routes\<rparr>" using insert_routes [OF mid(2)] .
  have "(frame mid, db_Routes mid) = (frame db, db_Routes db)"
    by (rule each_keeps [OF _ mid(1)]) (use persist_task_frame in blast)
  then have "frame db' = frame db" "routes_at db' r = routes_at db r @ routes"
    unfolding db' by (auto simp: frame_def routes_at_def filter_map comp_def)
  moreover have "set ?previous \<subseteq> set (db_Versions db)" using projected_in by auto
  then have "integrity mid \<and> (\<exists>vs. projected mid r = projected db r @ vs \<and> map vs_Payload vs = map json_copy_task (led_Tasks ledger))"
    by (rule persist_tasks_store [OF mid(1) assms(2)])
  moreover have "integrity db'" using kept.persist_rel [OF assms(1)] assms(2) by simp
  ultimately show ?thesis unfolding db' by simp
qed

definition task_key :: "database \<Rightarrow> LedgerTask \<Rightarrow> int \<times> string" where
  "task_key env t = (task_Rank t, dbe_Collate env (task_ID t))"

lemma map_insort_key: "(\<And>y. y \<in> insert x (set ys) \<Longrightarrow> f y = k (g y)) \<Longrightarrow> map g (insort_key f x ys) = insort_key k (g x) (map g ys)"
  by (induction ys) auto

lemma map_sort_key: "(\<And>x. x \<in> set xs \<Longrightarrow> f x = k (g x)) \<Longrightarrow> map g (sort_key f xs) = sort_key k (map g xs)"
proof (induction xs)
  case (Cons a xs)
  then show ?case using map_insort_key [of a "sort_key f xs" f k g] by simp
qed simp

lemma read_all_tasks:
  assumes "integrity db"
  shows "read_tasks env r read_all db = sort_key (task_key env) (map vs_Payload (projected db r))"
proof -
  have "version_key env v = task_key env (vs_Payload v)" if "v \<in> set (projected db r)" for v
    using projected_in [OF that] assms by (auto simp: integrity_def content_ok_def version_ok_def version_key_def task_key_def)
  then have "map vs_Payload (sort_key (version_key env) (projected db r)) = sort_key (task_key env) (map vs_Payload (projected db r))"
    by (rule map_sort_key)
  moreover have "filter (selected env read_all) (projected db r) = projected db r"
    by (simp add: filter_id_conv selected_def read_all_def)
  moreover have "page (ro_Limit read_all) (ro_Offset read_all) vs = vs" for vs :: "version_row list" by (simp add: page_def read_all_def)
  ultimately show ?thesis by (simp add: read_tasks_def)
qed

lemma read_all_routes: "read_routes env r db = sort_key (\<lambda>q. dbe_Collate env (lr_Role q)) (routes_at db r)"
  by (simp add: read_routes_def routes_at_def)

lemma unwritten:
  assumes "integrity db" "db_Current db < r"
  shows "projected db r = []" "routes_at db r = []"
proof -
  have "\<forall>p\<in>set (db_Projections db). pj_Revision p \<noteq> r" "\<forall>q\<in>set (db_Routes db). fst q \<noteq> r"
    using assms by (auto simp: integrity_def content_ok_def routes_ok_def)
  then show "projected db r = []" "routes_at db r = []" by (auto simp: projected_def routes_at_def filter_empty_conv)
qed

section \<open>A stored revision\<close>

lemma written_stores:
  assumes "integrity db" "insertCodingLedgerOwnerTurnTx env i base a x db = Inr d1" "insert_revision env row d1 = Inr d2"
    "persistCodingLedgerSnapshotTx env (rw_Revision row) b j ledger routes d2 = Inr d3"
  shows "rw_Revision row = db_Current db + 1 \<and> integrity d3 \<and>
    frame d3 = ((db_LedgerID db, db_JobID db, db_Current db + 1, db_Frozen db, db_State db, db_Revisions db @ [row]),
      db_Turns db @ [\<lparr>tn_OwnerTurnID = i, tn_BaseRevision = base, tn_Action = a, tn_Text = x\<rparr>], db_Tasks db) \<and>
    map vs_Payload (projected d3 (rw_Revision row)) = map json_copy_task (led_Tasks ledger) \<and> routes_at d3 (rw_Revision row) = routes"
proof -
  have d1: "d1 = db\<lparr>db_Turns := db_Turns db @ [\<lparr>tn_OwnerTurnID = i, tn_BaseRevision = base, tn_Action = a, tn_Text = x\<rparr>]\<rparr>"
    using assms(2) by (auto simp: insertCodingLedgerOwnerTurnTx_def insert_turn_def exec_def split: if_splits)
  have d2: "d2 = d1\<lparr>db_Revisions := db_Revisions d1 @ [row], db_Current := rw_Revision row\<rparr>" "rw_Revision row = db_Current d1 + 1"
    using assms(3) by (auto simp: insert_revision_def revision_insertable_def exec_def split: if_splits)
  have i1: "integrity d1" using kept.owner_turn_rel [OF assms(2)] assms(1) by simp
  have "projected d2 (rw_Revision row) = []" "routes_at d2 (rw_Revision row) = []"
    using unwritten [OF i1, of "rw_Revision row"] d2 by (simp_all add: routes_at_def)
  moreover have "integrity d2" using integrity_revision [OF assms(3) i1] .
  ultimately show ?thesis
    using persist_stores [OF assms(4)] d2(2) unfolding d2(1) d1 by (auto simp: frame_def)
qed

lemma disposition_keeps:
  assumes "insertCodingLedgerDispositionTx env r i d db = Inr db'"
  shows "frame db' = frame db \<and> projected db' = projected db \<and> db_Routes db' = db_Routes db"
proof -
  let ?f = "\<lambda>db. (frame db, projected db, db_Routes db)"
  obtain mid where mid: "insert_disposition env \<lparr>dp_OwnerTurnID = i, dp_Revision = r,
      dp_Statements = map json_copy_statement (StatementDispositions d)\<rparr> db = Inr mid"
    "each (insert_turn_item env r i) (remdups (concat (map stmt_ItemIDs (StatementDispositions d)))) mid = Inr db'"
    using assms(1) by (auto simp: insertCodingLedgerDispositionTx_def)
  have "?f db' = ?f mid"
    by (rule each_keeps [OF _ mid(2)]) (auto simp: insert_turn_item_def exec_def frame_def split: if_splits)
  moreover have "?f mid = ?f db" using mid(1) by (auto simp: insert_disposition_def exec_def frame_def split: if_splits)
  ultimately show ?thesis by simp
qed

lemma read_result:
  assumes "readCodingLedgerRevisionTx env l r options db = Inr x"
  shows "l = db_LedgerID db \<and> led_Tasks (cr_Ledger x) = read_tasks env r options db \<and> cr_Routes x = read_routes env r db \<and>
    led_Revision (cr_Ledger x) = r \<and> led_ID (cr_Ledger x) = codingLedgerExternalID l \<and> \<not> cr_Applied x \<and>
    (\<exists>row. revision_at db r = Some row \<and> cr_Revision x = rw_Revision row \<and> cr_BaseRevision x = rw_BaseRevision row \<and>
      cr_State x = shown_state (rw_State row) \<and> cr_OperationID x = rw_OperationID row \<and> cr_OwnerTurnID x = rw_OwnerTurnID row)"
  using assms by (auto simp: readCodingLedgerRevisionTx_def Let_def split: if_splits option.splits)

lemma reread_result:
  assumes "reread env l r db = Inr (x, db')" "integrity db"
  shows "db' = db \<and> cr_Applied x \<and> (\<exists>y. readCodingLedgerRevisionTx env l r read_all db = Inr y \<and> x = y\<lparr>cr_Applied := True\<rparr>) \<and>
    led_Tasks (cr_Ledger x) = sort_key (task_key env) (map vs_Payload (projected db r)) \<and>
    cr_Routes x = sort_key (\<lambda>q. dbe_Collate env (lr_Role q)) (routes_at db r)"
  using assms read_result [of env l r read_all db] read_all_tasks [OF assms(2)] by (auto simp: reread_def read_all_routes)

lemma mutation_applied:
  assumes "applyCodingLedgerMutation env command action db = Inr (r, db')" "cr_Applied r"
  shows "find_operation (mut_OperationID (ac_Mutation command)) db = None \<and>
    applyCodingLedgerMutationTx env command action db = Inr (r, db')"
proof -
  have tx: "applyCodingLedgerMutationTx env command action db = Inr (r, db')"
    using assms(1) by (auto simp: applyCodingLedgerMutation_def Let_def split: if_splits)
  have "find_operation (mut_OperationID (ac_Mutation command)) db = None"
  proof (rule ccontr)
    assume "\<not> ?thesis"
    then obtain row turn where "find_operation (mut_OperationID (ac_Mutation command)) db = Some (row, turn)" by auto
    then show False
      using tx assms(2) by (auto simp: applyCodingLedgerMutationTx_def replayCodingLedgerMutationTx_def Let_def split: if_splits)
  qed
  then show ?thesis using tx by blast
qed

lemma mutation_stored:
  assumes "applyCodingLedgerMutation env command action db = Inr (r, db')" "cr_Applied r" "integrity db"
  shows "\<exists>new routes y. next_ledger env command db = Inr (new, routes) \<and> led_Revision new = db_Current db + 1 \<and>
    integrity db' \<and> db_Current db' = db_Current db + 1 \<and> db_State db' = LedgerProposed \<and> db_Tasks db' = db_Tasks db \<and>
    db_LedgerID db' = ac_LedgerID command \<and>
    readCodingLedgerRevisionTx env (ac_LedgerID command) (db_Current db') read_all db' = Inr y \<and> r = y\<lparr>cr_Applied := True\<rparr> \<and>
    led_Tasks (cr_Ledger r) = sort_key (task_key env) (map json_copy_task (led_Tasks new)) \<and>
    cr_Routes r = sort_key (\<lambda>q. dbe_Collate env (lr_Role q)) routes"
proof -
  let ?m = "ac_Mutation command"
  obtain new routes d1 d2 d3 d4 d5 where steps: "ac_LedgerID command = db_LedgerID db" "next_ledger env command db = Inr (new, routes)"
    "insertCodingLedgerOwnerTurnTx env (mut_OwnerTurnID ?m) (db_Current db) action (ac_OwnerTurnText command) db = Inr d1"
    "insert_revision env \<lparr>rw_Revision = led_Revision new, rw_BaseRevision = db_Current db, rw_OperationID = mut_OperationID ?m,
      rw_OwnerTurnID = mut_OwnerTurnID ?m, rw_State = RevisionProposed, rw_Mutation = Some (json_copy_mutation ?m)\<rparr> d1 = Inr d2"
    "persistCodingLedgerSnapshotTx env (led_Revision new) (db_Current db) (mut_OwnerTurnID ?m) new routes d2 = Inr d3"
    "insertCodingLedgerDispositionTx env (led_Revision new) (mut_OwnerTurnID ?m) (mut_OwnerTurnDisposition ?m) d3 = Inr d4"
    "\<exists>c. update_where c (update_ledger env LedgerProposed (db_Frozen d4) d4) = Inr d5"
    "reread env (ac_LedgerID command) (led_Revision new) d5 = Inr (r, db')"
    using mutation_applied [OF assms(1,2)] by (fastforce simp: applyCodingLedgerMutationTx_def Let_def split: if_splits prod.splits)
  note w = written_stores [OF assms(3) steps(3,4), simplified, OF steps(5)]
  note d4 = disposition_keeps [OF steps(6)]
  have d5: "d5 = d4\<lparr>db_State := LedgerProposed, db_Frozen := db_Frozen d4\<rparr>"
    using steps(7) by (auto simp: update_where_def update_ledger_def exec_def Let_def split: if_splits)
  have "integrity d5" using w kept.disposition_rel [OF steps(6)] steps(7) kept.update_where_rel by blast
  note read = reread_result [OF steps(8) this]
  have "integrity db'" using read \<open>integrity d5\<close> by simp
  moreover have "db_Current db' = db_Current db + 1" "db_State db' = LedgerProposed" "db_Tasks db' = db_Tasks db" "db_LedgerID db' = db_LedgerID db"
    using read w d4 unfolding d5 by (auto simp: frame_def)
  moreover have "projected d5 n = projected d3 n" "routes_at d5 n = routes_at d3 n" for n
    using d4 unfolding d5 by (simp_all add: routes_at_def)
  ultimately show ?thesis using steps(1,2) w read by auto
qed

end
