(* ===== verification/Store_Freeze.thy ===== *)
theory Store_Freeze
  imports Store_Laws
begin

text \<open>
  The freeze of a ledger: the frozen revision repeats the proposal the owner was shown, and the queue holds one
  row for each of its active tasks, accepted only if the same contract was accepted under the last freeze.
\<close>

lemma max_revision_le: "(\<And>r. r \<in> set rs \<Longrightarrow> r \<le> b) \<Longrightarrow> 0 \<le> b \<Longrightarrow> max_revision rs \<le> b"
  by (induction rs) auto

lemma last_frozen_le: "0 \<le> b \<Longrightarrow> last_frozen db b \<le> b"
  unfolding last_frozen_def by (rule max_revision_le) auto

lemma last_frozen_snoc: "db_Revisions db' = db_Revisions db @ [row] \<Longrightarrow> b < rw_Revision row \<Longrightarrow> last_frozen db' b = last_frozen db b"
  by (simp add: last_frozen_def)

lemma version_in_cong: "projected db' = projected db \<Longrightarrow> version_in db' = version_in db"
  by (simp add: version_in_def fun_eq_iff)

lemma contract_cong:
  "projected db' = projected db \<Longrightarrow> coding_agent_task_contract_matches p r i db' = coding_agent_task_contract_matches p r i db"
  using version_in_cong [of db' db] by (simp add: coding_agent_task_contract_matches_def)

definition accepted_row :: "ledger_db \<Rightarrow> int \<Rightarrow> LedgerItemID \<Rightarrow> bool" where
  "accepted_row db r i \<longleftrightarrow> (\<exists>t\<in>set (db_Tasks db). at_Revision t = r \<and> at_ItemID t = i \<and> at_State t = TaskAccepted)"

lemma accepted_before_iff: "accepted_before db p r i \<longleftrightarrow> accepted_row db p i \<and> coding_agent_task_contract_matches p r i db"
  by (simp add: accepted_before_def accepted_row_def list_ex_iff)

definition queued_as :: "ledger_db \<Rightarrow> int \<Rightarrow> int \<Rightarrow> LedgerTask list \<Rightarrow> task_row list \<Rightarrow> bool" where
  \<comment> \<open>the rows queued for the active ones of \<open>tasks\<close>, of which only those accepted before are accepted\<close>
  "queued_as db prior r tasks rows \<longleftrightarrow> map at_ItemID rows = map task_ID (filter task_active tasks) \<and>
     (\<forall>t\<in>set rows. at_Revision t = r \<and> at_State t \<noteq> TaskCancelled \<and>
       (at_State t = TaskAccepted \<longrightarrow> accepted_row db prior (at_ItemID t) \<and> coding_agent_task_contract_matches prior r (at_ItemID t) db))"

lemma queue_task:
  assumes "insert_task env r i (if prior > 0 \<and> accepted_before db prior r i then TaskAccepted else TaskReady) db = Inr db'"
  shows "\<exists>t. db' = db\<lparr>db_Tasks := db_Tasks db @ [t]\<rparr> \<and> at_ItemID t = i \<and> at_Revision t = r \<and> at_State t \<noteq> TaskCancelled \<and>
    (at_State t = TaskAccepted \<longrightarrow> accepted_before db prior r i)"
proof -
  let ?state = "if prior > 0 \<and> accepted_before db prior r i then TaskAccepted else TaskReady"
  have "insert_task env r i s db = Inr db' \<Longrightarrow> db' = db\<lparr>db_Tasks := db_Tasks db @ [\<lparr>at_Revision = r, at_ItemID = i, at_State = s,
      at_FairnessKey = int (length (db_Tasks db)) + 1, at_Version = 1\<rparr>]\<rparr>" for s
    by (simp add: insert_task_def exec_def split: if_splits)
  from this [OF assms] show ?thesis by (intro exI conjI) (assumption, simp_all)
qed

lemma queue_tasks:
  assumes "each (\<lambda>t db. if \<not> task_active t then Inr db
      else insert_task env r (task_ID t) (if prior > 0 \<and> accepted_before db prior r (task_ID t) then TaskAccepted else TaskReady) db)
      tasks db = Inr db'" "prior \<noteq> r"
  shows "\<exists>rows. db' = db\<lparr>db_Tasks := db_Tasks db @ rows\<rparr> \<and> queued_as db prior r tasks rows"
  using assms(1)
proof (induction tasks arbitrary: db)
  case (Cons t tasks)
  show ?case
  proof (cases "task_active t")
    case True
    then obtain row mid where row: "mid = db\<lparr>db_Tasks := db_Tasks db @ [row]\<rparr>" "at_ItemID row = task_ID t" "at_Revision row = r"
        "at_State row \<noteq> TaskCancelled" "at_State row = TaskAccepted \<longrightarrow> accepted_before db prior r (task_ID t)"
      and rest: "each (\<lambda>t db. if \<not> task_active t then Inr db
        else insert_task env r (task_ID t) (if prior > 0 \<and> accepted_before db prior r (task_ID t) then TaskAccepted else TaskReady) db)
        tasks mid = Inr db'"
      using Cons.prems queue_task [of env r "task_ID t" prior db] by fastforce
    obtain rows where rows: "db' = mid\<lparr>db_Tasks := db_Tasks mid @ rows\<rparr>" "queued_as mid prior r tasks rows"
      using Cons.IH [OF rest] by blast
    have "accepted_row mid prior j = accepted_row db prior j" for j
      using assms(2) row(1,3) by (auto simp: accepted_row_def)
    moreover have "coding_agent_task_contract_matches prior r j mid = coding_agent_task_contract_matches prior r j db" for j
      by (rule contract_cong) (simp add: row(1))
    ultimately have "queued_as db prior r (t # tasks) (row # rows)"
      using rows(2) row(2-5) True by (auto simp: queued_as_def accepted_before_iff)
    then show ?thesis using rows(1) row(1) by auto
  next
    case False
    then show ?thesis using Cons by (simp add: queued_as_def)
  qed
qed (simp add: queued_as_def)

lemma cancel_removed:
  assumes "cancelRemovedCodingAgentTasksTx env r db = Inr db'"
  shows "\<exists>g. db' = db\<lparr>db_Tasks := map g (db_Tasks db)\<rparr> \<and>
    (\<forall>t. at_Revision (g t) = at_Revision t \<and> at_ItemID (g t) = at_ItemID t \<and> (at_State (g t) = TaskAccepted \<longleftrightarrow> at_State t = TaskAccepted))"
proof (cases "last_frozen db (r - 1) = 0")
  case True
  then have "db' = db\<lparr>db_Tasks := map id (db_Tasks db)\<rparr>" using assms by (simp add: cancelRemovedCodingAgentTasksTx_def)
  then show ?thesis by (metis id_apply)
next
  case False
  let ?chosen = "\<lambda>t. at_Revision t = last_frozen db (r - 1) \<and> at_State t = TaskReady \<and>
    (case version_in db r (at_ItemID t) of Some v \<Rightarrow> vs_Removed v | None \<Rightarrow> False)"
  let ?g = "\<lambda>t. if ?chosen t then t\<lparr>at_State := TaskCancelled, at_Version := at_Version t + 1\<rparr> else t"
  have "db' = db\<lparr>db_Tasks := map ?g (db_Tasks db)\<rparr>"
    using assms False by (auto simp: cancelRemovedCodingAgentTasksTx_def Let_def cancel_tasks_def exec_def split: if_splits)
  moreover have "at_Revision (?g t) = at_Revision t \<and> at_ItemID (?g t) = at_ItemID t \<and>
    (at_State (?g t) = TaskAccepted \<longleftrightarrow> at_State t = TaskAccepted)" for t by auto
  ultimately show ?thesis by blast
qed

lemma sign_off_turn:
  assumes "insertCodingLedgerOwnerTurnTx env i base a x db = Inr db'"
  shows "\<exists>t. db' = db\<lparr>db_Turns := db_Turns db @ [t]\<rparr>"
  using assms by (auto simp: insertCodingLedgerOwnerTurnTx_def insert_turn_def exec_def split: if_splits)

lemma freeze_opened:
  assumes "storeFrozenRevisionTx env command proposal db = Inr (r, db')" "integrity db"
  shows "\<exists>d3 row. rw_Revision row = db_Current db + 1 \<and> int64 (db_Current db + 1) = db_Current db + 1 \<and> rw_State row = RevisionFrozen \<and>
    integrity d3 \<and> db_Current d3 = db_Current db + 1 \<and> db_Revisions d3 = db_Revisions db @ [row] \<and> db_Tasks d3 = db_Tasks db \<and>
    db_LedgerID d3 = db_LedgerID db \<and>
    map vs_Payload (projected d3 (db_Current db + 1)) = map json_copy_task (led_Tasks (cr_Ledger proposal)) \<and>
    routes_at d3 (db_Current db + 1) = cr_Routes proposal \<and>
    (\<exists>d4 d5 d6 d7 c. cancelRemovedCodingAgentTasksTx env (db_Current db + 1) d3 = Inr d4 \<and>
      (d5 = d4 \<or> (\<exists>p. insertCodingLedgerDispositionTx env (db_Current db + 1) (fc_OwnerTurnID command) p d4 = Inr d5)) \<and>
      update_where c (update_ledger env LedgerFrozen (Some (db_Current db + 1)) d5) = Inr d6 \<and>
      createFrozenCodingAgentTasksTx env (db_Current db + 1) ((cr_Ledger proposal)\<lparr>led_Revision := db_Current db + 1\<rparr>) d6 = Inr d7 \<and>
      reread env (fc_LedgerID command) (db_Current db + 1) d7 = Inr (r, db'))"
proof -
  let ?rev = "int64 (db_Current db + 1)" and ?i = "fc_OwnerTurnID command"
  let ?row = "\<lparr>rw_Revision = ?rev, rw_BaseRevision = db_Current db, rw_OperationID = fc_OperationID command,
    rw_OwnerTurnID = ?i, rw_State = RevisionFrozen, rw_Mutation = None\<rparr>"
  obtain d0 d1 d2 d3 d4 d5 d6 d7 a c where steps:
    "d0 = db \<or> insertCodingLedgerOwnerTurnTx env (codingLedgerSignOffTurnID ?i) (db_Current db) ActionSignOff (fc_OwnerTurnText command) db = Inr d0"
    "insertCodingLedgerOwnerTurnTx env ?i (db_Current db) a (fc_OwnerTurnText command) d0 = Inr d1"
    "insert_revision env ?row d1 = Inr d2"
    "persistCodingLedgerSnapshotTx env ?rev (db_Current db) ?i ((cr_Ledger proposal)\<lparr>led_Revision := ?rev\<rparr>) (cr_Routes proposal) d2 = Inr d3"
    "cancelRemovedCodingAgentTasksTx env ?rev d3 = Inr d4"
    "d5 = d4 \<or> (\<exists>p. insertCodingLedgerDispositionTx env ?rev ?i p d4 = Inr d5)"
    "update_where c (update_ledger env LedgerFrozen (Some ?rev) d5) = Inr d6"
    "createFrozenCodingAgentTasksTx env ?rev ((cr_Ledger proposal)\<lparr>led_Revision := ?rev\<rparr>) d6 = Inr d7"
    "reread env (fc_LedgerID command) ?rev d7 = Inr (r, db')"
    using assms(1) by (simp add: storeFrozenRevisionTx_def Let_def split: if_splits) blast+
  have d0: "integrity d0" "db_Current d0 = db_Current db" "db_Revisions d0 = db_Revisions db" "db_Tasks d0 = db_Tasks db" "db_LedgerID d0 = db_LedgerID db"
    using steps(1) assms(2) kept.owner_turn_rel sign_off_turn by fastforce+
  note w = written_stores [OF d0(1) steps(2,3), simplified, OF steps(4)]
  then have rev: "?rev = db_Current db + 1" using d0(2) by simp
  have d3: "integrity d3" "db_Current d3 = db_Current db + 1" "db_Revisions d3 = db_Revisions db @ [?row]" "db_Tasks d3 = db_Tasks db"
    "db_LedgerID d3 = db_LedgerID db"
    "map vs_Payload (projected d3 (db_Current db + 1)) = map json_copy_task (led_Tasks (cr_Ledger proposal))"
    "routes_at d3 (db_Current db + 1) = cr_Routes proposal"
    using w d0 rev by (simp_all add: frame_def)
  note more = steps(5-9) [unfolded rev]
  show ?thesis
    by (rule exI [of _ d3], rule exI [of _ ?row], intro conjI) (use d3 rev more in \<open>simp_all, blast\<close>)
qed

lemma freeze_stored:
  assumes "storeFrozenRevisionTx env command proposal db = Inr (r, db')" "integrity db"
  shows "integrity db' \<and> db_Current db' = db_Current db + 1 \<and> db_State db' = LedgerFrozen \<and> db_Frozen db' = Some (db_Current db + 1) \<and>
    led_Tasks (cr_Ledger r) = sort_key (task_key env) (map json_copy_task (led_Tasks (cr_Ledger proposal))) \<and>
    cr_Routes r = sort_key (\<lambda>q. dbe_Collate env (lr_Role q)) (cr_Routes proposal) \<and>
    (\<exists>rows. filter (\<lambda>t. at_Revision t = db_Current db + 1) (db_Tasks db') = rows \<and>
      queued_as db' (last_frozen db (db_Current db)) (db_Current db + 1) (led_Tasks (cr_Ledger proposal)) rows \<and>
      (\<forall>i. accepted_row db' (last_frozen db (db_Current db)) i \<longrightarrow> accepted_row db (last_frozen db (db_Current db)) i))"
proof -
  let ?n = "db_Current db + 1" and ?prior = "last_frozen db (db_Current db)" and ?tasks = "led_Tasks (cr_Ledger proposal)"
  obtain d3 row d4 d5 d6 d7 c where d3: "rw_Revision row = ?n" "integrity d3" "db_Current d3 = ?n" "db_Revisions d3 = db_Revisions db @ [row]"
      "db_Tasks d3 = db_Tasks db" "map vs_Payload (projected d3 ?n) = map json_copy_task ?tasks" "routes_at d3 ?n = cr_Routes proposal"
    and steps: "cancelRemovedCodingAgentTasksTx env ?n d3 = Inr d4"
      "d5 = d4 \<or> (\<exists>p. insertCodingLedgerDispositionTx env ?n (fc_OwnerTurnID command) p d4 = Inr d5)"
      "update_where c (update_ledger env LedgerFrozen (Some ?n) d5) = Inr d6"
      "createFrozenCodingAgentTasksTx env ?n ((cr_Ledger proposal)\<lparr>led_Revision := ?n\<rparr>) d6 = Inr d7"
      "reread env (fc_LedgerID command) ?n d7 = Inr (r, db')"
    using freeze_opened [OF assms] by blast
  obtain g where g: "d4 = d3\<lparr>db_Tasks := map g (db_Tasks d3)\<rparr>"
      "\<And>t. at_Revision (g t) = at_Revision t \<and> at_ItemID (g t) = at_ItemID t \<and> (at_State (g t) = TaskAccepted \<longleftrightarrow> at_State t = TaskAccepted)"
    using cancel_removed [OF steps(1)] by blast
  have d5: "frame d5 = frame d4 \<and> projected d5 = projected d4 \<and> db_Routes d5 = db_Routes d4"
    using steps(2) disposition_keeps by blast
  have d6: "d6 = d5\<lparr>db_State := LedgerFrozen, db_Frozen := Some ?n\<rparr>"
    using steps(3) by (auto simp: update_where_def update_ledger_def exec_def Let_def split: if_splits)
  have cur: "0 \<le> db_Current db" using assms(2) by (simp add: integrity_def revisions_ok_def)
  have "db_Revisions d6 = db_Revisions db @ [row]" using d3(4) d5 unfolding d6 g(1) by (simp add: frame_def)
  then have prior: "last_frozen d6 (db_Current db) = ?prior" using last_frozen_snoc [of d6 db row] d3(1) by simp
  have "?prior \<noteq> ?n" using last_frozen_le [OF cur, of db] by simp
  then have "\<exists>rows. d7 = d6\<lparr>db_Tasks := db_Tasks d6 @ rows\<rparr> \<and> queued_as d6 ?prior ?n ?tasks rows"
    by (rule queue_tasks [rotated]) (use steps(4) in \<open>simp add: createFrozenCodingAgentTasksTx_def Let_def prior\<close>)
  then obtain rows where rows: "d7 = d6\<lparr>db_Tasks := db_Tasks d6 @ rows\<rparr>" "queued_as d6 ?prior ?n ?tasks rows" by blast
  have tasks: "db_Tasks d6 = map g (db_Tasks db)" using d5 d3(5) unfolding d6 g(1) by (simp add: frame_def)
  have ok: "integrity d7"
    using d3(2) kept.cancel_removed_rel [OF steps(1)] kept.update_where_rel [OF steps(3)] kept.create_tasks_rel [OF steps(4)]
      steps(2) kept.disposition_rel by auto
  note read = reread_result [OF steps(5) ok]
  have db': "db' = d7" using read by blast
  have "\<forall>t\<in>set rows. at_Revision t = ?n" using rows(2) by (simp add: queued_as_def)
  moreover have "\<forall>t\<in>set (db_Tasks d6). at_Revision t \<noteq> ?n"
    using assms(2) g(2) unfolding tasks by (auto simp: integrity_def queue_ok_def)
  ultimately have queue: "filter (\<lambda>t. at_Revision t = ?n) (db_Tasks db') = rows"
    unfolding db' rows(1) by (auto simp: filter_id_conv filter_empty_conv)
  have acc: "accepted_row d7 ?prior i = accepted_row d6 ?prior i" for i
    using \<open>?prior \<noteq> ?n\<close> \<open>\<forall>t\<in>set rows. at_Revision t = ?n\<close> unfolding rows(1) by (auto simp: accepted_row_def)
  have con: "coding_agent_task_contract_matches ?prior ?n i d7 = coding_agent_task_contract_matches ?prior ?n i d6" for i
    by (rule contract_cong) (simp add: rows(1))
  have "queued_as db' ?prior ?n ?tasks rows" using rows(2) unfolding db' queued_as_def acc con .
  moreover have "accepted_row db' ?prior i \<longrightarrow> accepted_row db ?prior i" for i
    using g(2) unfolding db' acc unfolding accepted_row_def tasks by auto
  moreover have "projected d7 ?n = projected d3 ?n" "routes_at d7 ?n = routes_at d3 ?n"
    using d5 unfolding rows(1) d6 g(1) by (simp_all add: routes_at_def)
  moreover have "db_Current d7 = ?n" using d5 d3(3) unfolding rows(1) d6 g(1) by (simp add: frame_def)
  moreover have "db_State d7 = LedgerFrozen" "db_Frozen d7 = Some ?n" unfolding rows(1) d6 by simp_all
  ultimately show ?thesis using read ok d3(6,7) queue unfolding db' by simp
qed

lemma insort_key_first: "(\<And>y. y \<in> set ys \<Longrightarrow> f x \<le> f y) \<Longrightarrow> insort_key f x ys = x # ys"
  by (cases ys) auto

lemma sort_key_sorted: "sorted (map f xs) \<Longrightarrow> sort_key f xs = xs"
  by (induction xs) (auto intro: insort_key_first)

lemma freeze_repeats:
  \<comment> \<open>the shown proposal is already stored and sorted, so the frozen revision shows the same\<close>
  assumes "readCodingLedgerRevisionTx env l r read_all db = Inr proposal" "integrity db"
  shows "sort_key (task_key env) (map json_copy_task (led_Tasks (cr_Ledger proposal))) = led_Tasks (cr_Ledger proposal)"
    "sort_key (\<lambda>q. dbe_Collate env (lr_Role q)) (cr_Routes proposal) = cr_Routes proposal"
proof -
  have tasks: "led_Tasks (cr_Ledger proposal) = sort_key (task_key env) (map vs_Payload (projected db r))"
    using read_result [OF assms(1)] read_all_tasks [OF assms(2)] by simp
  have "json_copy_task t = t" if "t \<in> set (led_Tasks (cr_Ledger proposal))" for t
    using that projected_in assms(2) unfolding tasks by (fastforce simp: integrity_def content_ok_def version_ok_def)
  then have "map json_copy_task (led_Tasks (cr_Ledger proposal)) = led_Tasks (cr_Ledger proposal)" by (simp add: map_idI)
  moreover have "sorted (map (task_key env) (led_Tasks (cr_Ledger proposal)))" unfolding tasks by simp
  ultimately show "sort_key (task_key env) (map json_copy_task (led_Tasks (cr_Ledger proposal))) = led_Tasks (cr_Ledger proposal)"
    by (simp add: sort_key_sorted)
  have "cr_Routes proposal = sort_key (\<lambda>q. dbe_Collate env (lr_Role q)) (routes_at db r)"
    using read_result [OF assms(1)] read_all_routes by simp
  then show "sort_key (\<lambda>q. dbe_Collate env (lr_Role q)) (cr_Routes proposal) = cr_Routes proposal"
    by (simp add: sort_key_sorted)
qed

lemma freeze_applied:
  assumes "freezeCodingLedger env command db = Inr (r, db')" "cr_Applied r"
  shows "db_State db = LedgerProposed \<and> db_Current db = fc_Revision command \<and>
    (\<exists>proposal. readCodingLedgerRevisionTx env (fc_LedgerID command) (fc_Revision command) read_all db = Inr proposal \<and>
      freezable proposal (fc_Revision command) = None \<and> storeFrozenRevisionTx env command proposal db = Inr (r, db'))"
proof -
  have tx: "freezeCodingLedgerTx env command db = Inr (r, db')"
    using assms(1) by (auto simp: freezeCodingLedger_def split: if_splits)
  have "find_operation (fc_OperationID command) db = None"
  proof (rule ccontr)
    assume "\<not> ?thesis"
    then obtain row turn where "find_operation (fc_OperationID command) db = Some (row, turn)" by auto
    then show False using tx assms(2) by (auto simp: freezeCodingLedgerTx_def replayFreezeTx_def Let_def split: if_splits)
  qed
  then show ?thesis using tx by (auto simp: freezeCodingLedgerTx_def Let_def split: if_splits)
qed

end
