(* ===== verification/Store_Samples.thy ===== *)
theory Store_Samples
  imports Store_Freeze Samples
begin

text \<open>
  A run of the repository on a small ledger: proposed, agreed, frozen, worked off and completed. The hypotheses of
  the general statements are evaluated on it. The database of the sample compares texts bytewise and refuses nothing
  beyond the constraints written out.
\<close>

definition sample_database :: database where
  "sample_database = \<lparr>dbe_Refuse = \<lambda>_ _. False, dbe_Collate = \<lambda>s. s, dbe_Like = \<lambda>_ _. True, dbe_Text = \<lambda>_. []\<rparr>"

definition sample_ledger_route :: "string \<Rightarrow> CodingLedgerRoute" where
  "sample_ledger_route role = \<lparr>lr_Role = role, lr_ConfigurationRevision = 1, lr_Provider = ''p'', lr_Model = ''m'',
     lr_ReasoningEffort = ''e'', lr_ServiceTier = ''t''\<rparr>"

definition sample_proposal :: CreateCodingLedgerCommand where
  "sample_proposal =
     \<lparr>cc_JobID = 5, cc_OperationID = ''op-0'', cc_OwnerTurnID = ''turn-0'', cc_OwnerTurnText = ''please'',
      cc_OwnerTurnDisposition = RepresentedOwnerTurn [''a''],
      cc_Ledger = \<lparr>led_ID = ''7'', led_Revision = 1,
        led_Tasks = [sample_task (sample_item ''a'' 0 LedgerDispositionActive LedgerReviewProposed) ''parse'']\<rparr>,
      cc_Routes = [sample_ledger_route ''planner'', sample_ledger_route ''executor'', sample_ledger_route ''reviewer'']\<rparr>"

definition sample_created :: "store_error + CodingLedgerRevision \<times> ledger_db" where
  "sample_created = CreateCodingLedger sample_database 7 sample_proposal None"

definition sample_db1 :: ledger_db where
  "sample_db1 = snd (projr sample_created)"

definition sample_agree :: ApplyCodingLedgerMutationCommand where
  "sample_agree = \<lparr>ac_LedgerID = 7, ac_OwnerTurnText = ''agreed'',
     ac_Mutation = sample_mutation 1 [(sample_operation LedgerMutationReview ''a'')\<lparr>op_ReviewState := LedgerReviewAgreed\<rparr>],
     ac_Routes = []\<rparr>"

definition sample_agreed :: "store_error + CodingLedgerRevision \<times> ledger_db" where
  "sample_agreed = applyCodingLedgerMutation sample_database sample_agree ActionPlanning sample_db1"

definition sample_db2 :: ledger_db where
  "sample_db2 = snd (projr sample_agreed)"

definition sample_freeze :: FreezeCodingLedgerCommand where
  "sample_freeze = \<lparr>fc_LedgerID = 7, fc_Revision = 2, fc_OperationID = ''op-2'', fc_OwnerTurnID = ''turn-3'', fc_OwnerTurnText = ''go''\<rparr>"

definition sample_frozen :: "store_error + CodingLedgerRevision \<times> ledger_db" where
  "sample_frozen = freezeCodingLedger sample_database sample_freeze sample_db2"

definition sample_db3 :: ledger_db where
  "sample_db3 = snd (projr sample_frozen)"

definition sample_verdict :: "Entry list" where
  "sample_verdict = [Entry_zero\<lparr>en_Generation := 1, en_TaskID := ''a'', en_Phase := PhaseTaskAccepted\<rparr>]"

definition sample_accepted :: "store_error + ledger_db" where
  "sample_accepted = AcceptCodingLedgerTask sample_database True 1 sample_verdict 5 ''a'' sample_db3"

definition sample_db4 :: ledger_db where
  "sample_db4 = projr sample_accepted"

definition sample_state :: "LedgerReviewState \<Rightarrow> LedgerTask" where
  "sample_state review = sample_task (sample_item ''a'' 0 LedgerDispositionActive review) ''parse''"

definition sample_turn_row :: "string \<Rightarrow> int \<Rightarrow> owner_action \<Rightarrow> string \<Rightarrow> turn_row" where
  "sample_turn_row i base action said = \<lparr>tn_OwnerTurnID = i, tn_BaseRevision = base, tn_Action = action, tn_Text = said\<rparr>"

definition sample_revision_row :: "int \<Rightarrow> string \<Rightarrow> string \<Rightarrow> revision_state \<Rightarrow> LedgerMutation option \<Rightarrow> revision_row" where
  "sample_revision_row r op turn state m = \<lparr>rw_Revision = r, rw_BaseRevision = r - 1, rw_OperationID = op, rw_OwnerTurnID = turn,
     rw_State = state, rw_Mutation = m\<rparr>"

definition sample_disposition_row :: "string \<Rightarrow> int \<Rightarrow> disposition_row" where
  "sample_disposition_row turn r = \<lparr>dp_OwnerTurnID = turn, dp_Revision = r, dp_Statements = turn_Statements (RepresentedOwnerTurn [''a''])\<rparr>"

text \<open>The tables after the freeze: the agreed version of revision 2 is shared by the frozen revision 3.\<close>

lemma sample_db3_value [code]:
  "sample_db3 =
     \<lparr>db_LedgerID = 7, db_JobID = 5, db_Current = 3, db_Frozen = Some 3, db_State = LedgerFrozen,
      db_Revisions = [sample_revision_row 1 ''op-0'' ''turn-0'' RevisionProposed None,
        sample_revision_row 2 ''op-1'' ''turn-2'' RevisionProposed (Some (ac_Mutation sample_agree)),
        sample_revision_row 3 ''op-2'' ''turn-3'' RevisionFrozen None],
      db_Items = [(''a'', 1)],
      db_Versions = [version_of 1 ''turn-0'' (sample_state LedgerReviewProposed), version_of 2 ''turn-2'' (sample_state LedgerReviewAgreed)],
      db_Projections = [\<lparr>pj_Revision = 1, pj_ItemID = ''a'', pj_ItemRevision = 1\<rparr>, \<lparr>pj_Revision = 2, pj_ItemID = ''a'', pj_ItemRevision = 2\<rparr>,
        \<lparr>pj_Revision = 3, pj_ItemID = ''a'', pj_ItemRevision = 2\<rparr>],
      db_Origins = [(''a'', 1, ''owner_turn:turn-1''), (''a'', 2, ''owner_turn:turn-1'')],
      db_Turns = [sample_turn_row ''turn-0'' 0 ActionPlanning ''please'', sample_turn_row ''turn-2'' 1 ActionPlanning ''agreed'',
        sample_turn_row ''turn-3'' 2 ActionSignOff ''go''],
      db_Dispositions = [sample_disposition_row ''turn-0'' 1, sample_disposition_row ''turn-2'' 2],
      db_TurnItems = [(''turn-0'', ''a''), (''turn-2'', ''a'')],
      db_Routes = [(1, sample_ledger_route ''planner''), (1, sample_ledger_route ''executor''), (1, sample_ledger_route ''reviewer''),
        (2, sample_ledger_route ''executor''), (2, sample_ledger_route ''planner''), (2, sample_ledger_route ''reviewer''),
        (3, sample_ledger_route ''executor''), (3, sample_ledger_route ''planner''), (3, sample_ledger_route ''reviewer'')],
      db_Tasks = [\<lparr>at_Revision = 3, at_ItemID = ''a'', at_State = TaskReady, at_FairnessKey = 1, at_Version = 1\<rparr>]\<rparr>"
  by code_simp

lemma run_value: "\<not> isl x \<Longrightarrow> x = Inr (fst (projr x), snd (projr x))"
  by (cases x) auto

lemma sample_runs: "\<not> isl sample_created" "\<not> isl sample_agreed" "\<not> isl sample_frozen" "\<not> isl sample_accepted"
  by code_simp+

lemma sample_create_run: "CreateCodingLedger sample_database 7 sample_proposal None = Inr (fst (projr sample_created), sample_db1)"
  using run_value [OF sample_runs(1)] unfolding sample_db1_def sample_created_def .

lemma sample_agree_run:
  "applyCodingLedgerMutation sample_database sample_agree ActionPlanning sample_db1 = Inr (fst (projr sample_agreed), sample_db2)"
  using run_value [OF sample_runs(2)] unfolding sample_db2_def sample_agreed_def .

lemma sample_freeze_run: "freezeCodingLedger sample_database sample_freeze sample_db2 = Inr (fst (projr sample_frozen), sample_db3)"
  using run_value [OF sample_runs(3)] unfolding sample_db3_def sample_frozen_def .

lemma sample_accept_run: "AcceptCodingLedgerTask sample_database True 1 sample_verdict 5 ''a'' sample_db3 = Inr sample_db4"
  using sample_runs(4) unfolding sample_db4_def sample_accepted_def by (cases "AcceptCodingLedgerTask sample_database True 1 sample_verdict 5 ''a'' sample_db3") auto

lemma sample_applied: "cr_Applied (fst (projr sample_agreed))" "cr_Applied (fst (projr sample_frozen))"
  by code_simp+

lemma sample_reachable: "ledger_reachable sample_database sample_db1" "ledger_reachable sample_database sample_db2"
    "ledger_reachable sample_database sample_db3"
proof -
  show one: "ledger_reachable sample_database sample_db1" by (rule ledger_reachable.created [OF sample_create_run])
  show two: "ledger_reachable sample_database sample_db2"
    by (rule ledger_reachable.stepped [OF one ledger_step.mutate [OF sample_agree_run]])
  show "ledger_reachable sample_database sample_db3"
    by (rule ledger_reachable.stepped [OF two ledger_step.freeze [OF sample_freeze_run]])
qed

subsection \<open>The accepted task is replanned unchanged and frozen again\<close>

definition sample_db5 :: ledger_db where
  "sample_db5 = projr (transitionCodingAuthorityTx sample_database 5 TargetSuperseded [] [] sample_db4)"

definition sample_unchanged :: ProposeUnchangedCodingLedgerCommand where
  "sample_unchanged = \<lparr>pu_LedgerID = 7, pu_Revision = 3, pu_OperationID = ''op-3'', pu_OwnerTurnID = ''turn-4'', pu_OwnerTurnText = ''wait''\<rparr>"

definition sample_reproposed :: "store_error + CodingLedgerRevision \<times> ledger_db" where
  "sample_reproposed = ProposeUnchangedCodingLedger sample_database sample_unchanged sample_db5"

definition sample_db6 :: ledger_db where
  "sample_db6 = snd (projr sample_reproposed)"

definition sample_refreeze :: FreezeCodingLedgerCommand where
  "sample_refreeze = \<lparr>fc_LedgerID = 7, fc_Revision = 4, fc_OperationID = ''op-4'', fc_OwnerTurnID = ''turn-5'', fc_OwnerTurnText = ''go on''\<rparr>"

definition sample_refrozen :: "store_error + CodingLedgerRevision \<times> ledger_db" where
  "sample_refrozen = freezeCodingLedger sample_database sample_refreeze sample_db6"

definition sample_db7 :: ledger_db where
  "sample_db7 = snd (projr sample_refrozen)"

lemma sample_reruns:
  "\<not> isl (transitionCodingAuthorityTx sample_database 5 TargetSuperseded [] [] sample_db4)"
  "\<not> isl sample_reproposed" "\<not> isl sample_refrozen" "cr_Applied (fst (projr sample_refrozen))"
  by code_simp+

lemma sample_refreeze_run: "freezeCodingLedger sample_database sample_refreeze sample_db6 = Inr (fst (projr sample_refrozen), sample_db7)"
  using run_value [OF sample_reruns(3)] unfolding sample_db7_def sample_refrozen_def .

lemma sample_rereachable: "ledger_reachable sample_database sample_db6"
proof -
  have "transitionCodingAuthorityTx sample_database 5 TargetSuperseded [] [] sample_db4 = Inr sample_db5"
    using sample_reruns(1) unfolding sample_db5_def
    by (cases "transitionCodingAuthorityTx sample_database 5 TargetSuperseded [] [] sample_db4") auto
  moreover have "ProposeUnchangedCodingLedger sample_database sample_unchanged sample_db5 = Inr (fst (projr sample_reproposed), sample_db6)"
    using run_value [OF sample_reruns(2)] unfolding sample_db6_def sample_reproposed_def .
  ultimately show ?thesis
    using sample_reachable(3) sample_accept_run ledger_reachable.stepped ledger_step.accept ledger_step.transition ledger_step.propose
    by metis
qed

definition sample_carried :: task_row where
  "sample_carried = \<lparr>at_Revision = 5, at_ItemID = ''a'', at_State = TaskAccepted, at_FairnessKey = 2, at_Version = 1\<rparr>"

lemma sample_carried_facts: "sample_carried \<in> set (db_Tasks sample_db7)" "at_Revision sample_carried = db_Current sample_db7"
    "at_State sample_carried = TaskAccepted"
  by code_simp+

end
