(* ===== verification/Store_Promises.thy ===== *)
theory Store_Promises
  imports Store_Samples
begin

text \<open>
  The promises of the ledger repository, over every run of it.
\<close>



text \<open>
  C8. History is immutable. Once a revision is stored, no later run of the repository changes what reading it
  returns, whatever page or filter is asked for.
\<close>

theorem revision_history_immutable:
  assumes "ledger_reachable env db" "(ledger_step env)\<^sup>*\<^sup>* db db'" "revision \<le> db_Current db"
  shows "readCodingLedgerRevisionTx env ledgerID revision options db' = readCodingLedgerRevisionTx env ledgerID revision options db"
  using run_read_same [OF assms(2,1,3)] by blast

theorem revision_history_immutable_witness:
  "readCodingLedgerRevisionTx sample_database 7 1 read_all sample_db3 = readCodingLedgerRevisionTx sample_database 7 1 read_all sample_db1"
proof (rule revision_history_immutable [OF sample_reachable(1)])
  show "(ledger_step sample_database)\<^sup>*\<^sup>* sample_db1 sample_db3"
    using ledger_step.mutate [OF sample_agree_run] ledger_step.freeze [OF sample_freeze_run] by auto
  show "(1::int) \<le> db_Current sample_db1" by code_simp
qed

text \<open>
  C6. A stored mutation reads back as it was computed. When a mutation is applied in a run, the ledger moves to the
  next revision as a proposal, the queue is untouched, and reading the new revision gives the tasks of the
  computed ledger, as their JSON encoding returns them, by rank and identity, and its routes by role. Versions that did
  not change are shared with earlier revisions; this cannot be observed.
\<close>

theorem applied_mutation_reads_back:
  assumes "ledger_reachable env db" "applyCodingLedgerMutation env command action db = Inr (r, db')" "cr_Applied r"
  shows "\<exists>new routes y. next_ledger env command db = Inr (new, routes) \<and> led_Revision new = db_Current db + 1 \<and>
    db_Current db' = db_Current db + 1 \<and> db_State db' = LedgerProposed \<and> db_Tasks db' = db_Tasks db \<and>
    readCodingLedgerRevisionTx env (ac_LedgerID command) (db_Current db') read_all db' = Inr y \<and> r = y\<lparr>cr_Applied := True\<rparr> \<and>
    led_Tasks (cr_Ledger r) = sort_key (\<lambda>t. (task_Rank t, dbe_Collate env (task_ID t))) (map json_copy_task (led_Tasks new)) \<and>
    cr_Routes r = sort_key (\<lambda>q. dbe_Collate env (lr_Role q)) routes"
  using mutation_stored [OF assms(2,3) reachable_integrity [OF assms(1)]] unfolding task_key_def by blast

theorem applied_mutation_reads_back_witness:
  "\<exists>new routes. next_ledger sample_database sample_agree sample_db1 = Inr (new, routes) \<and>
    led_Tasks (cr_Ledger (fst (projr sample_agreed))) =
      sort_key (\<lambda>t. (task_Rank t, dbe_Collate sample_database (task_ID t))) (map json_copy_task (led_Tasks new))"
  using applied_mutation_reads_back [OF sample_reachable(1) sample_agree_run sample_applied(1)] by blast

text \<open>
  C4. A freeze freezes exactly what the owner was shown. When a freeze is applied in a run, the revision the owner
  named is the current proposal, every active task of it is agreed, the frozen revision is the next one and shows the
  same tasks and routes, and the queue of the frozen revision has exactly its active tasks, in their order.
\<close>

theorem freeze_exact:
  assumes "ledger_reachable env db" "freezeCodingLedger env command db = Inr (r, db')" "cr_Applied r"
  shows "\<exists>proposal. readCodingLedgerRevisionTx env (fc_LedgerID command) (fc_Revision command) read_all db = Inr proposal \<and>
    db_State db = LedgerProposed \<and> db_Current db = fc_Revision command \<and>
    list_all (\<lambda>t. task_ReviewState t = LedgerReviewAgreed) (filter task_active (led_Tasks (cr_Ledger proposal))) \<and>
    led_Tasks (cr_Ledger r) = led_Tasks (cr_Ledger proposal) \<and> cr_Routes r = cr_Routes proposal \<and>
    db_State db' = LedgerFrozen \<and> db_Frozen db' = Some (fc_Revision command + 1) \<and> db_Current db' = fc_Revision command + 1 \<and>
    map at_ItemID (filter (\<lambda>t. at_Revision t = fc_Revision command + 1) (db_Tasks db')) =
      map task_ID (filter task_active (led_Tasks (cr_Ledger proposal)))"
proof -
  note ok = reachable_integrity [OF assms(1)]
  obtain proposal where p: "db_State db = LedgerProposed" "db_Current db = fc_Revision command"
      "readCodingLedgerRevisionTx env (fc_LedgerID command) (fc_Revision command) read_all db = Inr proposal"
      "freezable proposal (fc_Revision command) = None" "storeFrozenRevisionTx env command proposal db = Inr (r, db')"
    using freeze_applied [OF assms(2,3)] by blast
  have "list_all (\<lambda>t. task_ReviewState t = LedgerReviewAgreed) (filter task_active (led_Tasks (cr_Ledger proposal)))"
    using p(4) by (simp add: freezable_def err_simps list_all_iff)
  then show ?thesis
    using freeze_stored [OF p(5) ok] freeze_repeats [OF p(3) ok] p(1-3) by (auto simp: queued_as_def)
qed

theorem freeze_exact_witness:
  "\<exists>proposal. readCodingLedgerRevisionTx sample_database 7 2 read_all sample_db2 = Inr proposal \<and>
    led_Tasks (cr_Ledger (fst (projr sample_frozen))) = led_Tasks (cr_Ledger proposal) \<and> db_Frozen sample_db3 = Some 3"
  using freeze_exact [OF sample_reachable(2) sample_freeze_run sample_applied(2)] by (auto simp: sample_freeze_def)

text \<open>
  C9. An acceptance is carried over a replan only for the same contract. When a freeze queues a task as already
  accepted, the task was accepted under the last frozen revision before, and its stored contract, which is the task
  without review state, rank, rationale and provenance, is the one that was accepted.
\<close>

theorem accepted_contract_carried:
  assumes "ledger_reachable env db" "freezeCodingLedger env command db = Inr (r, db')" "cr_Applied r"
    "t \<in> set (db_Tasks db')" "at_Revision t = db_Current db'" "at_State t = TaskAccepted"
  shows "\<exists>u\<in>set (db_Tasks db). at_Revision u = last_frozen db (db_Current db) \<and> at_ItemID u = at_ItemID t \<and> at_State u = TaskAccepted \<and>
    (\<exists>v w. version_in db (at_Revision u) (at_ItemID t) = Some v \<and> version_in db' (at_Revision t) (at_ItemID t) = Some w \<and>
      \<not> vs_Removed v \<and> \<not> vs_Removed w \<and> contract_of (vs_Payload v) = contract_of (vs_Payload w))"
proof -
  let ?prior = "last_frozen db (db_Current db)"
  note ok = reachable_integrity [OF assms(1)]
  obtain proposal where "storeFrozenRevisionTx env command proposal db = Inr (r, db')" using freeze_applied [OF assms(2,3)] by blast
  from freeze_stored [OF this ok] have cur: "db_Current db' = db_Current db + 1"
    and row: "accepted_row db ?prior (at_ItemID t)" "coding_agent_task_contract_matches ?prior (at_Revision t) (at_ItemID t) db'"
    using assms(4-6) by (auto simp: queued_as_def)
  have "extends (db_Current db) db db'" by (rule extends_current [OF ledger_step.freeze [OF assms(2)]])
  moreover have "?prior \<le> db_Current db" using last_frozen_le ok by (simp add: integrity_def revisions_ok_def)
  ultimately have "version_in db' ?prior = version_in db ?prior"
    using projected_same [OF ok] by (simp add: version_in_def fun_eq_iff)
  then show ?thesis
    using row by (auto simp: accepted_row_def coding_agent_task_contract_matches_def split: option.splits)
qed

theorem accepted_contract_carried_witness:
  "\<exists>u\<in>set (db_Tasks sample_db6). at_Revision u = last_frozen sample_db6 (db_Current sample_db6) \<and> at_ItemID u = ''a'' \<and> at_State u = TaskAccepted"
  using accepted_contract_carried [OF sample_rereachable sample_refreeze_run sample_reruns(4) sample_carried_facts]
  by (auto simp: sample_carried_def)

end
