(* ===== verification/Ledger_Queries.thy ===== *)
theory Ledger_Queries
  imports Ledger_Lifecycle
begin

text \<open>
  Queries over a stored ledger: the complete revision read page by page, the difference of two revisions and the
  history of an item (\<^verbatim>\<open>coding_plan_read.go\<close>), the routes of execution
  (\<^verbatim>\<open>coding_agent_workload.go\<close>) and the accepted tasks (\<^verbatim>\<open>coding_accepted_tasks.go\<close>).

  A query that runs in several transactions sees the tables of each of them: \<open>dbs k\<close> are the tables at its
  \<open>k\<close>-th transaction, with whatever other transactions did in between.
\<close>

section \<open>Complete revisions\<close>

definition page_size :: int where
  "page_size = 1000"

definition page_options :: "int \<Rightarrow> int \<Rightarrow> CodingLedgerReadOptions" where
  "page_options revision offset = read_all\<lparr>ro_Revision := revision, ro_Limit := page_size, ro_Offset := offset\<rparr>"

definition append_page :: "CodingLedgerRevision \<Rightarrow> CodingLedgerRevision \<Rightarrow> CodingLedgerRevision" where
  "append_page result p =
     result\<lparr>cr_Ledger := (cr_Ledger result)\<lparr>led_Tasks := led_Tasks (cr_Ledger result) @ led_Tasks (cr_Ledger p)\<rparr>\<rparr>"

definition first_page :: "CodingLedgerRevision \<Rightarrow> CodingLedgerRevision" where
  "first_page p = p\<lparr>cr_Ledger := \<lparr>led_ID = led_ID (cr_Ledger p), led_Revision = led_Revision (cr_Ledger p), led_Tasks = []\<rparr>\<rparr>"

fun complete_pages ::
    "nat \<Rightarrow> database \<Rightarrow> (nat \<Rightarrow> ledger_db) \<Rightarrow> int \<Rightarrow> nat \<Rightarrow> int \<Rightarrow> CodingLedgerRevision option \<Rightarrow>
      (store_error + CodingLedgerRevision) option" where
  \<comment> \<open>\<open>k\<close> counts the pages read; the result so far is \<open>None\<close> before the first page\<close>
  "complete_pages 0 env dbs ledgerID k revision sofar = None"
| "complete_pages (Suc fuel) env dbs ledgerID k revision sofar =
     (case ReadCodingLedger env ledgerID (page_options revision (int k * page_size)) (dbs k) of
        Inl e \<Rightarrow> Some (Inl e)
      | Inr p \<Rightarrow>
          (case (case sofar of
               None \<Rightarrow> Inr (first_page p)
             | Some result \<Rightarrow> if cr_Revision p \<noteq> cr_Revision result then Inl RevisionMoved else Inr result) of
             Inl e \<Rightarrow> Some (Inl e)
           | Inr result \<Rightarrow>
               let result = append_page result p in
               if int (length (led_Tasks (cr_Ledger p))) < page_size then Some (Inr result)
               else complete_pages fuel env dbs ledgerID (Suc k) (if k = 0 then cr_Revision p else revision) (Some result)))"

definition readCompleteCodingLedger ::
    "nat \<Rightarrow> database \<Rightarrow> (nat \<Rightarrow> ledger_db) \<Rightarrow> int \<Rightarrow> int \<Rightarrow> (store_error + CodingLedgerRevision) option" where
  "readCompleteCodingLedger fuel env dbs ledgerID revision = complete_pages fuel env dbs ledgerID 0 revision None"

section \<open>Differences\<close>

record CodingLedgerPage =
  pg_Limit :: int
  pg_Offset :: int

definition task_in :: "LedgerTask list \<Rightarrow> LedgerItemID \<Rightarrow> LedgerTask option" where
  \<comment> \<open>a map filled in order: the last task of an identity stays\<close>
  "task_in tasks i = first_with (\<lambda>t. task_ID t = i) (rev tasks)"

definition diff_ids :: "LedgerTask list \<Rightarrow> LedgerTask list \<Rightarrow> LedgerItemID list" where
  "diff_ids before after = sort (map task_ID before @ filter (\<lambda>i. task_in before i = None) (map task_ID after))"

definition diff_report :: "LedgerTask option \<Rightarrow> LedgerTask option \<Rightarrow> LedgerItemID \<Rightarrow> CodingLedgerDiff \<Rightarrow> CodingLedgerDiff" where
  "diff_report a b i result =
     (if a = None then result\<lparr>df_Added := df_Added result @ [i]\<rparr>
      else if (case b of None \<Rightarrow> True | Some t \<Rightarrow> task_Disposition t = LedgerDispositionTombstoned)
        then result\<lparr>df_Removed := df_Removed result @ [i]\<rparr>
      else if (case a of None \<Rightarrow> False | Some t \<Rightarrow> task_Disposition t = LedgerDispositionTombstoned)
        then result\<lparr>df_Restored := df_Restored result @ [i]\<rparr>
      else result\<lparr>df_Amended := df_Amended result @ [i]\<rparr>)"

fun diff_loop ::
    "(LedgerItemID \<Rightarrow> LedgerTask option) \<Rightarrow> (LedgerItemID \<Rightarrow> LedgerTask option) \<Rightarrow> CodingLedgerPage \<Rightarrow> int \<Rightarrow> LedgerItemID list \<Rightarrow>
      CodingLedgerDiff \<Rightarrow> CodingLedgerDiff" where
  "diff_loop old new p met [] result = result"
| "diff_loop old new p met (i # ids) result =
     (if old i \<noteq> None \<and> old i = new i then diff_loop old new p met ids result
      else let met = met + 1 in
        if met \<le> pg_Offset p then diff_loop old new p met ids result
        else if met > int64 (pg_Offset p + pg_Limit p) then result\<lparr>df_HasMore := True\<rparr>
        else diff_loop old new p met ids (diff_report (old i) (new i) i result))"

definition diff_page :: "CodingLedgerPage option \<Rightarrow> CodingLedgerPage" where
  "diff_page p =
     (case p of
        None \<Rightarrow> \<lparr>pg_Limit = 200, pg_Offset = 0\<rparr>
      | Some p \<Rightarrow> if pg_Limit p = 0 then p\<lparr>pg_Limit := 200\<rparr> else p)"

definition CodingLedger_Diff ::
    "database \<Rightarrow> int \<Rightarrow> int \<Rightarrow> int \<Rightarrow> CodingLedgerPage option \<Rightarrow> ledger_db \<Rightarrow> store_error + CodingLedgerDiff" where
  \<comment> \<open>the method \<^verbatim>\<open>CodingLedgerDiff\<close>; at most one page is passed\<close>
  "CodingLedger_Diff env ledgerID fromRevision toRevision asked db =
     (let p = diff_page asked in
      if ledgerID \<le> 0 \<or> fromRevision \<le> 0 \<or> toRevision \<le> 0 then Inl CommandIncomplete
      else if pg_Limit p < 0 \<or> pg_Offset p < 0 then Inl NegativePage
      else let p = (if pg_Limit p > 1000 then p\<lparr>pg_Limit := 1000\<rparr> else p) in
        bind_res (readCodingLedgerRevisionTx env ledgerID fromRevision read_all db) (\<lambda>before.
        bind_res (readCodingLedgerRevisionTx env ledgerID toRevision read_all db) (\<lambda>after.
          let old = led_Tasks (cr_Ledger before); new = led_Tasks (cr_Ledger after) in
          Inr (diff_loop (task_in old) (task_in new) p 0 (diff_ids old new)
            \<lparr>df_LedgerID = ledgerID, df_FromRevision = fromRevision, df_ToRevision = toRevision, df_Added = [], df_Amended = [],
             df_Removed = [], df_Restored = [], df_Limit = pg_Limit p, df_Offset = pg_Offset p, df_HasMore = False\<rparr>))))"

section \<open>History of an item\<close>

record CodingLedgerItemVersion =
  iv_ItemID :: LedgerItemID
  iv_Kind :: string
  iv_Revision :: int
  iv_Disposition :: LedgerDisposition
  iv_ReviewState :: LedgerReviewState
  iv_Rank :: int
  iv_Payload :: LedgerTask
  iv_Rationale :: string

definition item_version :: "version_row \<Rightarrow> CodingLedgerItemVersion" where
  "item_version v =
     \<lparr>iv_ItemID = vs_ItemID v, iv_Kind = ''task'', iv_Revision = vs_Revision v,
      iv_Disposition = (if vs_Removed v then LedgerDispositionTombstoned else LedgerDispositionActive),
      iv_ReviewState = (case vs_ReviewState v of Some s \<Rightarrow> s | None \<Rightarrow> LedgerReviewNone),
      iv_Rank = vs_Rank v, iv_Payload = vs_Payload v, iv_Rationale = vs_Rationale v\<rparr>"

definition CodingLedgerItemHistory ::
    "int \<Rightarrow> LedgerItemID \<Rightarrow> int \<Rightarrow> int list \<Rightarrow> ledger_db \<Rightarrow> store_error + CodingLedgerItemVersion list" where
  "CodingLedgerItemHistory ledgerID i limit offsets db =
     (let offset = (case offsets of [n] \<Rightarrow> n | _ \<Rightarrow> 0); limit = (if limit \<le> 0 then 100 else if limit > 1000 then 1000 else limit) in
      if ledgerID \<le> 0 \<or> blank i \<or> length offsets > 1 then Inl CommandIncomplete
      else if offset < 0 then Inl NegativePage
      else if ledgerID \<noteq> db_LedgerID db \<or> i \<notin> set (map fst (db_Items db)) then Inr []
      else Inr (map item_version (take (nat limit) (drop (nat offset)
        (sort_key (\<lambda>v. - vs_Revision v) (filter (\<lambda>v. vs_ItemID v = i) (db_Versions db)))))))"

section \<open>Operations, accepted tasks and routes\<close>

definition CodingLedgerRevisionForOperation :: "int \<Rightarrow> string \<Rightarrow> ledger_db \<Rightarrow> store_error + int \<times> bool" where
  "CodingLedgerRevisionForOperation ledgerID operationID db =
     (if ledgerID \<le> 0 \<or> blank operationID then Inl CommandIncomplete
      else if ledgerID \<noteq> db_LedgerID db then Inr (0, False)
      else Inr (case first_with (\<lambda>r. rw_OperationID r = operationID) (db_Revisions db) of
          None \<Rightarrow> (0, False) | Some r \<Rightarrow> (rw_Revision r, True)))"

definition CodingAcceptedTaskIDs :: "database \<Rightarrow> int \<Rightarrow> ledger_db \<Rightarrow> string list" where
  "CodingAcceptedTaskIDs env jobID db =
     (if jobID \<noteq> db_JobID db then []
      else sort_key (dbe_Collate env) (map at_ItemID (filter (\<lambda>t. at_State t = TaskAccepted \<and>
        at_Revision t = max_revision (map at_Revision (db_Tasks db))) (db_Tasks db))))"

definition route_of :: "CodingLedgerRoute \<Rightarrow> Route" where
  "route_of r = \<lparr>rt_Provider = lr_Provider r, rt_Model = lr_Model r, rt_Effort = lr_ReasoningEffort r, rt_ServiceTier = lr_ServiceTier r\<rparr>"

fun configuration_routes :: "CodingLedgerRoute list \<Rightarrow> Configuration \<Rightarrow> store_error + Configuration" where
  "configuration_routes [] configuration = Inr configuration"
| "configuration_routes (r # routes) configuration =
     (if lr_Role r = ''planner'' then configuration_routes routes (configuration\<lparr>cfg_Planner := route_of r\<rparr>)
      else if lr_Role r = ''executor'' then configuration_routes routes (configuration\<lparr>cfg_Executor := route_of r\<rparr>)
      else if lr_Role r = ''reviewer'' then configuration_routes routes (configuration\<lparr>cfg_Reviewer := route_of r\<rparr>)
      else Inl (UnknownRole (lr_Role r)))"

definition frozen_routes :: "database \<Rightarrow> int \<Rightarrow> ledger_db \<Rightarrow> CodingLedgerRoute list" where
  "frozen_routes env jobID db =
     (case (if jobID = db_JobID db \<and> db_State db = LedgerFrozen then db_Frozen db else None) of
        None \<Rightarrow> []
      | Some f \<Rightarrow> read_routes env f db)"

definition frozenCodingLedgerConfigurationTx :: "database \<Rightarrow> Route \<Rightarrow> int \<Rightarrow> ledger_db \<Rightarrow> store_error + Configuration" where
  \<comment> \<open>\<open>parser\<close> is the parser route of the job's metadata\<close>
  "frozenCodingLedgerConfigurationTx env parser jobID db =
     (if parser = Route_zero then Inl NoParserRoute
      else let routes = frozen_routes env jobID db in
        bind_res (configuration_routes routes \<lparr>cfg_Mode = Agents, cfg_Planner = Route_zero, cfg_LedgerParser = parser,
            cfg_Executor = Route_zero, cfg_Reviewer = Route_zero\<rparr>) (\<lambda>configuration.
        if length routes \<noteq> 3 then Inl NotThreeRoutes
        else check_res (map_option ConfigurationInvalid (Configuration_Validate configuration)) (Inr configuration)))"

definition FrozenCodingLedgerConfiguration :: "database \<Rightarrow> bool \<Rightarrow> Route \<Rightarrow> int \<Rightarrow> ledger_db \<Rightarrow> store_error + Configuration" where
  "FrozenCodingLedgerConfiguration env authorized parser jobID db =
     (if \<not> authorized then Inl NotAuthorized else frozenCodingLedgerConfigurationTx env parser jobID db)"

record LedgerPlanningMessage =
  pm_ItemID :: LedgerItemID
  pm_Role :: string
  pm_Text :: string

fun item_messages :: "string list \<Rightarrow> Entry list \<Rightarrow> LedgerPlanningMessage list" where
  \<comment> \<open>\<open>seen\<close> are the operations met before\<close>
  "item_messages seen [] = []"
| "item_messages seen (e # entries) =
     (case (en_Phase e = PhasePlanningDraft \<and> en_TaskID e \<noteq> [], en_Notes e) of
        (True, [operation, asked, answered]) \<Rightarrow>
          if operation \<in> set seen then item_messages seen entries
          else [\<lparr>pm_ItemID = en_TaskID e, pm_Role = ''user'', pm_Text = asked\<rparr>,
                \<lparr>pm_ItemID = en_TaskID e, pm_Role = ''assistant'', pm_Text = answered\<rparr>] @ item_messages (operation # seen) entries
      | _ \<Rightarrow> item_messages seen entries)"

definition codingLedgerItemMessages :: "Entry list \<Rightarrow> LedgerPlanningMessage list" where
  "codingLedgerItemMessages journal = item_messages [] journal"

definition CurrentCodingLedgerForJob ::
    "nat \<Rightarrow> database \<Rightarrow> (nat \<Rightarrow> ledger_db) \<Rightarrow> Entry list \<Rightarrow> int \<Rightarrow>
      (store_error + (CodingLedgerRevision \<times> LedgerPlanningMessage list) option) option" where
  \<comment> \<open>no ledger of the job is a result without a revision\<close>
  "CurrentCodingLedgerForJob fuel env dbs journal jobID =
     (if jobID \<le> 0 then Some (Inl CommandIncomplete)
      else if jobID \<noteq> db_JobID (dbs 0) then Some (Inr None)
      else map_option (map_sum id (\<lambda>r. Some (r, codingLedgerItemMessages journal)))
        (readCompleteCodingLedger fuel env dbs (db_LedgerID (dbs 0)) 0))"

end
