(* ===== verification/Coding_Worker.thy ===== *)
theory Coding_Worker
  imports Ledger_Queries Task_Controller Planning_Actions
begin

text \<open>
  The worker's coding actions, which compose the planner, the repository and the task controller: the planning
  transaction (\<^verbatim>\<open>coding_agent_planning.go\<close>, \<^verbatim>\<open>coding_planning_concurrency.go\<close>,
  \<^verbatim>\<open>coding_request.go\<close>) and the task loop (\<^verbatim>\<open>coding_task_loop.go\<close>,
  \<^verbatim>\<open>channel_session_message_boundaries.go\<close>), with the completion of the ledger
  (\<^verbatim>\<open>coding_agent_completion.go\<close>).

  Between two transactions of a worker others may commit: \<open>Others n\<close> is what they do to the tables before the
  worker's \<open>n\<close>-th one. The planner's answers, the cancellation of the context and the failures at the
  session-message boundary are arguments too, indexed by the same clock. Heartbeats, events and the cleanup of
  provider resources do not act on the ledger and are left out.
\<close>

section \<open>Requests and routes\<close>

record codingLedgerRequest =
  rq_Instruction :: string
  rq_Feedback :: "string list"
  rq_PlanningOperationID :: string
  rq_ObservedLedgerRevision :: int

definition request_authority :: "codingLedgerRequest \<Rightarrow> string" where
  "request_authority request = join_on (CHR 0x0A) (rq_Instruction request # rq_Feedback request)"

definition planningText :: "codingLedgerRequest \<Rightarrow> bool \<Rightarrow> string" where
  "planningText request hasLedger =
     (if hasLedger \<and> rq_Feedback request \<noteq> [] then last (rq_Feedback request) else request_authority request)"

definition planning_route :: "int \<Rightarrow> string \<Rightarrow> Route \<Rightarrow> CodingLedgerRoute" where
  "planning_route revision role route =
     \<lparr>lr_Role = role, lr_ConfigurationRevision = revision, lr_Provider = rt_Provider route, lr_Model = rt_Model route,
      lr_ReasoningEffort = rt_Effort route, lr_ServiceTier = rt_ServiceTier route\<rparr>"

definition codingLedgerPlanningRoutes :: "Configuration \<Rightarrow> int \<Rightarrow> CodingLedgerRoute list" where
  "codingLedgerPlanningRoutes configuration revision =
     [planning_route revision ''planner'' (cfg_Planner configuration),
      planning_route revision ''executor'' (cfg_Executor configuration),
      planning_route revision ''reviewer'' (cfg_Reviewer configuration)]"

section \<open>Rebasing a planned mutation\<close>

definition LedgerTask_zero :: LedgerTask where
  "LedgerTask_zero = \<lparr>task_Item = LedgerItem_zero, task_Goal = [], task_Objective = [], task_OwnerContext = [], task_Constraints = [],
     task_FileResponsibilities = [], task_Acceptance = [], task_ReadFiles = [], task_WriteFiles = [], task_DeleteFiles = []\<rparr>"

definition same_but_controls :: "LedgerTask list \<Rightarrow> LedgerTask \<Rightarrow> bool" where
  "same_but_controls base t \<longleftrightarrow>
     (case task_in base (task_ID t) of
        None \<Rightarrow> False
      | Some old \<Rightarrow> on_item (\<lambda>it. it\<lparr>item_Rank := task_Rank t, item_ReviewState := task_ReviewState t\<rparr>) old = t)"

definition rebase_rank :: "LedgerTask \<Rightarrow> LedgerMutationOperation \<Rightarrow> LedgerMutationOperation" where
  "rebase_rank now op =
     (case op_Kind op of
        LedgerMutationReorder \<Rightarrow> op\<lparr>op_Rank := Some (task_Rank now)\<rparr>
      | LedgerMutationAmend \<Rightarrow>
          op\<lparr>op_Item := map_option (\<lambda>it. it\<lparr>mi_Task := map_option (on_item (\<lambda>i. i\<lparr>item_Rank := task_Rank now\<rparr>)) (mi_Task it)\<rparr>) (op_Item op)\<rparr>
      | _ \<Rightarrow> op)"

definition rebase_operation :: "LedgerTask list \<Rightarrow> LedgerTask list \<Rightarrow> LedgerMutationOperation \<Rightarrow> LedgerMutationOperation" where
  "rebase_operation base latest op =
     (case task_in base (op_TargetID op) of
        None \<Rightarrow> op
      | Some old \<Rightarrow>
          let now = (case task_in latest (op_TargetID op) of Some t \<Rightarrow> t | None \<Rightarrow> LedgerTask_zero);
              op = (if task_Rank old \<noteq> task_Rank now then rebase_rank now op else op) in
          if task_ReviewState old \<noteq> task_ReviewState now \<and> op_Kind op = LedgerMutationReview
          then op\<lparr>op_ReviewState := task_ReviewState now\<rparr> else op)"

definition rebasePlanningControls :: "EngineeringLedger \<Rightarrow> EngineeringLedger \<Rightarrow> LedgerMutation \<Rightarrow> LedgerMutation \<times> bool" where
  "rebasePlanningControls base latest m =
     (if length (led_Tasks base) \<noteq> length (led_Tasks latest) \<or> \<not> list_all (same_but_controls (led_Tasks base)) (led_Tasks latest)
      then (m, False)
      else (m\<lparr>mut_BaseRevision := led_Revision latest,
              mut_Operations := map (rebase_operation (led_Tasks base) (led_Tasks latest)) (mut_Operations m)\<rparr>, True))"

section \<open>The planning transaction\<close>

datatype planning_error =
    PlanCancelled
  | PlanStore store_error
  | PlanAction action_error
  | PlanDraft ledger_error
  | PlannerFailed

record planning_env =
  pe_Database :: database
  pe_Cancelled :: "nat \<Rightarrow> bool"
  pe_Others :: "nat \<Rightarrow> ledger_db \<Rightarrow> ledger_db"
  pe_Plan :: "nat \<Rightarrow> EngineeringLedger \<Rightarrow> PlanningTurn \<Rightarrow> planning_error + LedgerMutation"
  pe_Propose :: "nat \<Rightarrow> PlanningTurn \<Rightarrow> planning_error + EngineeringLedger \<times> OwnerTurnDisposition"

type_synonym 'a planned = "ledger_db \<times> nat \<Rightarrow> ((planning_error + 'a) \<times> ledger_db \<times> nat) option"

definition plan_bind :: "'a planned \<Rightarrow> ('a \<Rightarrow> 'b planned) \<Rightarrow> 'b planned" where
  "plan_bind f g s = (case f s of None \<Rightarrow> None | Some (Inl e, s') \<Rightarrow> Some (Inl e, s') | Some (Inr x, s') \<Rightarrow> g x s')"

definition plan_value :: "planning_error + 'a \<Rightarrow> 'a planned" where
  "plan_value r s = Some (r, s)"

definition plan_context :: "planning_env \<Rightarrow> unit planned" where
  \<comment> \<open>\<^verbatim>\<open>if err := ctx.Err(); err != nil { return err }\<close>\<close>
  "plan_context env = (\<lambda>(db, n). Some (if pe_Cancelled env n then Inl PlanCancelled else Inr (), db, Suc n))"

definition plan_query :: "planning_env \<Rightarrow> (ledger_db \<Rightarrow> store_error + 'a) \<Rightarrow> (store_error + 'a) planned" where
  "plan_query env q = (\<lambda>(db, n). let db = pe_Others env n db in Some (Inr (q db), db, Suc n))"

definition plan_write :: "planning_env \<Rightarrow> (ledger_db \<Rightarrow> store_error + 'a \<times> ledger_db) \<Rightarrow> (store_error + 'a) planned" where
  "plan_write env q = (\<lambda>(db, n). let db = pe_Others env n db in
     Some (case q db of Inl e \<Rightarrow> (Inr (Inl e), db, Suc n) | Inr (x, db') \<Rightarrow> (Inr (Inr x), db', Suc n)))"

definition plan_ask :: "planning_env \<Rightarrow> EngineeringLedger \<Rightarrow> PlanningTurn \<Rightarrow> LedgerMutation planned" where
  "plan_ask env ledger turn = (\<lambda>(db, n). Some (pe_Plan env n ledger turn, db, Suc n))"

fun worker_pages :: "nat \<Rightarrow> planning_env \<Rightarrow> int \<Rightarrow> nat \<Rightarrow> CodingLedgerRevision option \<Rightarrow> CodingLedgerRevision planned" where
  \<comment> \<open>the pages of the current revision; a page of another revision starts the loop again\<close>
  "worker_pages 0 env ledgerID k sofar = (\<lambda>_. None)"
| "worker_pages (Suc fuel) env ledgerID k sofar =
     plan_bind (plan_context env) (\<lambda>_.
     plan_bind (plan_query env (ReadCodingLedger (pe_Database env) ledgerID (page_options 0 (int k * page_size)))) (\<lambda>r.
     case r of
       Inl e \<Rightarrow> plan_value (Inl (PlanStore e))
     | Inr p \<Rightarrow>
         (case (case sofar of
              None \<Rightarrow> Some (first_page p)
            | Some complete \<Rightarrow> if cr_Revision p \<noteq> cr_Revision complete then None else Some complete) of
            None \<Rightarrow> worker_pages fuel env ledgerID 0 None
          | Some complete \<Rightarrow>
              if int (length (led_Tasks (cr_Ledger p))) < page_size then plan_value (Inr (append_page complete p))
              else worker_pages fuel env ledgerID (Suc k) (Some (append_page complete p)))))"

definition worker_readCompleteCodingLedger :: "nat \<Rightarrow> planning_env \<Rightarrow> int \<Rightarrow> CodingLedgerRevision planned" where
  "worker_readCompleteCodingLedger fuel env ledgerID =
     plan_bind (worker_pages fuel env ledgerID 0 None) (\<lambda>complete.
       plan_value (case ValidateDraft (cr_Ledger complete) of Some e \<Rightarrow> Inl (PlanDraft e) | None \<Rightarrow> Inr complete))"

definition is_revision_error :: "store_error \<Rightarrow> bool" where
  \<comment> \<open>\<^verbatim>\<open>errors.Is(err, queue.ErrCodingLedgerRevision)\<close>\<close>
  "is_revision_error e \<longleftrightarrow> (case e of RevisionConflict _ _ \<Rightarrow> True | RowsChanged \<Rightarrow> True | _ \<Rightarrow> False)"

definition revision_failure :: "store_error + 'a \<Rightarrow> bool" where
  "revision_failure r \<longleftrightarrow> (case r of Inl e \<Rightarrow> is_revision_error e | Inr _ \<Rightarrow> False)"

definition returned :: "store_error + 'a \<Rightarrow> 'a planned" where
  "returned r = plan_value (map_sum PlanStore id r)"

definition planning_command :: "int \<Rightarrow> PlanningTurn \<Rightarrow> LedgerMutation \<Rightarrow> ApplyCodingLedgerMutationCommand" where
  "planning_command ledgerID turn m = \<lparr>ac_LedgerID = ledgerID, ac_OwnerTurnText = pt_Text turn, ac_Mutation = m, ac_Routes = []\<rparr>"

definition unchanged_command :: "int \<Rightarrow> PlanningTurn \<Rightarrow> int \<Rightarrow> ProposeUnchangedCodingLedgerCommand" where
  "unchanged_command ledgerID turn revision = \<lparr>pu_LedgerID = ledgerID, pu_Revision = revision, pu_OperationID = pt_OperationID turn,
     pu_OwnerTurnID = pt_OwnerTurnID turn, pu_OwnerTurnText = pt_Text turn\<rparr>"

fun planning_loop ::
    "nat \<Rightarrow> planning_env \<Rightarrow> int \<Rightarrow> bool \<Rightarrow> PlanningTurn \<Rightarrow> CodingLedgerRevision \<Rightarrow> LedgerMutation \<Rightarrow> CodingLedgerRevision planned" where
  "planning_loop 0 env ledgerID direct turn current m = (\<lambda>_. None)"
| "planning_loop (Suc fuel) env ledgerID direct turn current m =
     plan_bind (plan_context env) (\<lambda>_.
     if mut_Operations m = []
     then if cr_State current = LedgerRevising
       then plan_bind (plan_write env (ProposeUnchangedCodingLedger (pe_Database env) (unchanged_command ledgerID turn (cr_Revision current)))) (\<lambda>r.
         if \<not> revision_failure r then returned r
         else plan_bind (worker_readCompleteCodingLedger fuel env ledgerID) (\<lambda>latest. planning_loop fuel env ledgerID direct turn latest m))
       else plan_value (Inr current)
     else plan_bind (plan_write env (applyCodingLedgerMutation (pe_Database env) (planning_command ledgerID turn m) ActionPlanning)) (\<lambda>r.
       if \<not> revision_failure r \<or> direct then returned r
       else plan_bind (worker_readCompleteCodingLedger fuel env ledgerID) (\<lambda>latest.
         case rebasePlanningControls (cr_Ledger current) (cr_Ledger latest) m of
           (rebased, True) \<Rightarrow> planning_loop fuel env ledgerID direct turn latest rebased
         | (_, False) \<Rightarrow>
             let turn = turn\<lparr>pt_ObservedRevision := cr_Revision latest\<rparr> in
             plan_bind (plan_ask env (cr_Ledger latest) turn) (planning_loop fuel env ledgerID direct turn latest))))"

definition applyCodingLedgerPlanningTransaction ::
    "nat \<Rightarrow> planning_env \<Rightarrow> int \<Rightarrow> PlanningTurn \<Rightarrow> DirectPlanningAction option \<Rightarrow> CodingLedgerRevision planned" where
  "applyCodingLedgerPlanningTransaction fuel env ledgerID turn direct =
     plan_bind (worker_readCompleteCodingLedger fuel env ledgerID) (\<lambda>current.
     if cr_Revision current \<noteq> pt_ObservedRevision turn \<and> direct \<noteq> None
     then plan_value (Inl (PlanStore (RevisionConflict (pt_ObservedRevision turn) (cr_Revision current))))
     else let turn = turn\<lparr>pt_ObservedRevision := cr_Revision current\<rparr> in
       plan_bind (case direct of
           Some action \<Rightarrow> plan_value (map_sum PlanAction id (DirectPlanningMutation turn action))
         | None \<Rightarrow> plan_ask env (cr_Ledger current) turn)
         (planning_loop fuel env ledgerID (direct \<noteq> None) turn current))"

definition createCodingLedgerPlanningTransaction ::
    "planning_env \<Rightarrow> int \<Rightarrow> Configuration \<Rightarrow> int \<Rightarrow> PlanningTurn \<Rightarrow> ledger_db option \<Rightarrow> nat \<Rightarrow>
      planning_error + CodingLedgerRevision \<times> ledger_db" where
  \<comment> \<open>\<open>ledgerID\<close> is the identity the database would generate, \<open>existing\<close> the ledger the job may have already\<close>
  "createCodingLedgerPlanningTransaction env ledgerID configuration jobID turn existing n =
     bind_res (pe_Propose env n turn) (\<lambda>(ledger, disposition).
       map_sum PlanStore id (CreateCodingLedger (pe_Database env) ledgerID
         \<lparr>cc_JobID = jobID, cc_OperationID = pt_OperationID turn, cc_OwnerTurnID = pt_OwnerTurnID turn, cc_OwnerTurnText = pt_Text turn,
          cc_OwnerTurnDisposition = disposition, cc_Ledger = ledger, cc_Routes = codingLedgerPlanningRoutes configuration 1\<rparr> existing))"

section \<open>The task loop\<close>

record loop_env =
  le_Database :: database
  le_Environment :: environment
  le_Authorized :: "nat \<Rightarrow> bool"
  le_Others :: "nat \<Rightarrow> ledger_db \<Rightarrow> ledger_db"
  le_SessionMessages :: bool
  le_Messages :: "nat \<Rightarrow> task_error option"
  le_Replan :: "nat \<Rightarrow> ledger_db \<Rightarrow> store_error + bool \<times> ledger_db"
  le_Request :: "store_error + codingLedgerRequest"

record loop_state =
  lp_DB :: ledger_db
  lp_World :: world
  lp_Controller :: Controller
  lp_Clock :: nat

datatype loop_error = LoopStore store_error | LoopTask task_error | QueuedAmendments

definition runWithSessionMessages :: "loop_env \<Rightarrow> nat \<Rightarrow> (world \<Rightarrow> unit outcome option) \<Rightarrow> world \<Rightarrow> unit outcome option" where
  \<comment> \<open>\<open>le_SessionMessages\<close> is \<^verbatim>\<open>runtime.sessionMessages != nil\<close>; a failure at the message boundary (or of the context, while
    the run goes on) stops the run and is returned, joined with the error of the run\<close>
  "runWithSessionMessages env n run w =
     (let (stopped, w) = ctx_done (le_Environment env) w in
      if stopped then Some (Inl ContextDone, w)
      else if \<not> le_SessionMessages env then run w
      else case run w of
        None \<Rightarrow> None
      | Some (r, w) \<Rightarrow>
          (case (le_Messages env n, r) of
             (Some e, Inl f) \<Rightarrow> Some (Inl (JoinedErrors e f), w)
           | (Some e, Inr _) \<Rightarrow> Some (Inl e, w)
           | (None, Inl f) \<Rightarrow> Some (Inl f, w)
           | (None, Inr _) \<Rightarrow>
               (let (stopped, w) = ctx_done (le_Environment env) w in Some (if stopped then Inl ContextDone else Inr (), w))))"

definition commit_others :: "loop_env \<Rightarrow> loop_state \<Rightarrow> loop_state" where
  "commit_others env s = s\<lparr>lp_DB := le_Others env (lp_Clock s) (lp_DB s), lp_Clock := Suc (lp_Clock s)\<rparr>"

definition review_goal :: "loop_env \<Rightarrow> (task_error \<Rightarrow> string) \<Rightarrow> loop_state \<Rightarrow> ((loop_error + unit) \<times> loop_state) option" where
  "review_goal env message s =
     (case le_Request env of
        Inl e \<Rightarrow> Some (Inl (LoopStore e), s)
      | Inr request \<Rightarrow>
          (case runWithSessionMessages env (lp_Clock s) (\<lambda>w. Some (ReviewGoal (le_Environment env) (lp_Controller s) message
              \<lparr>obj_Instruction = rq_Instruction request, obj_Clarifications = rq_Feedback request\<rparr> w)) (lp_World s) of
             None \<Rightarrow> None
           | Some (r, w) \<Rightarrow> Some (map_sum LoopTask id r, s\<lparr>lp_World := w\<rparr>)))"

definition accept_and_replan :: "loop_env \<Rightarrow> string \<Rightarrow> loop_state \<Rightarrow> (loop_error + unit) \<times> loop_state" where
  \<comment> \<open>the end of an iteration, after the task ran without error\<close>
  "accept_and_replan env taskID s =
     (let c = lp_Controller s; n = lp_Clock s; s = commit_others env s in
      case AcceptCodingLedgerTask (le_Database env) (le_Authorized env n) (ct_Generation c) (w_Log (lp_World s)) (ct_JobID c) taskID (lp_DB s) of
        Inl e \<Rightarrow> (Inl (LoopStore e), s)
      | Inr db \<Rightarrow>
          let s = s\<lparr>lp_DB := db, lp_Controller := c\<lparr>ct_CompletedTaskIDs := ct_CompletedTaskIDs c @ [taskID]\<rparr>\<rparr>;
              n = lp_Clock s; s = commit_others env s in
          (case le_Replan env n (lp_DB s) of
             Inl e \<Rightarrow> (Inl (LoopStore e), s)
           | Inr (replanned, db) \<Rightarrow> (if replanned then Inl QueuedAmendments else Inr (), s\<lparr>lp_DB := db\<rparr>)))"

fun runCodingTaskLoop :: "nat \<Rightarrow> nat \<Rightarrow> loop_env \<Rightarrow> (task_error \<Rightarrow> string) \<Rightarrow> loop_state \<Rightarrow> ((loop_error + unit) \<times> loop_state) option" where
  \<comment> \<open>\<open>fuel\<close> bounds the tasks, \<open>turns\<close> the turns of one task\<close>
  "runCodingTaskLoop 0 turns env message s = None"
| "runCodingTaskLoop (Suc fuel) turns env message s =
     (let c = lp_Controller s; n = lp_Clock s; s = commit_others env s in
      case NextIncompleteCodingLedgerTask (le_Database env) (le_Authorized env n) (ct_JobID c) (lp_DB s) of
        Inl e \<Rightarrow> Some (Inl (LoopStore e), s)
      | Inr None \<Rightarrow> review_goal env message s
      | Inr (Some task) \<Rightarrow>
          (case runWithSessionMessages env (lp_Clock s) (RunTask turns (le_Environment env) c message task) (lp_World s) of
             None \<Rightarrow> None
           | Some (Inl e, w) \<Rightarrow> Some (Inl (LoopTask e), s\<lparr>lp_World := w\<rparr>)
           | Some (Inr _, w) \<Rightarrow>
               (case accept_and_replan env (tk_ID task) (s\<lparr>lp_World := w\<rparr>) of
                  (Inl e, s) \<Rightarrow> Some (Inl e, s)
                | (Inr _, s) \<Rightarrow> runCodingTaskLoop fuel turns env message s)))"

section \<open>Completion\<close>

definition requireCodingAgentCompletionTx :: "database \<Rightarrow> Mode \<Rightarrow> string \<Rightarrow> int \<Rightarrow> ledger_db option \<Rightarrow> store_error + ledger_db option" where
  \<comment> \<open>\<open>mode\<close> is the coding mode of the job's metadata, \<open>action\<close> that of the step, and the ledger the one of the job\<close>
  "requireCodingAgentCompletionTx env mode action jobID ledger =
     (if mode \<noteq> Agents \<or> action \<noteq> ''v3_coding'' then Inr ledger
      else case ledger of
        None \<Rightarrow> Inl NoRows
      | Some db \<Rightarrow>
          (case db_Frozen db of
             None \<Rightarrow> Inl (StateConflict (db_State db))
           | Some f \<Rightarrow>
               if db_State db \<noteq> LedgerFrozen \<or> f < 1 then Inl (StateConflict (db_State db))
               else map_sum id Some (materializeCodingTaskLedgerCompletionTx env f db)))"

end
