(* ===== verification/Query_Laws.thy ===== *)
theory Query_Laws
  imports Ledger_Queries Store_Samples
begin

text \<open>
  What the page-by-page query returns: one complete revision, whatever is written meanwhile.
\<close>

section \<open>Complete revisions\<close>

lemma selected_all: "selected env read_all v" "selected env (page_options n o1) v"
  by (simp_all add: selected_def read_all_def page_options_def)

lemma page_tasks:
  "read_tasks env r (page_options n (int k * page_size)) db = take 1000 (drop (1000 * k) (read_tasks env r read_all db))"
proof -
  have "page (ro_Limit (page_options n (int k * page_size))) (ro_Offset (page_options n (int k * page_size))) vs =
      take 1000 (drop (1000 * k) vs)" for vs :: "version_row list"
    by (simp add: page_def page_options_def page_size_def nat_mult_distrib mult.commute)
  moreover have "page (ro_Limit read_all) (ro_Offset read_all) vs = vs" for vs :: "version_row list"
    by (simp add: page_def read_all_def)
  ultimately show ?thesis by (simp add: read_tasks_def selected_all take_map drop_map)
qed

lemma revision_found:
  assumes "integrity db" "1 \<le> r" "r \<le> db_Current db"
  shows "\<exists>row. revision_at db r = Some row \<and> rw_Revision row = r"
proof -
  have "r \<in> set (map rw_Revision (db_Revisions db))" using assms by (simp add: integrity_def revisions_ok_def)
  then have "revision_at db r \<noteq> None" by (auto simp: revision_at_def)
  then obtain row where "revision_at db r = Some row" by blast
  then show ?thesis using first_with_Some unfolding revision_at_def by fastforce
qed

lemma read_page:
  assumes "integrity db" "1 \<le> r" "r \<le> db_Current db" "l = db_LedgerID db"
  shows "\<exists>p. readCodingLedgerRevisionTx env l r options db = Inr p \<and> cr_Revision p = r \<and>
    led_Tasks (cr_Ledger p) = read_tasks env r options db \<and> led_ID (cr_Ledger p) = codingLedgerExternalID l \<and>
    led_Revision (cr_Ledger p) = r \<and> cr_Routes p = read_routes env r db"
  using revision_found [OF assms(1-3)] assms(4) by (auto simp: readCodingLedgerRevisionTx_def Let_def)

lemma run_chain:
  assumes "\<And>k. (ledger_step env)\<^sup>*\<^sup>* (dbs k) (dbs (Suc k))"
  shows "(ledger_step env)\<^sup>*\<^sup>* (dbs 0) (dbs k)"
  by (induction k) (use assms in \<open>auto intro: rtranclp_trans\<close>)

lemma pages_read:
  assumes "\<And>k. \<exists>p. readCodingLedgerRevisionTx env ledgerID r (page_options r (int k * page_size)) (dbs k) = Inr p \<and>
      cr_Revision p = r \<and> led_Tasks (cr_Ledger p) = take 1000 (drop (1000 * k) full)"
    "0 < ledgerID" "1 \<le> r" "0 < k" "cr_Revision result = r" "led_Tasks (cr_Ledger result) = take (1000 * k) full"
    "length full < 1000 * (k + fuel)" "1000 * k \<le> length full"
  shows "complete_pages fuel env dbs ledgerID k r (Some result) =
    Some (Inr (result\<lparr>cr_Ledger := (cr_Ledger result)\<lparr>led_Tasks := full\<rparr>\<rparr>))"
  using assms(4-8)
proof (induction fuel arbitrary: k result)
  case (Suc fuel)
  obtain p where p: "readCodingLedgerRevisionTx env ledgerID r (page_options r (int k * page_size)) (dbs k) = Inr p"
      "cr_Revision p = r" "led_Tasks (cr_Ledger p) = take 1000 (drop (1000 * k) full)"
    using assms(1) by blast
  have read: "ReadCodingLedger env ledgerID (page_options r (int k * page_size)) (dbs k) = Inr p"
    using p(1) assms(2,3) by (simp add: ReadCodingLedger_def page_options_def page_size_def)
  have tasks: "led_Tasks (cr_Ledger (append_page result p)) = take (1000 * Suc k) full"
    using p(3) Suc.prems(3) by (simp add: append_page_def take_add [symmetric] add.commute)
  show ?case
  proof (cases "length full < 1000 * Suc k")
    case True
    then have "append_page result p = result\<lparr>cr_Ledger := (cr_Ledger result)\<lparr>led_Tasks := full\<rparr>\<rparr>"
      using tasks by (simp add: append_page_def)
    moreover have "int (length (led_Tasks (cr_Ledger p))) < page_size" using True Suc.prems(5) p(3) by (simp add: page_size_def)
    ultimately show ?thesis using read p(2) Suc.prems(2) by (simp add: Let_def)
  next
    case False
    then have "\<not> int (length (led_Tasks (cr_Ledger p))) < page_size" using p(3) by (simp add: page_size_def)
    then have "complete_pages (Suc fuel) env dbs ledgerID k r (Some result) =
        complete_pages fuel env dbs ledgerID (Suc k) r (Some (append_page result p))"
      using read p(2) Suc.prems(1,2) by (simp add: Let_def)
    moreover have "cr_Revision (append_page result p) = r" using Suc.prems(2) by (simp add: append_page_def)
    ultimately show ?thesis
      using Suc.IH [OF _ _ tasks] False Suc.prems(4) by (simp add: append_page_def)
  qed
qed simp

lemma length_read_all: "length (read_tasks env r read_all db) = length (projected db r)"
proof -
  have "page (ro_Limit read_all) (ro_Offset read_all) vs = vs" for vs :: "version_row list" by (simp add: page_def read_all_def)
  then show ?thesis by (simp add: read_tasks_def selected_all)
qed

lemma run_pages:
  assumes "ledger_reachable env (dbs 0)" "\<And>k. (ledger_step env)\<^sup>*\<^sup>* (dbs k) (dbs (Suc k))" "ledgerID = db_LedgerID (dbs 0)"
    "1 \<le> r" "r \<le> db_Current (dbs 0)"
  shows "\<exists>p. readCodingLedgerRevisionTx env ledgerID r (page_options n (int k * page_size)) (dbs k) = Inr p \<and> cr_Revision p = r \<and>
    led_Tasks (cr_Ledger p) = take 1000 (drop (1000 * k) (read_tasks env r read_all (dbs 0))) \<and>
    led_ID (cr_Ledger p) = codingLedgerExternalID ledgerID \<and> led_Revision (cr_Ledger p) = r \<and> cr_Routes p = read_routes env r (dbs 0)"
  using read_page [OF reachable_integrity [OF assms(1)] assms(4,5,3), of env "page_options n (int k * page_size)"]
    run_read_same [OF run_chain [of env dbs k, OF assms(2)] assms(1,5), of ledgerID "page_options n (int k * page_size)"]
  by (simp add: page_tasks)

lemma first_page_read:
  assumes "readCodingLedgerRevisionTx env ledgerID r (page_options revision 0) db = Inr p"
    "r = (if revision = 0 then db_Current db else revision)" "ledgerID = db_LedgerID db" "0 < ledgerID"
  shows "\<exists>s. ReadCodingLedger env ledgerID (page_options revision 0) db = Inr (p\<lparr>cr_State := s\<rparr>)"
proof -
  let ?s = "if revision = 0 \<and> db_State db = LedgerRevising then LedgerRevising else cr_State p"
  have "ReadCodingLedger env ledgerID (page_options revision 0) db = Inr (p\<lparr>cr_State := ?s\<rparr>)"
    using assms by (cases "revision = 0") (auto simp: ReadCodingLedger_def page_options_def page_size_def)
  then show ?thesis by blast
qed

text \<open>
  C15. Reading a revision page by page returns, and returns one revision. While other transactions run between the
  pages, the loop of \<^verbatim>\<open>readCompleteCodingLedger\<close> still ends after as many pages as the revision
  fills, without an error, and its tasks and routes are exactly those one single read of the revision would have
  returned when the loop began. Revision 0 stands for the revision that was current then.
\<close>

theorem complete_read_is_one_revision:
  assumes "ledger_reachable env (dbs 0)" "\<And>k. (ledger_step env)\<^sup>*\<^sup>* (dbs k) (dbs (Suc k))" "ledgerID = db_LedgerID (dbs 0)" "0 < ledgerID"
    "r = (if revision = 0 then db_Current (dbs 0) else revision)" "1 \<le> r" "r \<le> db_Current (dbs 0)"
    "length (projected (dbs 0) r) < 1000 * fuel"
  shows "\<exists>x y. readCompleteCodingLedger fuel env dbs ledgerID revision = Some (Inr x) \<and>
    readCodingLedgerRevisionTx env ledgerID r read_all (dbs 0) = Inr y \<and>
    cr_Ledger x = cr_Ledger y \<and> cr_Routes x = cr_Routes y \<and> cr_Revision x = r"
proof -
  let ?full = "read_tasks env r read_all (dbs 0)"
  note pages = run_pages [OF assms(1-3,6,7)]
  obtain y where y: "readCodingLedgerRevisionTx env ledgerID r read_all (dbs 0) = Inr y" "led_Tasks (cr_Ledger y) = ?full"
      "led_ID (cr_Ledger y) = codingLedgerExternalID ledgerID" "led_Revision (cr_Ledger y) = r" "cr_Routes y = read_routes env r (dbs 0)"
    using read_page [OF reachable_integrity [OF assms(1)] assms(6,7,3)] by blast
  obtain p where p: "readCodingLedgerRevisionTx env ledgerID r (page_options revision 0) (dbs 0) = Inr p" "cr_Revision p = r"
      "led_Tasks (cr_Ledger p) = take 1000 ?full" "led_ID (cr_Ledger p) = codingLedgerExternalID ledgerID" "led_Revision (cr_Ledger p) = r"
      "cr_Routes p = read_routes env r (dbs 0)"
    using pages [of revision 0] by auto
  obtain s where s: "ReadCodingLedger env ledgerID (page_options revision 0) (dbs 0) = Inr (p\<lparr>cr_State := s\<rparr>)"
    using first_page_read [OF p(1) assms(5,3,4)] by blast
  define result where "result = append_page (first_page (p\<lparr>cr_State := s\<rparr>)) (p\<lparr>cr_State := s\<rparr>)"
  have result: "cr_Revision result = r" "led_Tasks (cr_Ledger result) = take 1000 ?full" "cr_Routes result = cr_Routes y"
      "(cr_Ledger result)\<lparr>led_Tasks := ?full\<rparr> = cr_Ledger y"
    using p y by (simp_all add: result_def append_page_def first_page_def)
  obtain n where fuel: "fuel = Suc n" using assms(8) by (cases fuel) auto
  show ?thesis
  proof (cases "length ?full < 1000")
    case True
    then have "readCompleteCodingLedger fuel env dbs ledgerID revision = Some (Inr result)"
      using s p(3) by (simp add: fuel readCompleteCodingLedger_def result_def Let_def page_size_def)
    moreover have "(cr_Ledger result)\<lparr>led_Tasks := led_Tasks (cr_Ledger result)\<rparr> = cr_Ledger result" by simp
    then have "cr_Ledger result = cr_Ledger y" using True result(2,4) by simp
    ultimately show ?thesis using y(1) result by blast
  next
    case False
    then have "readCompleteCodingLedger fuel env dbs ledgerID revision = complete_pages n env dbs ledgerID (Suc 0) r (Some result)"
      using s p(2,3) by (simp add: fuel readCompleteCodingLedger_def result_def Let_def page_size_def)
    also have "\<dots> = Some (Inr (result\<lparr>cr_Ledger := (cr_Ledger result)\<lparr>led_Tasks := ?full\<rparr>\<rparr>))"
      using pages False assms(4,6,8) result(1,2) by (intro pages_read) (auto simp: fuel length_read_all)
    finally show ?thesis using y(1) result by simp
  qed
qed

theorem complete_read_is_one_revision_witness:
  "\<exists>x y. readCompleteCodingLedger 1 sample_database (\<lambda>k. if k = 0 then sample_db1 else sample_db3) 7 0 = Some (Inr x) \<and>
    readCodingLedgerRevisionTx sample_database 7 1 read_all sample_db1 = Inr y \<and> cr_Ledger x = cr_Ledger y"
proof -
  have run: "(ledger_step sample_database)\<^sup>*\<^sup>* sample_db1 sample_db3"
    using ledger_step.mutate [OF sample_agree_run] ledger_step.freeze [OF sample_freeze_run] by auto
  have facts: "7 = db_LedgerID sample_db1" "1 = db_Current sample_db1" "length (projected sample_db1 1) < 1000" by code_simp+
  have "\<exists>x y. readCompleteCodingLedger 1 sample_database (\<lambda>k. if k = 0 then sample_db1 else sample_db3) 7 0 = Some (Inr x) \<and>
      readCodingLedgerRevisionTx sample_database 7 1 read_all ((\<lambda>k. if k = 0 then sample_db1 else sample_db3) (0::nat)) = Inr y \<and>
      cr_Ledger x = cr_Ledger y \<and> cr_Routes x = cr_Routes y \<and> cr_Revision x = 1"
    by (rule complete_read_is_one_revision) (use run facts sample_reachable(1) in auto)
  then show ?thesis by auto
qed

end
