(* ===== verification/Worker_Laws.thy ===== *)
theory Worker_Laws
  imports Coding_Worker Query_Laws Controller_Progress Planning_Laws
begin

text \<open>
  What the planning transaction guarantees when it carries a plan over to a newer ledger: later owner controls win
  over the older plan.
\<close>

section \<open>Rebased controls\<close>

definition rank_in :: "ledger_map \<Rightarrow> LedgerItemID \<Rightarrow> int option" where
  "rank_in mp i = map_option task_Rank (mp i)"

definition keeps_rank :: "LedgerItemID \<Rightarrow> int \<Rightarrow> LedgerMutationOperation \<Rightarrow> bool" where
  "keeps_rank i r op \<longleftrightarrow> (op_TargetID op = i \<longrightarrow>
     (op_Kind op = LedgerMutationReorder \<longrightarrow> op_Rank op = Some r) \<and>
     (op_Kind op = LedgerMutationAmend \<longrightarrow> (\<forall>t. op_Payload op = Some t \<longrightarrow> task_Rank t = r)))"

lemma spec_operation_rank:
  assumes "spec_operation op mp = Some mp'" "keeps_rank i r op" "rank_in mp i = Some r"
  shows "rank_in mp' i = Some r"
  using assms
  by (auto simp: spec_operation_def keeps_rank_def rank_in_def tombstone_def revive_def propose_if_active_def
    split: LedgerMutationKind.splits option.splits if_splits)

lemma spec_operations_rank:
  assumes "spec_operations ops mp = Some mp'" "\<forall>op\<in>set ops. keeps_rank i r op" "rank_in mp i = Some r"
  shows "rank_in mp' i = Some r"
  using assms
proof (induction ops arbitrary: mp)
  case (Cons op ops)
  then obtain mid where "spec_operation op mp = Some mid" "spec_operations ops mid = Some mp'" by (auto simp: bind_eq_Some_conv)
  then show ?case using Cons spec_operation_rank by (metis list.set_intros)
qed simp

lemma rebase_keeps_rank:
  assumes "task_in base i = Some old" "task_in latest i = Some now" "task_Rank old \<noteq> task_Rank now"
  shows "keeps_rank i (task_Rank now) (rebase_operation base latest op)"
proof (cases "op_TargetID op = i")
  case True
  then show ?thesis
    using assms by (cases "op_Kind op") (auto simp: keeps_rank_def rebase_operation_def rebase_rank_def op_Payload_def Let_def bind_eq_Some_conv)
next
  case False
  have "op_TargetID (rebase_rank t op) = op_TargetID op" for t by (auto simp: rebase_rank_def split: LedgerMutationKind.split)
  then have "op_TargetID (rebase_operation base latest op) = op_TargetID op"
    by (auto simp: rebase_operation_def Let_def split: option.split)
  then show ?thesis using False by (simp add: keeps_rank_def)
qed

lemma task_in_map:
  assumes "distinct (map task_ID tasks)" "t \<in> set tasks"
  shows "task_in tasks (task_ID t) = Some t"
proof -
  have "distinct (map task_ID (rev tasks))" using assms(1) by (simp add: rev_map [symmetric])
  then show ?thesis unfolding task_in_def using assms(2) by (intro first_with_key_distinct) simp_all
qed


definition sample_moved :: EngineeringLedger where
  \<comment> \<open>the owner moved the second task while a plan was made\<close>
  "sample_moved = sample_ledger\<lparr>led_Revision := 4,
     led_Tasks := [sample_a, on_item (\<lambda>it. it\<lparr>item_Rank := 7\<rparr>) sample_b, sample_c]\<rparr>"

definition sample_plan :: LedgerMutation where
  "sample_plan = sample_mutation 3 [(sample_operation LedgerMutationReorder ''b'')\<lparr>op_Rank := Some 1\<rparr>]"

definition sample_rebased :: LedgerMutation where
  "sample_rebased = fst (rebasePlanningControls sample_ledger sample_moved sample_plan)"

lemma sample_rebase_facts:
  "rebasePlanningControls sample_ledger sample_moved sample_plan = (sample_rebased, True)" "ledger_utf8 sample_moved"
  "is_int64 (led_Revision sample_moved)" "sample_b \<in> set (led_Tasks sample_ledger)"
  "on_item (\<lambda>it. it\<lparr>item_Rank := 7\<rparr>) sample_b \<in> set (led_Tasks sample_moved)"
  "task_ID (on_item (\<lambda>it. it\<lparr>item_Rank := 7\<rparr>) sample_b) = task_ID sample_b"
  "task_Rank sample_b \<noteq> task_Rank (on_item (\<lambda>it. it\<lparr>item_Rank := 7\<rparr>) sample_b)"
  "\<not> isl (ApplyPlanningMutation sample_moved sample_rebased)"
  by code_simp+


end
