(* ===== verification/Loop_Laws.thy ===== *)
theory Loop_Laws
  imports Worker_Laws
begin

text \<open>
  The task loop of the worker: what it writes to the database rests on what the controller wrote to the journal, and it
  ends.
\<close>

section \<open>The journal\<close>

lemma ReviewGoal_grows:
  assumes "ReviewGoal env c message objective w = (r, w')" "quiet env"
  shows "grows acceptance_rule w w'"
proof -
  note calm = calm_quiet [OF assms(2)]
  note review = acceptance.review_keeps [where env = env, unfolded calm]
  have role: "as_Role ((assignment c Review None route)\<lparr>as_Objective := o1, as_Session := o2, as_Response := o3, as_Reply := o4\<rparr>) \<noteq> Execute"
    for route o1 o2 o3 o4 by (simp add: assignment_def Assignment_zero_def)
  from assms(1) show ?thesis
    unfolding ReviewGoal_def
  proof (elim and_thenE, goal_cases)
    case (1 e)
    then show ?case using quiet_ops(2) grows_same by metis
  next
    case (2 entries u)
    have u: "grows acceptance_rule w u" using 2(1) quiet_ops(2) grows_same by metis
    show ?case
    proof (cases "st_inputRequired (goal_state entries)")
      case None
      then show ?thesis
        using 2(2) u
        by (auto simp: Let_def elim!: and_thenE dest!: review [OF _ role] simp: acceptance.keeps_def split: if_splits prod.splits intro: grows_trans)
    qed (use 2(2) u in \<open>simp add: Let_def\<close>)
  qed
qed

lemma messages_grow:
  assumes "runWithSessionMessages env n run w = Some (r, w')" "\<And>u x v. run u = Some (x, v) \<Longrightarrow> grows allowed u v"
  shows "grows allowed w w'"
proof -
  obtain b u where u: "ctx_done (le_Environment env) w = (b, u)" by fastforce
  have wu: "grows allowed w u" using quiet_ops(4) [OF u] by (rule grows_same)
  show ?thesis
  proof (cases "b")
    case True
    then show ?thesis using assms(1) u wu by (simp add: runWithSessionMessages_def)
  next
    case False
    then obtain x v where v: "run u = Some (x, v)" using assms(1) u by (auto simp: runWithSessionMessages_def split: option.splits if_splits)
    obtain b' v' where v': "ctx_done (le_Environment env) v = (b', v')" by fastforce
    have "w' = v \<or> w' = v'"
      using assms(1) u v v' False by (auto simp: runWithSessionMessages_def split: option.splits sum.splits if_splits)
    moreover have "grows allowed v v'" using quiet_ops(4) [OF v'] by (rule grows_same)
    ultimately show ?thesis using wu assms(2) [OF v] grows_trans by blast
  qed
qed

section \<open>Acceptances\<close>

definition verdict_in :: "int \<Rightarrow> Entry list \<Rightarrow> LedgerItemID \<Rightarrow> bool" where
  "verdict_in generation journal i \<longleftrightarrow>
     (\<exists>e\<in>set journal. en_Phase e = PhaseTaskAccepted \<and> en_TaskID e = i \<and> en_Generation e = generation)"

lemma accepted_by_verdict:
  assumes "AcceptCodingLedgerTask env authorized generation journal jobID taskID db = Inr db'" "accepted_row db' r i"
  shows "accepted_row db r i \<or> verdict_in generation journal i"
proof (cases "db' = db")
  case False
  then obtain f t where t: "queue_row db f taskID = Some t" "accept_task env generation journal t db = Inr db'"
    using assms(1) by (auto simp: AcceptCodingLedgerTask_def split: if_splits option.splits agent_task_state.splits)
  have "at_ItemID t = taskID" using t(1) by (auto simp: queue_row_def dest: first_with_Some)
  moreover have "journal_accepted generation journal (at_ItemID t)"
      "db' = db\<lparr>db_Tasks := map (\<lambda>u. if at_Revision u = at_Revision t \<and> at_ItemID u = at_ItemID t \<and> at_State u = TaskReady
        then u\<lparr>at_State := TaskAccepted, at_Version := at_Version u + 1\<rparr> else u) (db_Tasks db)\<rparr>"
    using t(2) by (auto simp: accept_task_def exec_def split: if_splits)
  moreover have "verdict_in generation journal taskID" if "journal_accepted generation journal taskID"
    using that by (auto simp: journal_accepted_def verdict_in_def split: option.splits dest!: first_with_Some)
  ultimately show ?thesis using assms(2) by (auto simp: accepted_row_def split: if_splits)
qed (use assms in simp)

definition accepts_nothing :: "(ledger_db \<Rightarrow> ledger_db) \<Rightarrow> bool" where
  "accepts_nothing f \<longleftrightarrow> (\<forall>db r i. accepted_row (f db) r i \<longrightarrow> accepted_row db r i)"

definition others_accept_nothing :: "loop_env \<Rightarrow> bool" where
  \<comment> \<open>an acceptance needs the step attempt, which the worker holds\<close>
  "others_accept_nothing env \<longleftrightarrow> (\<forall>n. accepts_nothing (le_Others env n)) \<and>
     (\<forall>n db b db'. le_Replan env n db = Inr (b, db') \<longrightarrow> (\<forall>r i. accepted_row db' r i \<longrightarrow> accepted_row db r i))"

definition rests_on_journal :: "loop_state \<Rightarrow> loop_state \<Rightarrow> bool" where
  "rests_on_journal s s' \<longleftrightarrow> grows acceptance_rule (lp_World s) (lp_World s') \<and>
     ct_Generation (lp_Controller s') = ct_Generation (lp_Controller s) \<and>
     (\<forall>r i. accepted_row (lp_DB s') r i \<longrightarrow>
        accepted_row (lp_DB s) r i \<or> verdict_in (ct_Generation (lp_Controller s)) (w_Log (lp_World s')) i)"

lemma rests_on_journal_refl: "rests_on_journal s s"
  by (simp add: rests_on_journal_def grows_same)

lemma verdict_in_grows: "verdict_in g (w_Log w) i \<Longrightarrow> grows a w w' \<Longrightarrow> verdict_in g (w_Log w') i"
  by (auto simp: verdict_in_def grows_def)

lemma rests_on_journal_trans: "rests_on_journal a b \<Longrightarrow> rests_on_journal b c \<Longrightarrow> rests_on_journal a c"
  unfolding rests_on_journal_def using grows_trans verdict_in_grows by metis

lemma commit_others_rests: "others_accept_nothing env \<Longrightarrow> rests_on_journal s (commit_others env s)"
  by (auto simp: rests_on_journal_def commit_others_def others_accept_nothing_def accepts_nothing_def grows_same)

lemma world_rests: "grows acceptance_rule (lp_World s) w \<Longrightarrow> rests_on_journal s (s\<lparr>lp_World := w\<rparr>)"
  by (simp add: rests_on_journal_def)

lemma accept_rests:
  assumes "accept_and_replan env taskID s = (r, s')" "others_accept_nothing env"
  shows "rests_on_journal s s'"
proof -
  let ?s1 = "commit_others env s" and ?c = "lp_Controller s"
  have s1: "rests_on_journal s ?s1" by (rule commit_others_rests [OF assms(2)])
  show ?thesis
  proof (cases "AcceptCodingLedgerTask (le_Database env) (le_Authorized env (lp_Clock s)) (ct_Generation ?c) (w_Log (lp_World ?s1))
      (ct_JobID ?c) taskID (lp_DB ?s1)")
    case (Inl e)
    then show ?thesis using assms(1) s1 by (simp add: accept_and_replan_def Let_def)
  next
    case (Inr db)
    let ?s2 = "?s1\<lparr>lp_DB := db, lp_Controller := ?c\<lparr>ct_CompletedTaskIDs := ct_CompletedTaskIDs ?c @ [taskID]\<rparr>\<rparr>"
    have "lp_Controller ?s1 = ?c" by (simp add: commit_others_def)
    then have s2: "rests_on_journal ?s1 ?s2"
      using accepted_by_verdict [OF Inr] by (auto simp: rests_on_journal_def grows_same)
    let ?s3 = "commit_others env ?s2"
    have s3: "rests_on_journal ?s2 ?s3" by (rule commit_others_rests [OF assms(2)])
    have "s' = ?s3 \<or> (\<exists>b d. le_Replan env (lp_Clock ?s2) (lp_DB ?s3) = Inr (b, d) \<and> s' = ?s3\<lparr>lp_DB := d\<rparr>)"
      using assms(1) Inr by (auto simp: accept_and_replan_def Let_def split: sum.splits prod.splits if_splits)
    then have "rests_on_journal ?s3 s'"
      using assms(2) by (auto simp: rests_on_journal_refl rests_on_journal_def others_accept_nothing_def grows_same)
    then show ?thesis using s1 s2 s3 rests_on_journal_trans by blast
  qed
qed

lemma review_goal_rests:
  assumes "review_goal env message s = Some (r, s')" "quiet (le_Environment env)"
  shows "rests_on_journal s s'"
proof (cases "le_Request env")
  case (Inl e)
  then show ?thesis using assms(1) by (simp add: review_goal_def rests_on_journal_refl)
next
  case (Inr request)
  let ?goal = "\<lambda>w. Some (ReviewGoal (le_Environment env) (lp_Controller s) message
    \<lparr>obj_Instruction = rq_Instruction request, obj_Clarifications = rq_Feedback request\<rparr> w)"
  obtain x w where w: "runWithSessionMessages env (lp_Clock s) ?goal (lp_World s) = Some (x, w)" "s' = s\<lparr>lp_World := w\<rparr>"
    using assms(1) Inr by (auto simp: review_goal_def split: option.splits)
  have "grows acceptance_rule (lp_World s) w"
    by (rule messages_grow [OF w(1)]) (use ReviewGoal_grows [OF _ assms(2)] in blast)
  then show ?thesis unfolding w(2) by (rule world_rests)
qed

lemma loop_rests:
  assumes "runCodingTaskLoop fuel turns env message s = Some (r, s')" "quiet (le_Environment env)" "others_accept_nothing env"
  shows "rests_on_journal s s'"
  using assms(1)
proof (induction fuel arbitrary: s)
  case (Suc fuel)
  let ?s1 = "commit_others env s" and ?c = "lp_Controller s"
  have s1: "rests_on_journal s ?s1" by (rule commit_others_rests [OF assms(3)])
  show ?case
  proof (cases "NextIncompleteCodingLedgerTask (le_Database env) (le_Authorized env (lp_Clock s)) (ct_JobID ?c) (lp_DB ?s1)")
    case (Inl e)
    then show ?thesis using Suc.prems s1 by (simp add: Let_def)
  next
    case (Inr found)
    show ?thesis
    proof (cases found)
      case None
      then have "review_goal env message ?s1 = Some (r, s')" using Suc.prems Inr by (simp add: Let_def)
      then show ?thesis using s1 review_goal_rests [OF _ assms(2)] rests_on_journal_trans by blast
    next
      case (Some task)
      then obtain x w where w: "runWithSessionMessages env (lp_Clock ?s1) (RunTask turns (le_Environment env) ?c message task) (lp_World ?s1) = Some (x, w)"
        using Suc.prems Inr by (auto simp: Let_def split: option.splits)
      have "grows acceptance_rule (lp_World ?s1) w"
        by (rule messages_grow [OF w]) (use acceptance.RunTask_grows [where env = "le_Environment env", unfolded calm_quiet [OF assms(2)]] in blast)
      then have s2: "rests_on_journal ?s1 (?s1\<lparr>lp_World := w\<rparr>)" by (rule world_rests)
      show ?thesis
      proof (cases x)
        case (Inl e)
        then show ?thesis using Suc.prems Inr Some w s1 s2 rests_on_journal_trans by (auto simp: Let_def)
      next
        case (Inr u)
        obtain y s3 where s3: "accept_and_replan env (tk_ID task) (?s1\<lparr>lp_World := w\<rparr>) = (y, s3)" by fastforce
        have "rests_on_journal s s3" using accept_rests [OF s3 assms(3)] s1 s2 rests_on_journal_trans by blast
        then show ?thesis
          using Suc.prems \<open>_ = Inr found\<close> Some w Inr s3 Suc.IH rests_on_journal_trans by (auto simp: Let_def split: sum.splits)
      qed
    qed
  qed
qed simp


definition sample_loop :: "environment \<Rightarrow> loop_env" where
  "sample_loop environment =
     \<lparr>le_Database = sample_database, le_Environment = environment, le_Authorized = \<lambda>_. True, le_Others = \<lambda>_ db. db,
      le_SessionMessages = True, le_Messages = \<lambda>_. None, le_Replan = \<lambda>_ db. Inr (False, db), le_Request = Inl CommandIncomplete\<rparr>"

definition sample_start :: loop_state where
  "sample_start = \<lparr>lp_DB = sample_db3, lp_World = \<lparr>w_Log = sample_verdict, w_Clock = 0\<rparr>,
     lp_Controller = sample_controller\<lparr>ct_JobID := 5\<rparr>, lp_Clock = 0\<rparr>"

definition sample_end :: "((loop_error + unit) \<times> loop_state) option" where
  "sample_end = runCodingTaskLoop 2 1 (sample_loop sample_env) (\<lambda>_. []) sample_start"

lemma sample_end_facts: "sample_end \<noteq> None"
    "list_ex (\<lambda>t. at_Revision t = 3 \<and> at_ItemID t = ''a'' \<and> at_State t = TaskAccepted) (db_Tasks (lp_DB (snd (the sample_end))))"
    "\<not> list_ex (\<lambda>t. at_Revision t = 3 \<and> at_ItemID t = ''a'' \<and> at_State t = TaskAccepted) (db_Tasks (lp_DB sample_start))"
    "w_Log (lp_World (snd (the sample_end))) = sample_verdict"
  by code_simp+


section \<open>The loop ends\<close>

definition ready_count :: "ledger_db \<Rightarrow> nat" where
  "ready_count db = length (filter (\<lambda>t. at_State t = TaskReady) (db_Tasks db))"

lemma next_task:
  assumes "NextIncompleteCodingLedgerTask env authorized jobID db = Inr (Some task)" "integrity db"
  shows "\<exists>t f. t \<in> set (db_Tasks db) \<and> at_State t = TaskReady \<and> db_Frozen db = Some f \<and> at_Revision t = f \<and> at_ItemID t = tk_ID task"
proof -
  obtain t v rest where head: "sort_key (\<lambda>(t, v). (vs_Rank v, at_FairnessKey t)) (ready_rows db) = (t, v) # rest"
      "task = task_packet (dbe_Text env (vs_Payload v)) (vs_Payload v)"
    using assms(1) by (auto simp: NextIncompleteCodingLedgerTask_def split: if_splits list.splits)
  have "(t, v) \<in> set (ready_rows db)" using head(1) by (metis list.set_intros(1) set_sort)
  then have f: "db_Frozen db = Some (at_Revision t)" "t \<in> set (db_Tasks db)" "at_State t = TaskReady"
      "version_in db (at_Revision t) (at_ItemID t) = Some v"
    by (auto simp: ready_rows_def split: ledger_state.splits option.splits)
  have "v \<in> set (projected db (at_Revision t))" "vs_ItemID v = at_ItemID t" using f(4) by (auto simp: version_in_def dest: first_with_Some)
  then have "task_ID (vs_Payload v) = at_ItemID t"
    using projected_in assms(2) by (fastforce simp: integrity_def content_ok_def version_ok_def)
  then show ?thesis using f head(2) by (auto simp: task_packet_def)
qed

lemma ready_map_less:
  assumes "t \<in> set ts" "at_State t = TaskReady" "at_State (g t) \<noteq> TaskReady" "\<And>u. at_State (g u) = TaskReady \<Longrightarrow> at_State u = TaskReady"
  shows "length (filter (\<lambda>t. at_State t = TaskReady) (map g ts)) < length (filter (\<lambda>t. at_State t = TaskReady) ts)"
proof -
  have le: "length (filter (\<lambda>t. at_State t = TaskReady) (map g us)) \<le> length (filter (\<lambda>t. at_State t = TaskReady) us)" for us
    using assms(4) by (induction us) (auto simp: le_SucI)
  obtain xs ys where "ts = xs @ t # ys" using assms(1) by (meson split_list)
  then show ?thesis using le [of xs] le [of ys] assms(2,3) by simp
qed

lemma accept_decreases:
  assumes "AcceptCodingLedgerTask env authorized generation journal jobID i db = Inr db'" "integrity db"
    "t \<in> set (db_Tasks db)" "at_State t = TaskReady" "db_Frozen db = Some (at_Revision t)" "at_ItemID t = i"
  shows "ready_count db' < ready_count db"
proof -
  have "queue_row db (at_Revision t) i = Some t"
    using first_with_key_distinct [of "\<lambda>t. (at_Revision t, at_ItemID t)" "db_Tasks db" t] assms(2,3,6)
    by (simp add: queue_row_def integrity_def queue_ok_def)
  then have "accept_task env generation journal t db = Inr db'"
    using assms(1,4,5) by (auto simp: AcceptCodingLedgerTask_def split: if_splits option.splits)
  then have db': "db_Tasks db' = map (\<lambda>u. if at_Revision u = at_Revision t \<and> at_ItemID u = at_ItemID t \<and> at_State u = TaskReady
      then u\<lparr>at_State := TaskAccepted, at_Version := at_Version u + 1\<rparr> else u) (db_Tasks db)"
    by (auto simp: accept_task_def exec_def split: if_splits)
  show ?thesis
    unfolding ready_count_def db' using assms(3,4) by (intro ready_map_less [of t]) (auto split: if_splits)
qed

definition leaves_queue :: "database \<Rightarrow> ledger_db \<Rightarrow> ledger_db \<Rightarrow> bool" where
  "leaves_queue env db db' \<longleftrightarrow> (ledger_step env)\<^sup>*\<^sup>* db db' \<and> db_Tasks db' = db_Tasks db \<and> db_Frozen db' = db_Frozen db"

definition others_leave_queue :: "loop_env \<Rightarrow> bool" where
  \<comment> \<open>others run the repository's transactions but leave the frozen queue alone; a replan ends the loop\<close>
  "others_leave_queue env \<longleftrightarrow> (\<forall>n db. leaves_queue (le_Database env) db (le_Others env n db)) \<and>
     (\<forall>n db db'. le_Replan env n db = Inr (False, db') \<longrightarrow> leaves_queue (le_Database env) db db')"

lemma reachable_run: "(ledger_step env)\<^sup>*\<^sup>* db db' \<Longrightarrow> ledger_reachable env db \<Longrightarrow> ledger_reachable env db'"
  by (induction rule: rtranclp_induct) (auto intro: ledger_reachable.stepped)

lemma commit_others_leaves:
  assumes "others_leave_queue env" "ledger_reachable (le_Database env) (lp_DB s)"
  shows "ledger_reachable (le_Database env) (lp_DB (commit_others env s))" "db_Tasks (lp_DB (commit_others env s)) = db_Tasks (lp_DB s)"
    "db_Frozen (lp_DB (commit_others env s)) = db_Frozen (lp_DB s)" "lp_Controller (commit_others env s) = lp_Controller s"
proof -
  have "leaves_queue (le_Database env) (lp_DB s) (lp_DB (commit_others env s))"
    using assms(1) by (simp add: commit_others_def others_leave_queue_def)
  then show "ledger_reachable (le_Database env) (lp_DB (commit_others env s))" "db_Tasks (lp_DB (commit_others env s)) = db_Tasks (lp_DB s)"
    "db_Frozen (lp_DB (commit_others env s)) = db_Frozen (lp_DB s)"
    using reachable_run assms(2) unfolding leaves_queue_def by blast+
qed (simp add: commit_others_def)

lemma sort_key_Nil: "sort_key f xs = [] \<longleftrightarrow> xs = []"
  by (metis length_0_conv length_sort)

lemma messages_return:
  assumes "\<And>u. run u \<noteq> None"
  shows "runWithSessionMessages env n run w \<noteq> None"
proof -
  obtain b u where u: "ctx_done (le_Environment env) w = (b, u)" by fastforce
  obtain x v where v: "run u = Some (x, v)" using assms [of u] by fastforce
  obtain b' v' where v': "ctx_done (le_Environment env) v = (b', v')" by fastforce
  show ?thesis unfolding runWithSessionMessages_def u v Let_def by (auto simp: v v' split: option.split sum.split)
qed

lemma iteration_progress:
  assumes "accept_and_replan env (tk_ID task) s = (Inr u, s')" "others_leave_queue env" "ledger_reachable (le_Database env) (lp_DB s)"
    "t \<in> set (db_Tasks (lp_DB s))" "at_State t = TaskReady" "db_Frozen (lp_DB s) = Some (at_Revision t)" "at_ItemID t = tk_ID task"
  shows "ledger_reachable (le_Database env) (lp_DB s') \<and> ready_count (lp_DB s') < ready_count (lp_DB s)"
proof -
  let ?s1 = "commit_others env s" and ?c = "lp_Controller s"
  note s1 = commit_others_leaves [OF assms(2,3)]
  obtain db where db: "AcceptCodingLedgerTask (le_Database env) (le_Authorized env (lp_Clock s)) (ct_Generation ?c) (w_Log (lp_World ?s1))
      (ct_JobID ?c) (tk_ID task) (lp_DB ?s1) = Inr db"
    using assms(1) by (auto simp: accept_and_replan_def Let_def split: sum.splits)
  let ?s2 = "?s1\<lparr>lp_DB := db, lp_Controller := ?c\<lparr>ct_CompletedTaskIDs := ct_CompletedTaskIDs ?c @ [tk_ID task]\<rparr>\<rparr>"
  have db_ok: "ledger_reachable (le_Database env) (lp_DB ?s2)"
    using ledger_reachable.stepped [OF s1(1) ledger_step.accept [OF db]] by simp
  have less: "ready_count db < ready_count (lp_DB s)"
    using accept_decreases [OF db reachable_integrity [OF s1(1)]] assms(4-7) s1(2,3) by (simp add: ready_count_def)
  note s3 = commit_others_leaves [OF assms(2) db_ok]
  obtain d where d: "le_Replan env (lp_Clock ?s2) (lp_DB (commit_others env ?s2)) = Inr (False, d)" "lp_DB s' = d"
    using assms(1) db by (auto simp: accept_and_replan_def Let_def split: sum.splits prod.splits if_splits)
  then have "leaves_queue (le_Database env) (lp_DB (commit_others env ?s2)) d" using assms(2) by (auto simp: others_leave_queue_def)
  then show ?thesis using d(2) s3 less reachable_run by (auto simp: leaves_queue_def ready_count_def)
qed

lemma review_goal_returns: "\<exists>r w. review_goal env message s = Some (r, s\<lparr>lp_World := w\<rparr>)"
proof (cases "le_Request env")
  case (Inl e)
  have "review_goal env message s = Some (Inl (LoopStore e), s\<lparr>lp_World := lp_World s\<rparr>)" using Inl by (simp add: review_goal_def)
  then show ?thesis by blast
next
  case (Inr request)
  let ?goal = "\<lambda>w. Some (ReviewGoal (le_Environment env) (lp_Controller s) message
    \<lparr>obj_Instruction = rq_Instruction request, obj_Clarifications = rq_Feedback request\<rparr> w)"
  have "runWithSessionMessages env (lp_Clock s) ?goal (lp_World s) \<noteq> None" by (rule messages_return) simp
  then obtain x w where "runWithSessionMessages env (lp_Clock s) ?goal (lp_World s) = Some (x, w)" by auto
  then have "review_goal env message s = Some (map_sum LoopTask id x, s\<lparr>lp_World := w\<rparr>)" using Inr by (simp add: review_goal_def)
  then show ?thesis by blast
qed

lemma pass_progress:
  assumes "NextIncompleteCodingLedgerTask (le_Database env) authorized jobID (lp_DB s) = Inr (Some task)" "others_leave_queue env"
    "ledger_reachable (le_Database env) (lp_DB s)" "accept_and_replan env (tk_ID task) (s\<lparr>lp_World := w\<rparr>) = (Inr u, s')"
  shows "ledger_reachable (le_Database env) (lp_DB s') \<and> ready_count (lp_DB s') < ready_count (lp_DB s)"
proof -
  obtain t where t: "t \<in> set (db_Tasks (lp_DB s))" "at_State t = TaskReady" "db_Frozen (lp_DB s) = Some (at_Revision t)"
      "at_ItemID t = tk_ID task"
    using next_task [OF assms(1) reachable_integrity [OF assms(3)]] by blast
  show ?thesis using iteration_progress [of env task "s\<lparr>lp_World := w\<rparr>" u s' t] assms(2-4) t by simp
qed

lemma loop_ends:
  assumes "\<And>c task w. RunTask turns (le_Environment env) c message task w \<noteq> None" "others_leave_queue env"
    "ledger_reachable (le_Database env) (lp_DB s)" "ready_count (lp_DB s) < fuel"
  shows "\<exists>r s'. runCodingTaskLoop fuel turns env message s = Some (r, s') \<and>
    (r = Inr () \<longrightarrow> db_JobID (lp_DB s') \<noteq> ct_JobID (lp_Controller s') \<or> ready_rows (lp_DB s') = [])"
  using assms(3,4)
proof (induction fuel arbitrary: s)
  case (Suc fuel)
  let ?s1 = "commit_others env s" and ?c = "lp_Controller s"
  note s1 = commit_others_leaves [OF assms(2) Suc.prems(1)]
  show ?case
  proof (cases "NextIncompleteCodingLedgerTask (le_Database env) (le_Authorized env (lp_Clock s)) (ct_JobID ?c) (lp_DB ?s1)")
    case (Inl e)
    then show ?thesis by (simp add: Let_def)
  next
    case (Inr found)
    show ?thesis
    proof (cases found)
      case None
      have "ct_JobID ?c \<noteq> db_JobID (lp_DB ?s1) \<or> ready_rows (lp_DB ?s1) = []"
        using Inr None by (auto simp: NextIncompleteCodingLedgerTask_def sort_key_Nil split: if_splits list.splits)
      moreover obtain r w where "review_goal env message ?s1 = Some (r, ?s1\<lparr>lp_World := w\<rparr>)" using review_goal_returns by blast
      ultimately show ?thesis using Inr None s1(4) by (auto simp: Let_def)
    next
      case (Some task)
      then obtain x w where w: "runWithSessionMessages env (lp_Clock ?s1) (RunTask turns (le_Environment env) ?c message task) (lp_World ?s1) = Some (x, w)"
        using messages_return [OF assms(1)] by fast
      show ?thesis
      proof (cases x)
        case (Inl e)
        then show ?thesis using Inr Some w by (simp add: Let_def)
      next
        case x: (Inr v)
        obtain y s3 where s3: "accept_and_replan env (tk_ID task) (?s1\<lparr>lp_World := w\<rparr>) = (y, s3)" by fastforce
        show ?thesis
        proof (cases y)
          case (Inl e)
          then show ?thesis using Inr Some w x s3 by (simp add: Let_def)
        next
          case y: (Inr u)
          have "ledger_reachable (le_Database env) (lp_DB s3) \<and> ready_count (lp_DB s3) < ready_count (lp_DB ?s1)"
            using pass_progress [OF _ assms(2) s1(1)] Inr Some s3 y by blast
          moreover have "ready_count (lp_DB ?s1) = ready_count (lp_DB s)" using s1(2) by (simp add: ready_count_def)
          ultimately show ?thesis using Suc.IH [of s3] Suc.prems(2) Inr Some w x s3 y by (simp add: Let_def)
        qed
      qed
    qed
  qed
qed simp

text \<open>
  C12. The task loop ends. If every run of a single task returns and other transactions leave the frozen queue alone,
  the loop returns after at most one pass more than the queue has ready tasks, from whatever journal it starts: no
  accepted task is scheduled again. If it returns without error, no task of the job's frozen ledger is left to do.
\<close>

theorem task_loop_ends:
  assumes "\<And>c task w. RunTask turns (le_Environment env) c message task w \<noteq> None" "others_leave_queue env"
    "ledger_reachable (le_Database env) (lp_DB s)" "length (filter (\<lambda>t. at_State t = TaskReady) (db_Tasks (lp_DB s))) < fuel"
  shows "\<exists>r s'. runCodingTaskLoop fuel turns env message s = Some (r, s') \<and>
    (r = Inr () \<longrightarrow> db_JobID (lp_DB s') \<noteq> ct_JobID (lp_Controller s') \<or> ready_rows (lp_DB s') = [])"
  by (rule loop_ends [OF assms(1-3)]) (use assms(4) in \<open>simp add: ready_count_def\<close>)

theorem task_loop_ends_witness:
  "\<exists>r s'. runCodingTaskLoop 2 6 (sample_loop sample_cancelled) (\<lambda>_. []) sample_start = Some (r, s')"
proof -
  have "RunTask (Suc 5) sample_cancelled c (\<lambda>_. []) task w \<noteq> None" for c task w
    using RunTask_returns [of 5 sample_cancelled c "\<lambda>_. []" task w] by (auto simp: sample_cancelled_def)
  then have "RunTask 6 (le_Environment (sample_loop sample_cancelled)) c (\<lambda>_. []) task w \<noteq> None" for c task w
    by (simp add: sample_loop_def)
  moreover have "others_leave_queue (sample_loop sample_cancelled)"
    by (simp add: others_leave_queue_def leaves_queue_def sample_loop_def)
  moreover have "ledger_reachable (le_Database (sample_loop sample_cancelled)) (lp_DB sample_start)"
    using sample_reachable(3) by (simp add: sample_loop_def sample_start_def)
  moreover have "length (filter (\<lambda>t. at_State t = TaskReady) (db_Tasks (lp_DB sample_start))) < 2" by code_simp
  ultimately show ?thesis using task_loop_ends by blast
qed

end
