(* ===== verification/Spec2Isabelle.thy ===== *)
theory Spec2Isabelle
  imports Planning_Laws Exact_Laws Ordering_Laws Controller_Restart Repository_Laws Store_Promises Loop_Laws
begin

text \<open>
  \<^bold>\<open>Verification of the coding ledger of Omnidex.\<close>

  A coding job of Omnidex is planned in a conversation, agreed task by task, frozen, and worked off by agents whose
  results are reviewed. The ledger of the job is the authority over all of it. This development models the path of a
  task through the program: from the owner's words to a revision of the ledger, from the frozen revision to a queue,
  and from the queue through execution and review to an acceptance.

  \<^bold>\<open>Parts and theories.\<close> Paths are relative to \<^verbatim>\<open>src/\<close>.

  \<^item> \<open>Omni_Prelude\<close>: errors as values, Go strings as bytes, 64-bit integers with their wrap-around, and the
    generic facts on lists that the components share.
  \<^item> \<open>Ledger\<close>: the types and validators of \<^verbatim>\<open>internal/model/coding_ledger.go\<close>.
  \<^item> \<open>Revisioned_Store\<close>: the contract of a store under optimistic concurrency, a locale.
    \<open>Planning_Apply\<close> models \<^verbatim>\<open>ApplyPlanningMutation\<close> and interprets it;
    \<open>Planning_Order\<close>, \<open>Planning_Actions\<close> and \<open>Planning_Details\<close> model the owner's direct actions,
    moves, prerequisites and the binding of parsed answers (\<^verbatim>\<open>internal/codingagent/planning_*.go\<close>).
    \<open>Planning_Laws\<close> has their properties.
  \<^item> \<open>Coding_Contracts\<close>, \<open>Task_Ordering\<close> with \<open>Contract_Laws\<close>, \<open>Ordering_Laws\<close>: the boundary to the
    agents, and the order a model proposes for tasks (\<^verbatim>\<open>contracts.go\<close>,
    \<^verbatim>\<open>assignment_context.go\<close>, \<^verbatim>\<open>task_ordering.go\<close>,
    \<^verbatim>\<open>planning_ordering.go\<close>).
  \<^item> \<open>Go_JSON\<close>, \<open>Exact_JSON\<close>, \<open>Exact_Fields\<close> with \<open>Exact_Laws\<close>: JSON texts, and the package
    \<^verbatim>\<open>internal/exactjson\<close> that decides which of them are contracts.
  \<^item> \<open>Task_State\<close>, \<open>Task_Controller\<close>: the state that the journal determines, and the controller that
    executes, interprets and reviews one task (\<^verbatim>\<open>task.go\<close>, \<^verbatim>\<open>review.go\<close>).
    \<open>Journal_Rules\<close> is the locale of rules on journal entries with its two interpretations;
    \<open>Controller_Laws\<close>, \<open>Controller_Progress\<close> and \<open>Controller_Restart\<close> have the properties.
  \<^item> \<open>Ledger_Repository\<close>, \<open>Ledger_Store\<close>, \<open>Ledger_Transactions\<close>, \<open>Ledger_Lifecycle\<close>,
    \<open>Ledger_Queries\<close>: the checks, tables, triggers, transactions and queries of a stored ledger
    (\<^verbatim>\<open>internal/queue/coding_*.go\<close>, \<^verbatim>\<open>database/setup.sql\<close>).
    \<open>Store_Rules\<close> has the runs of the repository and the locale of rules on the tables;
    \<open>Store_Integrity\<close> interprets it twice; \<open>Store_Laws\<close> and \<open>Store_Freeze\<close> follow the stored
    revisions; \<open>Store_Promises\<close>, \<open>Repository_Laws\<close> and \<open>Query_Laws\<close> have the properties.
  \<^item> \<open>Coding_Worker\<close>: the worker's planning transaction and task loop, which compose all of the above
    (\<^verbatim>\<open>internal/worker/coding_*.go\<close>). \<open>Worker_Laws\<close> and \<open>Loop_Laws\<close> have the properties.
  \<^item> \<open>Samples\<close>, \<open>Store_Samples\<close>: concrete ledgers and runs on which hypotheses are evaluated.

  \<^bold>\<open>State and operations.\<close> A struct is a record with the source's field names behind a prefix, a string type
  with constants is a datatype, an operation keeps its Go name. Functions that change a pointer return the changed
  value. The tables of one ledger are \<open>ledger_db\<close>, a transaction maps them to an error or to its result and the
  committed tables, and \<open>ledger_step\<close> is one committed transaction. Providers, evidence store and cancellation are
  the argument \<open>environment\<close>, whose answers are indexed by a clock. What other transactions commit between two of a
  worker's is an argument as well.

  \<^bold>\<open>What is shown.\<close> A mutation acts on the map of tasks as specified, never merges concurrent changes, and no
  agreement covers content that was not agreed. What the repository stores is what the agent showed, up to the review
  state of reordered tasks. In every run of the repository the tables are well formed, stored revisions never change
  and read back as computed, a freeze freezes and queues exactly the agreed proposal, and an acceptance is carried
  over a replan only for the same contract. The controller accepts a task only after a review without findings, never
  executes over a result that waits for its interpretation, and a restart finds the state the run had. Composed in the
  worker: the database accepts only what the journal records as reviewed, the task loop ends, and later owner controls
  win over an older plan. The JSON contracts, paths, orders and route checks are decided exactly.

  \<^bold>\<open>Bounds and fuel.\<close> Loops that the code does not bound take fuel and give \<open>None\<close> without it. The walk over
  JSON tokens needs at most twice the number of tokens. A run of a task returns once the context is done, with fuel
  for the turns until then (\<open>cancelled_run_returns\<close>). The task loop needs one pass more than there are ready
  tasks (\<open>task_loop_ends\<close>), and the complete read one page more than the revision fills
  (\<open>complete_read_is_one_revision\<close>). The retry loop of the planning transaction has no such bound, since others may
  commit forever; nothing is claimed about its termination.

  \<^bold>\<open>Not modelled.\<close>

  \<^item> The job queue, its leases and its attempts: SQL over tables outside the ledger. The outcome of an authority
    check and the replan of pending amendments are arguments. So is whatever the database refuses beyond the keys,
    checks and triggers written out (\<open>dbe_Refuse\<close>).
  \<^item> Prompts, schemas, providers and the conversation of a planning turn: their content is not determined by the
    code. The planner's answer is an argument.
  \<^item> Workspaces, processes, HTTP, command line, installation and user interfaces: input and output.
  \<^item> The assembly line, roleplay, research and data subsystems: they do not use the coding ledger.
  \<^item> Timestamps, log lines, activity callbacks, heartbeats and the texts of errors; an error keeps the branch that
    produced it. Nil and empty slices are one value.
\<close>

end
